(* ===== verification/Prelude.thy ===== *)
theory Prelude
  imports Complex_Main "HOL-Library.Log_Nat"
begin

text \<open>
  Shared vocabulary of the development.

  A database table is the list of its rows in physical order.  A conditional
  \<^verbatim>\<open>UPDATE ... WHERE p\<close> is \<open>sql_update p f\<close>, its row count is \<open>rowcount p\<close>, a
  \<^verbatim>\<open>SELECT ... WHERE p\<close> is \<open>sql_select p\<close>, a correlated \<^verbatim>\<open>EXISTS\<close> is
  \<open>sql_exists p\<close>, and \<^verbatim>\<open>query(...).filter(p).one_or_none()\<close> on a unique key is
  \<open>sql_one p\<close>.  The lemmas below say how an update that addresses one key acts on
  membership, on the key list and on a sum over the rows; the component theories
  use nothing else about tables.
\<close>

text \<open>Two collections used as simp sets: statements of the repository layer, and
  the program combinators of the session layer.\<close>

named_theorems sql_defs
named_theorems prog_defs

type_synonym uuid = nat
type_synonym time = int

definition sql_update :: "('r \<Rightarrow> bool) \<Rightarrow> ('r \<Rightarrow> 'r) \<Rightarrow> 'r list \<Rightarrow> 'r list" where
  "sql_update p f t = map (\<lambda>r. if p r then f r else r) t"

definition sql_select :: "('r \<Rightarrow> bool) \<Rightarrow> 'r list \<Rightarrow> 'r list" where
  "sql_select p t = filter p t"

definition rowcount :: "('r \<Rightarrow> bool) \<Rightarrow> 'r list \<Rightarrow> nat" where
  "rowcount p t = length (filter p t)"

definition sql_exists :: "('r \<Rightarrow> bool) \<Rightarrow> 'r list \<Rightarrow> bool" where
  "sql_exists p t = list_ex p t"

definition sql_one :: "('r \<Rightarrow> bool) \<Rightarrow> 'r list \<Rightarrow> 'r option" where
  "sql_one p t = List.find p t"

definition sum_rows :: "('r \<Rightarrow> bool) \<Rightarrow> ('r \<Rightarrow> int) \<Rightarrow> 'r list \<Rightarrow> int" where
  "sum_rows p f t = sum_list (map f (filter p t))"

subsection \<open>Evaluation on literal tables\<close>

lemma sql_update_simps [simp]:
  "sql_update p f [] = []"
  "sql_update p f (r # t) = (if p r then f r else r) # sql_update p f t"
  "sql_update p f (t @ u) = sql_update p f t @ sql_update p f u"
  by (simp_all add: sql_update_def)

lemma rowcount_simps [simp]:
  "rowcount p [] = 0"
  "rowcount p (r # t) = (if p r then Suc (rowcount p t) else rowcount p t)"
  by (simp_all add: rowcount_def)

lemma sql_select_simps [simp]:
  "sql_select p [] = []"
  "sql_select p (r # t) = (if p r then r # sql_select p t else sql_select p t)"
  by (simp_all add: sql_select_def)

lemma sql_one_simps [simp]:
  "sql_one p [] = None"
  "sql_one p (r # t) = (if p r then Some r else sql_one p t)"
  by (simp_all add: sql_one_def)

lemma sql_exists_simps [simp]:
  "sql_exists p [] = False"
  "sql_exists p (r # t) = (p r \<or> sql_exists p t)"
  by (simp_all add: sql_exists_def)

lemma sum_rows_simps [simp]:
  "sum_rows p f [] = 0"
  "sum_rows p f (r # t) = (if p r then f r else 0) + sum_rows p f t"
  "sum_rows p f (t @ u) = sum_rows p f t + sum_rows p f u"
  by (simp_all add: sum_rows_def)

subsection \<open>Membership and counting\<close>

lemma rowcount_0_iff [simp]: "rowcount p t = 0 \<longleftrightarrow> (\<forall>r \<in> set t. \<not> p r)"
  by (simp add: rowcount_def filter_empty_conv)

lemma rowcount_pos_iff [simp]: "0 < rowcount p t \<longleftrightarrow> (\<exists>r \<in> set t. p r)"
  by (simp add: rowcount_def length_greater_0_conv filter_empty_conv del: rowcount_0_iff)

lemma set_sql_select [simp]: "set (sql_select p t) = {r \<in> set t. p r}"
  by (simp add: sql_select_def)

lemma sql_exists_iff: "sql_exists p t \<longleftrightarrow> (\<exists>r \<in> set t. p r)"
  by (simp add: sql_exists_def list_ex_iff)

lemma in_sql_update_iff:
  "r \<in> set (sql_update p f t) \<longleftrightarrow> (\<exists>r0 \<in> set t. r = (if p r0 then f r0 else r0))"
  by (auto simp: sql_update_def)

lemma ball_sql_update:
  "(\<forall>r \<in> set (sql_update p f t). Q r) \<longleftrightarrow> (\<forall>r \<in> set t. Q (if p r then f r else r))"
  by (auto simp: sql_update_def)

lemma length_sql_update [simp]: "length (sql_update p f t) = length t"
  by (simp add: sql_update_def)

lemma sql_update_unmatched: "\<forall>r \<in> set t. \<not> p r \<Longrightarrow> sql_update p f t = t"
  by (induction t) auto

lemma map_sql_update_key:
  "(\<And>r. p r \<Longrightarrow> k (f r) = k r) \<Longrightarrow> map k (sql_update p f t) = map k t"
  by (induction t) auto

lemma sql_one_SomeD: "sql_one p t = Some r \<Longrightarrow> r \<in> set t \<and> p r"
  by (auto simp: sql_one_def find_Some_iff)

lemma sql_one_None_iff: "sql_one p t = None \<longleftrightarrow> (\<forall>r \<in> set t. \<not> p r)"
  by (auto simp: sql_one_def find_None_iff)

text \<open>Reading a row after an update that does not decide who matches the reading.\<close>

lemma sql_one_update:
  "(\<And>r. p r \<Longrightarrow> q (f r) = q r) \<Longrightarrow>
   sql_one q (sql_update p f t) = map_option (\<lambda>r. if p r then f r else r) (sql_one q t)"
  by (induction t) auto

lemma distinct_map_eqD:
  "distinct (map k t) \<Longrightarrow> r \<in> set t \<Longrightarrow> r' \<in> set t \<Longrightarrow> k r = k r' \<Longrightarrow> r = r'"
  by (auto simp: distinct_map dest: inj_onD)

lemma sql_one_unique:
  assumes "distinct (map k t)" and "r \<in> set t" and "p r"
    and "\<And>r'. r' \<in> set t \<Longrightarrow> p r' \<Longrightarrow> k r' = k r"
  shows "sql_one p t = Some r"
proof (cases "sql_one p t")
  case None
  with assms(2,3) show ?thesis by (simp add: sql_one_None_iff)
next
  case (Some r')
  then have "r' \<in> set t" "p r'" by (auto dest: sql_one_SomeD)
  with assms have "r' = r" by (blast intro: distinct_map_eqD)
  with Some show ?thesis by simp
qed

text \<open>An update that can only address the row of one key changes that row and no other.\<close>

lemma set_sql_update_one:
  assumes "distinct (map k t)" and "r \<in> set t" and "p r"
    and "\<And>r'. r' \<in> set t \<Longrightarrow> p r' \<Longrightarrow> k r' = k r"
  shows "set (sql_update p f t) = insert (f r) (set t - {r})"
proof -
  have "p r' \<longleftrightarrow> r' = r" if "r' \<in> set t" for r'
    using assms that by (blast intro: distinct_map_eqD)
  then have "sql_update p f t = map (\<lambda>x. if x = r then f r else x) t"
    by (auto simp: sql_update_def)
  with assms(2) show ?thesis by auto
qed

lemma distinct_snoc_key:
  "distinct (map k (t @ [r])) \<longleftrightarrow> distinct (map k t) \<and> k r \<notin> k ` set t"
  by auto

subsection \<open>Sums over rows\<close>

lemma sum_rows_nonneg: "(\<And>r. r \<in> set t \<Longrightarrow> p r \<Longrightarrow> 0 \<le> f r) \<Longrightarrow> 0 \<le> sum_rows p f t"
  by (induction t) auto

lemma sum_rows_member_le:
  "(\<And>r. r \<in> set t \<Longrightarrow> p r \<Longrightarrow> 0 \<le> f r) \<Longrightarrow> r \<in> set t \<Longrightarrow> p r \<Longrightarrow> f r \<le> sum_rows p f t"
proof (induction t)
  case (Cons a t)
  then have "0 \<le> sum_rows p f t" by (intro sum_rows_nonneg) auto
  with Cons show ?case by (fastforce simp: add_increasing)
qed simp

text \<open>The update that takes exactly one counted row out of the count.\<close>

lemma sum_rows_update_one:
  assumes "distinct (map k t)" and "r \<in> set t" and "p r" and "q r"
    and "\<And>r'. r' \<in> set t \<Longrightarrow> q r' \<Longrightarrow> k r' = k r" and "\<not> p (g r)"
  shows "sum_rows p f (sql_update q g t) = sum_rows p f t - f r"
proof -
  obtain us vs where t: "t = us @ r # vs" using split_list [OF assms(2)] by blast
  have no: "\<not> q r'" if "r' \<in> set us \<union> set vs" for r'
  proof
    assume "q r'"
    with that assms(5) have "k r' = k r" by (auto simp: t)
    with that assms(1) show False by (auto simp: t image_iff)
  qed
  then have "sql_update q g us = us" "sql_update q g vs = vs"
    by (simp_all add: sql_update_unmatched)
  with assms(3,4,6) show ?thesis by (simp add: t)
qed

lemma sum_rows_update_same:
  "(\<And>r. r \<in> set t \<Longrightarrow> q r \<Longrightarrow> p (g r) = p r \<and> f (g r) = f r) \<Longrightarrow>
   sum_rows p f (sql_update q g t) = sum_rows p f t"
  by (induction t) auto

end
