(* ===== verification/PyFloat.thy ===== *)
theory PyFloat
  imports Prelude
begin

text \<open>
  Python's \<^verbatim>\<open>float\<close> (IEEE 754 binary64) and the few functions of the language and of
  its \<^verbatim>\<open>math\<close> module that the program applies to floats.  A finite float is the rational
  it denotes; the sign of zero, which no code under src/ can observe, is not kept.  Every
  arithmetic operation is the exact result rounded by \<open>fl\<close>: round to nearest, ties to even,
  with gradual underflow below \<open>2^(-1022)\<close> and overflow to an infinity at \<open>2^1024\<close>.
  The lemmas give what the clients need: rounding is monotone, odd, exact on integers up
  to \<open>2^53\<close>, and never collapses a difference of two floats to zero.
\<close>

datatype pyfloat = Fin rat | PInf | NInf | NaN

subsection \<open>Powers of two and binary logarithm on rationals\<close>

definition pow2 :: "int \<Rightarrow> rat" where
  "pow2 k = (if 0 \<le> k then 2 ^ nat k else 1 / 2 ^ nat (- k))"

definition ilog2 :: "rat \<Rightarrow> int" where
  "ilog2 q = (let (n, d) = quotient_of q; e = bitlen n - bitlen d
              in if pow2 e \<le> q then e else e - 1)"

lemma pow2_pos [simp]: "0 < pow2 k"
  by (simp add: pow2_def)

lemma pow2_powi: "pow2 k = 2 powi k"
  by (simp add: pow2_def power_int_def inverse_eq_divide power_one_over)

lemma pow2_add: "pow2 (a + b) = pow2 a * pow2 b"
  by (simp add: pow2_powi power_int_add)

lemma pow2_mono: "a \<le> b \<Longrightarrow> pow2 a \<le> pow2 b"
  by (simp add: pow2_powi power_int_increasing)

lemma pow2_less: "pow2 a < pow2 b \<Longrightarrow> a < b"
  using pow2_mono [of b a] by fastforce

lemma pow2_nat: "0 \<le> k \<Longrightarrow> pow2 k = of_int (2 ^ nat k)"
  by (simp add: pow2_def)

lemma bitlen_pow2_bounds:
  assumes "0 < (n::int)"
  shows "pow2 (bitlen n - 1) \<le> of_int n" and "of_int n < pow2 (bitlen n)"
proof -
  have b: "2 ^ nat (bitlen n - 1) \<le> n" "n < 2 ^ nat (bitlen n)"
    using bitlen_bounds [of n] assms by auto
  have "0 < bitlen n" using assms bitlen_eq_zero_iff [of n] bitlen_nonneg [of n] by linarith
  then have "0 \<le> bitlen n - 1" "0 \<le> bitlen n" by simp_all
  with b show "pow2 (bitlen n - 1) \<le> of_int n" "of_int n < pow2 (bitlen n)"
    by (simp_all only: pow2_nat of_int_le_iff of_int_less_iff)
qed

lemma ilog2_bounds:
  assumes "0 < q"
  shows "pow2 (ilog2 q) \<le> q" and "q < pow2 (ilog2 q + 1)"
proof -
  obtain n d where nd: "quotient_of q = (n, d)" by fastforce
  have d: "0 < d" and q: "q = of_int n / of_int d"
    using quotient_of_denom_pos [OF nd] quotient_of_div [OF nd] by auto
  with assms have n: "0 < n" by (simp add: zero_less_divide_iff)
  define e where "e = bitlen n - bitlen d"
  have lo: "pow2 (e - 1) \<le> q"
  proof -
    have "pow2 (e - 1) * of_int d \<le> pow2 (e - 1) * pow2 (bitlen d)"
      using bitlen_pow2_bounds(2) [OF d] by (intro mult_left_mono less_imp_le) auto
    also have "\<dots> = pow2 (bitlen n - 1)" by (simp add: e_def flip: pow2_add)
    also have "\<dots> \<le> of_int n" by (rule bitlen_pow2_bounds(1) [OF n])
    finally show ?thesis using d by (simp add: q le_divide_eq)
  qed
  have hi: "q < pow2 (e + 1)"
  proof -
    have "of_int n < pow2 (bitlen n)" by (rule bitlen_pow2_bounds(2) [OF n])
    also have "\<dots> = pow2 (e + 1) * pow2 (bitlen d - 1)" by (simp add: e_def flip: pow2_add)
    also have "\<dots> \<le> pow2 (e + 1) * of_int d"
      using bitlen_pow2_bounds(1) [OF d] by (intro mult_left_mono) (auto intro: less_imp_le)
    finally show ?thesis using d by (simp add: q divide_less_eq)
  qed
  have "ilog2 q = (if pow2 e \<le> q then e else e - 1)"
    by (simp add: ilog2_def nd e_def Let_def)
  with lo hi show "pow2 (ilog2 q) \<le> q" "q < pow2 (ilog2 q + 1)" by auto
qed

lemma ilog2_mono: "0 < x \<Longrightarrow> x \<le> y \<Longrightarrow> ilog2 x \<le> ilog2 y"
  using ilog2_bounds [of x] ilog2_bounds [of y] pow2_less [of "ilog2 x" "ilog2 y + 1"] by fastforce

lemma ilog2_eqI: "pow2 e \<le> q \<Longrightarrow> q < pow2 (e + 1) \<Longrightarrow> ilog2 q = e"
proof -
  assume e: "pow2 e \<le> q" "q < pow2 (e + 1)"
  then have "0 < q" using pow2_pos [of e] by linarith
  note b = ilog2_bounds [OF this]
  have "pow2 (ilog2 q) < pow2 (e + 1)" "pow2 e < pow2 (ilog2 q + 1)" using b e by linarith+
  then show ?thesis using pow2_less [of "ilog2 q" "e + 1"] pow2_less [of e "ilog2 q + 1"] by linarith
qed

subsection \<open>Rounding to an integer, ties to even\<close>

definition round_half_even :: "rat \<Rightarrow> int" where
  "round_half_even q =
     (let f = \<lfloor>q\<rfloor>; r = q - of_int f
      in if r < 1/2 then f else if 1/2 < r then f + 1 else if even f then f else f + 1)"

lemma round_half_even_bounds: "\<lfloor>q\<rfloor> \<le> round_half_even q" "round_half_even q \<le> \<lfloor>q\<rfloor> + 1"
  by (auto simp: round_half_even_def Let_def)

lemma round_half_even_of_int [simp]: "round_half_even (of_int n) = n"
  by (simp add: round_half_even_def)

lemma round_half_even_mono:
  assumes "x \<le> y" shows "round_half_even x \<le> round_half_even y"
proof (cases "\<lfloor>x\<rfloor> = \<lfloor>y\<rfloor>")
  case True
  with assms show ?thesis by (auto simp: round_half_even_def Let_def)
next
  case False
  with assms have "\<lfloor>x\<rfloor> + 1 \<le> \<lfloor>y\<rfloor>" using floor_mono [OF assms] by simp
  then show ?thesis using round_half_even_bounds [of x] round_half_even_bounds [of y] by linarith
qed

lemma round_half_even_error: "\<bar>of_int (round_half_even q) - q\<bar> \<le> 1/2"
proof -
  have "of_int \<lfloor>q\<rfloor> \<le> q" "q < of_int \<lfloor>q\<rfloor> + 1" by linarith+
  then show ?thesis by (simp add: round_half_even_def Let_def abs_le_iff)
qed

lemma round_half_even_minus: "round_half_even (- q) = - round_half_even q"
proof (cases "q = of_int \<lfloor>q\<rfloor>")
  case True
  then show ?thesis by (metis of_int_minus round_half_even_of_int)
next
  case False
  then have "\<lfloor>- q\<rfloor> = - \<lfloor>q\<rfloor> - 1" by linarith
  then show ?thesis by (auto simp: round_half_even_def Let_def)
qed

subsection \<open>Rounding to binary64\<close>

definition quantum :: "rat \<Rightarrow> int" where
  "quantum q = max (ilog2 \<bar>q\<bar> - 52) (- 1074)"

definition fl_exact :: "rat \<Rightarrow> rat" where
  "fl_exact q = (if q = 0 then 0
     else of_int (round_half_even (q / pow2 (quantum q))) * pow2 (quantum q))"

definition fl :: "rat \<Rightarrow> pyfloat" where
  "fl q = (let r = fl_exact q
           in if pow2 1024 \<le> r then PInf else if r \<le> - pow2 1024 then NInf else Fin r)"

lemma fl_exact_0 [simp]: "fl_exact 0 = 0"
  by (simp add: fl_exact_def)

lemma quantum_minus [simp]: "quantum (- q) = quantum q"
  by (simp add: quantum_def)

lemma fl_exact_minus: "fl_exact (- q) = - fl_exact q"
  using round_half_even_minus [of "q / pow2 (quantum q)"] by (simp add: fl_exact_def)

lemma quantum_mono: "0 < x \<Longrightarrow> x \<le> y \<Longrightarrow> quantum x \<le> quantum y"
  using ilog2_mono [of x y] by (simp add: quantum_def)

text \<open>A positive number stays below its binade's upper end, and at or above its lower end.\<close>

lemma fl_exact_upper:
  assumes "0 < x" and "ilog2 x \<le> quantum x + 52"
  shows "fl_exact x \<le> pow2 (quantum x + 53)"
proof -
  have "x < pow2 (ilog2 x + 1)" by (rule ilog2_bounds(2) [OF assms(1)])
  also have "\<dots> \<le> pow2 (quantum x + 53)" using assms(2) by (intro pow2_mono) simp
  finally have "x / pow2 (quantum x) \<le> of_int (2 ^ 53)"
    by (simp add: pow2_add pow2_nat divide_le_eq mult.commute)
  then have "round_half_even (x / pow2 (quantum x)) \<le> 2 ^ 53"
    using round_half_even_mono round_half_even_of_int by metis
  then have "of_int (round_half_even (x / pow2 (quantum x))) \<le> (of_int (2 ^ 53) :: rat)"
    by (simp only: of_int_le_iff)
  then have "of_int (round_half_even (x / pow2 (quantum x))) * pow2 (quantum x)
      \<le> of_int (2 ^ 53) * pow2 (quantum x)"
    by (intro mult_right_mono) (auto intro: less_imp_le)
  with assms(1) show ?thesis by (simp add: fl_exact_def pow2_add pow2_nat mult.commute)
qed

lemma fl_exact_lower:
  assumes "0 < y" and "quantum y = ilog2 y - 52"
  shows "pow2 (quantum y + 52) \<le> fl_exact y"
proof -
  have "pow2 (quantum y + 52) \<le> y" using ilog2_bounds(1) [OF assms(1)] assms(2) by simp
  then have "of_int (2 ^ 52) \<le> y / pow2 (quantum y)"
    by (simp add: pow2_add pow2_nat le_divide_eq mult.commute)
  then have "2 ^ 52 \<le> round_half_even (y / pow2 (quantum y))"
    using round_half_even_mono round_half_even_of_int by metis
  then have "(of_int (2 ^ 52) :: rat) \<le> of_int (round_half_even (y / pow2 (quantum y)))"
    by (simp only: of_int_le_iff)
  then have "of_int (2 ^ 52) * pow2 (quantum y)
      \<le> of_int (round_half_even (y / pow2 (quantum y))) * pow2 (quantum y)"
    by (intro mult_right_mono) (auto intro: less_imp_le)
  with assms(1) show ?thesis by (simp add: fl_exact_def pow2_add pow2_nat mult.commute)
qed

lemma fl_exact_nonneg: "0 \<le> q \<Longrightarrow> 0 \<le> fl_exact q"
proof -
  assume "0 \<le> q"
  then have "0 \<le> q / pow2 (quantum q)" by (simp add: less_imp_le)
  from round_half_even_mono [OF this] have "0 \<le> round_half_even (q / pow2 (quantum q))"
    using round_half_even_of_int [of 0] by simp
  then show ?thesis by (simp add: fl_exact_def less_imp_le)
qed

lemma fl_exact_mono_pos:
  assumes "0 < x" and "x \<le> y" shows "fl_exact x \<le> fl_exact y"
proof (cases "quantum x = quantum y")
  case True
  have "x / pow2 (quantum y) \<le> y / pow2 (quantum y)"
    using assms by (simp add: divide_right_mono less_imp_le)
  then have "round_half_even (x / pow2 (quantum y)) \<le> round_half_even (y / pow2 (quantum y))"
    by (rule round_half_even_mono)
  with True assms show ?thesis by (simp add: fl_exact_def less_imp_le)
next
  case False
  with quantum_mono [OF assms] have lt: "quantum x < quantum y" by simp
  moreover from lt have qy: "quantum y = ilog2 y - 52"
    using assms by (auto simp: quantum_def max_def split: if_splits)
  moreover have "ilog2 x \<le> quantum x + 52" using assms(1) by (simp add: quantum_def)
  ultimately have "fl_exact x \<le> pow2 (quantum x + 53)" "pow2 (quantum y + 52) \<le> fl_exact y"
    using assms fl_exact_upper fl_exact_lower by auto
  moreover have "pow2 (quantum x + 53) \<le> pow2 (quantum y + 52)"
    using lt by (intro pow2_mono) simp
  ultimately show ?thesis by linarith
qed

lemma fl_exact_mono: "x \<le> y \<Longrightarrow> fl_exact x \<le> fl_exact y"
proof -
  assume le: "x \<le> y"
  consider "0 < x" | "x \<le> 0" "0 \<le> y" | "y < 0" by linarith
  then show ?thesis
  proof cases
    case 1
    with le show ?thesis by (intro fl_exact_mono_pos)
  next
    case 2
    then have "0 \<le> fl_exact (- x)" "0 \<le> fl_exact y" by (simp_all add: fl_exact_nonneg)
    then show ?thesis by (simp add: fl_exact_minus)
  next
    case 3
    with le have "fl_exact (- y) \<le> fl_exact (- x)" by (intro fl_exact_mono_pos) auto
    then show ?thesis by (simp add: fl_exact_minus)
  qed
qed

subsection \<open>Exact cases\<close>

lemma fl_exact_representable:
  assumes "quantum (of_int m * pow2 k) \<le> k"
  shows "fl_exact (of_int m * pow2 k) = of_int m * pow2 k"
proof -
  let ?q = "of_int m * pow2 k" and ?e = "quantum (of_int m * pow2 k)"
  have "pow2 k = pow2 (k - ?e) * pow2 ?e" by (simp flip: pow2_add)
  moreover have "pow2 (k - ?e) = of_int (2 ^ nat (k - ?e))" using assms by (intro pow2_nat) simp
  ultimately have q: "?q = of_int (m * 2 ^ nat (k - ?e)) * pow2 ?e" by simp
  then have "?q / pow2 ?e = of_int (m * 2 ^ nat (k - ?e))" by (metis nonzero_mult_div_cancel_right
    pow2_pos less_irrefl)
  then show ?thesis using q by (simp only: fl_exact_def round_half_even_of_int) auto
qed

lemma fl_exact_of_int:
  assumes "\<bar>n\<bar> < 2 ^ 53" shows "fl_exact (of_int n) = of_int n"
proof (cases "n = 0")
  case False
  have "\<bar>of_int n :: rat\<bar> < of_int (2 ^ 53)"
    using assms by (simp only: of_int_abs [symmetric] of_int_less_iff)
  then have "\<bar>of_int n :: rat\<bar> < pow2 53" by (simp add: pow2_nat)
  moreover have "pow2 (ilog2 \<bar>of_int n\<bar>) \<le> \<bar>of_int n\<bar>" using False by (intro ilog2_bounds(1)) simp
  ultimately have "ilog2 \<bar>of_int n\<bar> < 53" by (intro pow2_less) linarith
  then have "quantum (of_int n * pow2 0) \<le> 0" by (simp add: quantum_def pow2_def)
  then have "fl_exact (of_int n * pow2 0) = of_int n * pow2 0" by (rule fl_exact_representable)
  then show ?thesis by (simp add: pow2_def)
qed simp

lemma fl_exact_grid: "\<exists>m. fl_exact q = of_int m * pow2 (- 1074)"
proof -
  let ?k = "quantum q" and ?m = "round_half_even (q / pow2 (quantum q))"
  have "0 \<le> ?k + 1074" by (simp add: quantum_def)
  then have "pow2 ?k = of_int (2 ^ nat (?k + 1074)) * pow2 (- 1074)"
    by (simp only: pow2_nat [symmetric]) (simp flip: pow2_add)
  then have "of_int ?m * pow2 ?k = of_int (?m * 2 ^ nat (?k + 1074)) * pow2 (- 1074)" by simp
  then show ?thesis unfolding fl_exact_def by (metis (full_types) mult_zero_left of_int_0)
qed

lemma fl_exact_least: "fl_exact (pow2 (- 1074)) = pow2 (- 1074)"
proof -
  have "ilog2 (pow2 (- 1074)) = - 1074" by (rule ilog2_eqI) (simp_all add: pow2_def)
  then have "quantum (of_int 1 * pow2 (- 1074)) \<le> - 1074"
    by (simp add: quantum_def abs_of_pos)
  then have "fl_exact (of_int 1 * pow2 (- 1074)) = of_int 1 * pow2 (- 1074)"
    by (rule fl_exact_representable)
  then show ?thesis by simp
qed

lemma fl_pow2:
  assumes "- 1074 \<le> k" and "k < 1024"
  shows "fl (pow2 k) = Fin (pow2 k)"
proof -
  have "ilog2 (pow2 k) = k" by (rule ilog2_eqI) (simp_all add: pow2_add pow2_def [of 1])
  then have "fl_exact (pow2 k) = pow2 k"
    using fl_exact_representable [of 1 k] assms(1) by (simp add: quantum_def abs_of_pos)
  moreover have "pow2 k < pow2 1024"
  proof (rule ccontr)
    assume "\<not> pow2 k < pow2 1024"
    moreover have "pow2 k < pow2 (k + 1)" by (simp add: pow2_add pow2_def [of 1])
    moreover have "pow2 (k + 1) \<le> pow2 1024" using assms(2) by (intro pow2_mono) simp
    ultimately show False by linarith
  qed
  moreover from this have "\<not> pow2 k \<le> - pow2 1024" using pow2_pos [of k] pow2_pos [of 1024] by linarith
  ultimately show ?thesis by (simp add: fl_def Let_def)
qed

lemma fl_half: "fl (1 / 2) = Fin (1 / 2)" and fl_quarter: "fl (1 / 4) = Fin (1 / 4)"
  using fl_pow2 [of "- 1"] fl_pow2 [of "- 2"] by (simp_all add: pow2_def)

definition is_double :: "rat \<Rightarrow> bool" where
  "is_double q \<longleftrightarrow> fl_exact q = q"

text \<open>Gradual underflow: the difference of two distinct floats never rounds to zero.\<close>

lemma fl_exact_diff_pos:
  assumes "is_double x" and "is_double y" and "x < y"
  shows "0 < fl_exact (y - x)"
proof -
  obtain a b where a: "x = of_int a * pow2 (- 1074)" and b: "y = of_int b * pow2 (- 1074)"
    using assms(1,2) fl_exact_grid [of x] fl_exact_grid [of y] unfolding is_double_def by metis
  have "a < b" using assms(3) by (simp add: a b mult_less_cancel_right_pos)
  then have "(1::rat) \<le> of_int (b - a)" by simp
  then have "1 * pow2 (- 1074) \<le> of_int (b - a) * pow2 (- 1074)"
    by (intro mult_right_mono) (auto intro: less_imp_le)
  then have "pow2 (- 1074) \<le> y - x" by (simp add: a b left_diff_distrib)
  from fl_exact_mono [OF this] show ?thesis
    using pow2_pos [of "- 1074"] by (simp only: fl_exact_least)
qed

subsection \<open>The operations\<close>

fun f_neg :: "pyfloat \<Rightarrow> pyfloat" where
  "f_neg (Fin a) = Fin (- a)" | "f_neg PInf = NInf" | "f_neg NInf = PInf" | "f_neg NaN = NaN"

fun f_add :: "pyfloat \<Rightarrow> pyfloat \<Rightarrow> pyfloat" where
  "f_add (Fin a) (Fin b) = fl (a + b)"
| "f_add NaN _ = NaN" | "f_add _ NaN = NaN"
| "f_add PInf NInf = NaN" | "f_add NInf PInf = NaN"
| "f_add PInf _ = PInf" | "f_add _ PInf = PInf"
| "f_add NInf _ = NInf" | "f_add _ NInf = NInf"

definition f_sub :: "pyfloat \<Rightarrow> pyfloat \<Rightarrow> pyfloat" where
  "f_sub a b = f_add a (f_neg b)"

fun f_sign :: "pyfloat \<Rightarrow> int" where
  "f_sign (Fin a) = (if a < 0 then - 1 else if a = 0 then 0 else 1)"
| "f_sign PInf = 1" | "f_sign NInf = - 1" | "f_sign NaN = 0"

fun f_mul :: "pyfloat \<Rightarrow> pyfloat \<Rightarrow> pyfloat" where
  "f_mul (Fin a) (Fin b) = fl (a * b)"
| "f_mul NaN _ = NaN" | "f_mul _ NaN = NaN"
| "f_mul a b = (if f_sign a * f_sign b = 0 then NaN
                else if 0 < f_sign a * f_sign b then PInf else NInf)"

fun f_le :: "pyfloat \<Rightarrow> pyfloat \<Rightarrow> bool" where
  "f_le NaN _ = False" | "f_le _ NaN = False"
| "f_le (Fin a) (Fin b) = (a \<le> b)"
| "f_le NInf _ = True" | "f_le _ PInf = True"
| "f_le _ _ = False"

fun f_lt :: "pyfloat \<Rightarrow> pyfloat \<Rightarrow> bool" where
  "f_lt NaN _ = False" | "f_lt _ NaN = False"
| "f_lt (Fin a) (Fin b) = (a < b)"
| "f_lt NInf b = (b \<noteq> NInf)" | "f_lt a PInf = (a \<noteq> PInf)"
| "f_lt _ _ = False"

definition f_eq :: "pyfloat \<Rightarrow> pyfloat \<Rightarrow> bool" where
  "f_eq a b \<longleftrightarrow> f_le a b \<and> f_le b a"

fun f_abs :: "pyfloat \<Rightarrow> pyfloat" where
  "f_abs (Fin a) = Fin \<bar>a\<bar>" | "f_abs NaN = NaN" | "f_abs _ = PInf"

fun f_isinf :: "pyfloat \<Rightarrow> bool" where
  "f_isinf PInf = True" | "f_isinf NInf = True" | "f_isinf _ = False"

fun f_isnan :: "pyfloat \<Rightarrow> bool" where
  "f_isnan NaN = True" | "f_isnan _ = False"

text \<open>Python's \<^verbatim>\<open>min(a, b)\<close>: the first argument unless the second is smaller.\<close>

definition f_min :: "pyfloat \<Rightarrow> pyfloat \<Rightarrow> pyfloat" where
  "f_min a b = (if f_lt b a then b else a)"

text \<open>\<^verbatim>\<open>math.isclose(a, b, abs_tol=t)\<close>, with the default relative tolerance.\<close>

definition default_rel_tol :: pyfloat where
  "default_rel_tol = fl (1 / 10 ^ 9)"

definition isclose :: "pyfloat \<Rightarrow> pyfloat \<Rightarrow> pyfloat \<Rightarrow> bool" where
  "isclose a b abs_tol =
     (if f_eq a b then True
      else if f_isinf a \<or> f_isinf b then False
      else (let diff = f_abs (f_sub b a)
            in f_le diff (f_abs (f_mul default_rel_tol b))
             \<or> f_le diff (f_abs (f_mul default_rel_tol a))
             \<or> f_le diff abs_tol))"

text \<open>A value is well formed when it is one a binary64 can hold.\<close>

fun f_ok :: "pyfloat \<Rightarrow> bool" where
  "f_ok (Fin a) = (is_double a \<and> \<bar>a\<bar> < pow2 1024)" | "f_ok _ = True"

lemma f_le_Fin_fl: "x \<le> y \<Longrightarrow> f_le (fl x) (fl y)"
  using fl_exact_mono [of x y] by (auto simp: fl_def Let_def)

lemma f_le_refl: "\<not> f_isnan a \<Longrightarrow> f_le a a"
  by (cases a) auto

lemma f_le_trans: "f_le a b \<Longrightarrow> f_le b c \<Longrightarrow> f_le a c"
  by (cases a; cases b; cases c) auto

lemma f_le_total: "\<not> f_isnan a \<Longrightarrow> \<not> f_isnan b \<Longrightarrow> f_le a b \<or> f_le b a"
  by (cases a; cases b) auto

lemma f_lt_iff: "f_lt a b \<longleftrightarrow> f_le a b \<and> \<not> f_le b a"
  by (cases a; cases b) auto

lemma fl_not_nan [simp]: "\<not> f_isnan (fl q)" "fl q \<noteq> NaN"
  by (auto simp: fl_def Let_def)

lemma f_min_mono: "f_le a b \<Longrightarrow> \<not> f_isnan c \<Longrightarrow> f_le (f_min a c) (f_min b c)"
  by (cases a; cases b; cases c) (auto simp: f_min_def)

lemma f_min_le: "\<not> f_isnan a \<Longrightarrow> \<not> f_isnan c \<Longrightarrow> f_le (f_min a c) c"
  by (cases a; cases c) (auto simp: f_min_def)

lemma fl_of_int: "\<bar>n\<bar> < 2 ^ 53 \<Longrightarrow> fl (of_int n) = Fin (of_int n)"
proof -
  assume n: "\<bar>n\<bar> < 2 ^ 53"
  then have "of_int n < (of_int (2 ^ 53) :: rat)" "- (of_int (2 ^ 53) :: rat) < of_int n"
    by (simp_all only: of_int_less_iff flip: of_int_minus)
  moreover have "of_int (2 ^ 53) \<le> pow2 1024" by (simp add: pow2_def)
  ultimately show ?thesis using n by (simp add: fl_def fl_exact_of_int)
qed

text \<open>Rounding changes a value by at most one part in \<open>2 ^ 53\<close>, or half the least step.\<close>

lemma fl_exact_error: "\<bar>fl_exact q - q\<bar> \<le> \<bar>q\<bar> * pow2 (- 53) + pow2 (- 1075)"
proof (cases "q = 0")
  case False
  define k where "k = quantum q"
  have "\<bar>of_int (round_half_even (q / pow2 k)) - q / pow2 k\<bar> * pow2 k \<le> 1 / 2 * pow2 k"
    by (intro mult_right_mono round_half_even_error) (simp add: less_imp_le)
  also have "1 / 2 * pow2 k = pow2 (k - 1)"
    using pow2_add [of "k - 1" 1] by (simp add: pow2_def [of 1])
  finally have h: "\<bar>of_int (round_half_even (q / pow2 k)) - q / pow2 k\<bar> * pow2 k \<le> pow2 (k - 1)" .
  have "\<bar>of_int (round_half_even (q / pow2 k)) - q / pow2 k\<bar> * pow2 k
      = \<bar>(of_int (round_half_even (q / pow2 k)) - q / pow2 k) * pow2 k\<bar>"
    by (simp only: abs_mult abs_of_pos [OF pow2_pos])
  also have "\<dots> = \<bar>fl_exact q - q\<bar>"
    using False pow2_pos [of "quantum q", THEN less_imp_neq]
    by (simp add: fl_exact_def k_def left_diff_distrib)
  finally have "\<bar>fl_exact q - q\<bar> \<le> pow2 (k - 1)" using h by simp
  also have "pow2 (k - 1) \<le> pow2 (ilog2 \<bar>q\<bar> - 53) + pow2 (- 1075)"
    using pow2_pos [of "ilog2 \<bar>q\<bar> - 53"] pow2_pos [of "- 1075"]
    by (auto simp: k_def quantum_def max_def simp del: pow2_pos)
  also have "pow2 (ilog2 \<bar>q\<bar> - 53) = pow2 (ilog2 \<bar>q\<bar>) * pow2 (- 53)"
    by (simp flip: pow2_add)
  also have "\<dots> \<le> \<bar>q\<bar> * pow2 (- 53)"
    using False by (intro mult_right_mono ilog2_bounds(1)) (auto simp: less_imp_le)
  finally show ?thesis by simp
qed (simp add: less_imp_le)

lemma fl_near:
  assumes "\<bar>q\<bar> \<le> 1100000"
  shows "\<exists>r. fl q = Fin r \<and> \<bar>r - q\<bar> \<le> 1 / 1000000000"
proof -
  have "\<bar>q\<bar> * pow2 (- 53) + pow2 (- 1075) \<le> 1100000 * pow2 (- 53) + pow2 (- 53)"
    using assms by (intro add_mono mult_right_mono pow2_mono) (auto simp: less_imp_le)
  also have "\<dots> \<le> 1 / 1000000000" by (simp add: pow2_def)
  finally have e: "\<bar>fl_exact q - q\<bar> \<le> 1 / 1000000000" using fl_exact_error [of q] by linarith
  have "pow2 21 \<le> pow2 1024" by (rule pow2_mono) simp
  then have "2097152 \<le> pow2 1024" by (simp add: pow2_def [of 21])
  then have "\<bar>fl_exact q\<bar> < pow2 1024" using e assms by linarith
  then have "fl q = Fin (fl_exact q)" by (auto simp: fl_def Let_def)
  with e show ?thesis by blast
qed

end
