(* ===== verification/Schema.thy ===== *)
theory Schema
  imports PyFloat
begin

text \<open>
  The data model (app/models): one record per table row, with the columns the program
  reads or writes, the database as the record of its tables, JSON column values, the
  exceptions the code raises or lets through, and the SQLAlchemy session the services
  run on: the working view of the open transaction and the list of committed states,
  newest first, so that every intermediate commit of a service is a value of the model.
  A \<open>program\<close> is a session transformer that returns a value or an exception.
  Identifiers are compared for equality only; times are microseconds.  The audit column
  \<^verbatim>\<open>updated_at\<close> is written by the database on every update and read by no code, and
  is left out.
\<close>

subsection \<open>JSON values\<close>

datatype json = JNull | JBool bool | JInt int | JFloat pyfloat | JStr string
  | JArr "json list" | JObj "(string \<times> json) list"

text \<open>Python's truth value of a JSON value, negated.\<close>

fun falsy :: "json \<Rightarrow> bool" where
  "falsy JNull = True"
| "falsy (JBool b) = (\<not> b)"
| "falsy (JInt n) = (n = 0)"
| "falsy (JFloat x) = (x = Fin 0)"
| "falsy (JStr s) = (s = [])"
| "falsy (JArr xs) = (xs = [])"
| "falsy (JObj kvs) = (kvs = [])"

subsection \<open>Enumerations\<close>

datatype job_status = PENDING | QUEUED | RUNNING | SUCCEEDED | FAILED | CANCELLED

datatype attempt_status = ARunning | ASucceeded | AFailed | ACancelled | ALost

datatype reservation_status = ACTIVE | RELEASED

datatype artifact_status = APending | AUploaded | AUploadFailed

datatype gate_status = GPass | GFail | GError

subsection \<open>Rows\<close>

record job =
  j_id :: uuid
  j_job_type :: string
  j_status :: job_status
  j_config :: "json option"
  j_cancel_requested :: bool
  j_claimed_at :: "time option"
  j_attempt_number :: int
  j_lease_owner :: "string option"
  j_lease_expires_at :: "time option"
  j_next_retry_at :: "time option"
  j_priority :: int
  j_deleted_at :: "time option"
  j_created_at :: time

record attempt =
  a_job_id :: uuid
  a_attempt_number :: int
  a_worker_id :: string
  a_status :: attempt_status
  a_started_at :: time
  a_finished_at :: "time option"
  a_error_message :: "string option"
  a_error_classification :: "string option"
  a_failure_domain :: "string option"

record reservation =
  r_job_id :: uuid
  r_attempt_number :: int
  r_cpu :: int
  r_memory_mb :: int
  r_gpu :: int
  r_status :: reservation_status
  r_created_at :: time
  r_released_at :: "time option"

record capacity =
  total_cpu :: int
  allocated_cpu :: int
  total_memory_mb :: int
  allocated_memory_mb :: int
  total_gpu :: int
  allocated_gpu :: int

record outbox =
  o_id :: uuid
  o_job_id :: uuid
  o_event_type :: string
  o_payload :: json
  o_created_at :: time
  o_published_at :: "time option"

record dlq_entry =
  d_job_id :: uuid
  d_moved_to_dlq_at :: time
  d_last_attempt_number :: int
  d_last_error_message :: "string option"
  d_last_error_classification :: string
  d_total_attempts :: int

record scheduling_decision =
  s_job_id :: uuid
  s_decided_at :: time
  s_decision :: string
  s_reason :: string
  s_requested_cpu :: int
  s_requested_memory_mb :: int
  s_requested_gpu :: int
  s_available_cpu_snapshot :: int
  s_available_memory_mb_snapshot :: int
  s_available_gpu_snapshot :: int
  s_effective_priority :: pyfloat

record artifact =
  f_id :: uuid
  f_content_hash :: string
  f_storage_key :: string
  f_artifact_type :: string
  f_size_bytes :: "int option"
  f_attempt_number :: "int option"
  f_job_id :: "uuid option"
  f_status :: artifact_status
  f_uploader_id :: "string option"
  f_upload_lease_expires_at :: "time option"
  f_created_at :: time
  f_uploaded_at :: "time option"

record dataset =
  ds_id :: uuid
  ds_name :: string
  ds_description :: "string option"
  ds_created_at :: time

record dataset_version =
  dv_dataset_id :: uuid
  dv_version_number :: int
  dv_artifact_id :: uuid
  dv_created_at :: time

record model =
  m_id :: uuid
  m_name :: string
  m_description :: "string option"
  m_created_at :: time

record model_version =
  mv_model_id :: uuid
  mv_version_number :: int
  mv_artifact_id :: uuid
  mv_training_run_id :: "uuid option"
  mv_registered_at :: time

record training_run =
  tr_id :: uuid
  tr_job_id :: uuid
  tr_dataset_id :: uuid
  tr_dataset_version_number :: int
  tr_base_model_id :: "uuid option"
  tr_base_model_version_number :: "int option"
  tr_training_config :: json
  tr_code_commit :: string
  tr_container_image :: string
  tr_random_seed :: "int option"
  tr_created_at :: time

record checkpoint =
  c_training_run_id :: uuid
  c_attempt_number :: int
  c_step :: int
  c_artifact_id :: uuid
  c_base_model_id :: "uuid option"
  c_base_model_version_number :: "int option"
  c_checkpoint_format_version :: int
  c_created_at :: time

record training_metric =
  tm_id :: uuid
  tm_training_run_id :: uuid
  tm_attempt_number :: int
  tm_step :: int
  tm_loss :: "pyfloat option"
  tm_learning_rate :: "pyfloat option"
  tm_gpu_memory_allocated_mb :: "int option"
  tm_recorded_at :: time

record training_run_output =
  to_training_run_id :: uuid
  to_final_artifact_id :: uuid
  to_attempt_number :: int
  to_created_at :: time

record attempt_resume_decision =
  rd_training_run_id :: uuid
  rd_attempt_number :: int
  rd_resumed_from_step :: "int option"
  rd_decided_at :: time

record evaluation_config =
  ec_id :: uuid
  ec_task_type :: string
  ec_metric_definitions :: json
  ec_batch_size :: int
  ec_max_examples :: "int option"
  ec_max_sequence_length :: "int option"
  ec_evaluator_code_commit :: string
  ec_container_image :: string
  ec_random_seed :: "int option"
  ec_created_at :: time

record evaluation_run =
  er_id :: uuid
  er_model_id :: uuid
  er_model_version_number :: int
  er_dataset_id :: uuid
  er_dataset_version_number :: int
  er_evaluation_config_id :: uuid
  er_job_id :: uuid
  er_baseline_model_id :: "uuid option"
  er_baseline_model_version_number :: "int option"
  er_status :: job_status
  er_evaluator_code_commit :: string
  er_container_image :: string
  er_created_at :: time
  er_completed_at :: "time option"

record evaluation_result =
  ex_evaluation_run_id :: uuid
  ex_example_id :: string
  ex_prediction :: "string option"
  ex_expected_output :: "string option"
  ex_score :: "pyfloat option"
  ex_latency_ms :: "pyfloat option"
  ex_error_code :: "string option"
  ex_error_message :: "string option"
  ex_attempt_number :: int
  ex_created_at :: time

record evaluation_metric =
  em_evaluation_run_id :: uuid
  em_metric_name :: string
  em_split :: string
  em_metric_value :: pyfloat
  em_sample_count :: int
  em_attempt_number :: int
  em_created_at :: time

record quality_gate =
  qg_id :: uuid
  qg_name :: string
  qg_rules :: json
  qg_created_at :: time

record quality_gate_result =
  qr_id :: uuid
  qr_evaluation_run_id :: uuid
  qr_quality_gate_id :: uuid
  qr_status :: gate_status
  qr_rule_results :: json
  qr_evaluated_at :: time

subsection \<open>The database\<close>

text \<open>The capacity table is its singleton row, the only one any statement addresses.\<close>

record db =
  t_jobs :: "job list"
  t_attempts :: "attempt list"
  t_reservations :: "reservation list"
  t_capacity :: "capacity option"
  t_outbox :: "outbox list"
  t_dlq :: "dlq_entry list"
  t_scheduling_decisions :: "scheduling_decision list"
  t_artifacts :: "artifact list"
  t_datasets :: "dataset list"
  t_dataset_versions :: "dataset_version list"
  t_models :: "model list"
  t_model_versions :: "model_version list"
  t_training_runs :: "training_run list"
  t_checkpoints :: "checkpoint list"
  t_training_metrics :: "training_metric list"
  t_training_run_outputs :: "training_run_output list"
  t_attempt_resume_decisions :: "attempt_resume_decision list"
  t_evaluation_configs :: "evaluation_config list"
  t_evaluation_runs :: "evaluation_run list"
  t_evaluation_results :: "evaluation_result list"
  t_evaluation_metrics :: "evaluation_metric list"
  t_quality_gates :: "quality_gate list"
  t_quality_gate_results :: "quality_gate_result list"

definition empty_db :: db where
  "empty_db = \<lparr>t_jobs = [], t_attempts = [], t_reservations = [], t_capacity = None,
     t_outbox = [], t_dlq = [], t_scheduling_decisions = [], t_artifacts = [],
     t_datasets = [], t_dataset_versions = [], t_models = [], t_model_versions = [],
     t_training_runs = [], t_checkpoints = [], t_training_metrics = [],
     t_training_run_outputs = [], t_attempt_resume_decisions = [],
     t_evaluation_configs = [], t_evaluation_runs = [], t_evaluation_results = [],
     t_evaluation_metrics = [], t_quality_gates = [], t_quality_gate_results = []\<rparr>"

subsection \<open>Exceptions and settings\<close>

datatype exn = HTTPException nat | IntegrityError | DBError | MultipleResultsFound
  | PyTypeError | PyValueError | PyOverflowError | PyAttributeError | PyKeyError | PyZeroDivisionError | ClientError
  | Reject string "capacity option"

record settings =
  lease_duration_seconds :: int
  max_attempts :: int
  base_delay_seconds :: pyfloat
  max_delay_seconds :: pyfloat
  jitter_ratio :: pyfloat
  aging_rate :: pyfloat
  priority_ceiling :: int
  max_admissions_per_pass :: nat
  default_cpu :: int
  default_memory_mb :: int
  default_gpu :: int
  artifact_pending_grace_period_seconds :: int
  upload_lease_duration_seconds :: int

definition default_settings :: settings where
  "default_settings = \<lparr>lease_duration_seconds = 30, max_attempts = 3,
     base_delay_seconds = Fin 2, max_delay_seconds = Fin 60, jitter_ratio = fl (1 / 5),
     aging_rate = fl (1 / 20), priority_ceiling = 100, max_admissions_per_pass = 50,
     default_cpu = 1, default_memory_mb = 512, default_gpu = 0,
     artifact_pending_grace_period_seconds = 300, upload_lease_duration_seconds = 60\<rparr>"

definition seconds :: "int \<Rightarrow> time" where
  "seconds n = n * 1000000"

text \<open>A stand-in for \<^verbatim>\<open>uuid4()\<close>: an identifier no row of the table has yet.\<close>

definition fresh_id :: "uuid list \<Rightarrow> uuid" where
  "fresh_id used = Suc (foldr max used 0)"

lemma fresh_id_not_in [simp]: "fresh_id used \<notin> set used"
proof -
  have "x \<le> foldr max used 0" if "x \<in> set used" for x
    using that by (induction used) auto
  then show ?thesis by (fastforce simp: fresh_id_def)
qed

subsection \<open>Sessions and programs\<close>

record session =
  work :: db
  durable :: "db list"

type_synonym 'a program = "session \<Rightarrow> (exn + 'a) \<times> session"

definition begin_session :: "db \<Rightarrow> session" where
  "begin_session d = \<lparr>work = d, durable = [d]\<rparr>"

definition ret :: "'a \<Rightarrow> 'a program" where
  [prog_defs]: "ret a s = (Inr a, s)"

definition raise :: "exn \<Rightarrow> 'a program" where
  [prog_defs]: "raise e s = (Inl e, s)"

definition bind :: "'a program \<Rightarrow> ('a \<Rightarrow> 'b program) \<Rightarrow> 'b program" where
  [prog_defs]: "bind m f s = (case m s of (Inl e, s') \<Rightarrow> (Inl e, s') | (Inr a, s') \<Rightarrow> f a s')"

definition try_except :: "'a program \<Rightarrow> (exn \<Rightarrow> 'a program) \<Rightarrow> 'a program" where
  [prog_defs]: "try_except m h s = (case m s of (Inl e, s') \<Rightarrow> h e s' | (Inr a, s') \<Rightarrow> (Inr a, s'))"

text \<open>A statement reads or changes the working view; a failing one leaves it unchanged.\<close>

definition query :: "(db \<Rightarrow> 'a) \<Rightarrow> 'a program" where
  [prog_defs]: "query f s = (Inr (f (work s)), s)"

definition execute :: "(db \<Rightarrow> db) \<Rightarrow> unit program" where
  [prog_defs]: "execute f s = (Inr (), s\<lparr>work := f (work s)\<rparr>)"

definition commit :: "unit program" where
  [prog_defs]: "commit s = (Inr (), s\<lparr>durable := work s # durable s\<rparr>)"

definition rollback :: "unit program" where
  [prog_defs]: "rollback s = (Inr (), s\<lparr>work := hd (durable s)\<rparr>)"

definition commit_if :: "bool \<Rightarrow> unit program" where
  [prog_defs]: "commit_if c = (if c then commit else ret ())"

definition do_if :: "bool \<Rightarrow> unit program \<Rightarrow> unit program" where
  [prog_defs]: "do_if c m = (if c then m else ret ())"

text \<open>The result of a program, and the states it made durable, run from a database.\<close>

definition result :: "'a program \<Rightarrow> db \<Rightarrow> exn + 'a" where
  "result m d = fst (m (begin_session d))"

definition final_db :: "'a program \<Rightarrow> db \<Rightarrow> db" where
  "final_db m d = hd (durable (snd (m (begin_session d))))"

definition commits :: "'a program \<Rightarrow> db \<Rightarrow> db list" where
  "commits m d = durable (snd (m (begin_session d)))"

text \<open>What PostgreSQL accepts as JSON: the tokens Python writes for the floats that are not finite
  are no JSON, and a statement with one in a JSON column fails.\<close>

fun storable :: "json \<Rightarrow> bool" where
  "storable (JFloat f) = (case f of Fin _ \<Rightarrow> True | _ \<Rightarrow> False)"
| "storable (JArr xs) = list_all storable xs"
| "storable (JObj kvs) = list_all (\<lambda>kv. storable (snd kv)) kvs"
| "storable _ = True"

definition json_column :: "json option \<Rightarrow> unit program" where
  [prog_defs]: "json_column c = (if pred_option storable c then ret () else raise DBError)"

lemmas run_defs = result_def final_db_def commits_def begin_session_def

end
