(* ===== verification/Sessions.thy ===== *)
theory Sessions
  imports Schema
begin

text \<open>
  Reasoning about programs on a session.  \<open>keeps I m\<close>: if the invariant \<open>I\<close> holds of the
  working view and of every committed state, then after \<open>m\<close> it holds of every state
  committed so far, and of the working view when \<open>m\<close> returned a value.  (A program that
  raised leaves an open transaction that its caller rolls back.)  \<open>recovers I m\<close> asks the
  same without the working view: the contract of an exception handler.  The rules follow
  the combinators, so that a service keeps an invariant because its statements do.
\<close>

named_theorems keeps_intros

definition durable_ok :: "(db \<Rightarrow> bool) \<Rightarrow> session \<Rightarrow> bool" where
  "durable_ok I s \<longleftrightarrow> durable s \<noteq> [] \<and> (\<forall>d \<in> set (durable s). I d)"

definition kept :: "(db \<Rightarrow> bool) \<Rightarrow> (exn + 'a) \<times> session \<Rightarrow> bool" where
  "kept I r \<longleftrightarrow> durable_ok I (snd r) \<and> (\<forall>a. fst r = Inr a \<longrightarrow> I (work (snd r)))"

definition keeps :: "(db \<Rightarrow> bool) \<Rightarrow> 'a program \<Rightarrow> bool" where
  "keeps I m \<longleftrightarrow> (\<forall>s. durable_ok I s \<longrightarrow> I (work s) \<longrightarrow> kept I (m s))"

definition recovers :: "(db \<Rightarrow> bool) \<Rightarrow> 'a program \<Rightarrow> bool" where
  "recovers I m \<longleftrightarrow> (\<forall>s. durable_ok I s \<longrightarrow> kept I (m s))"

lemma keepsI: "(\<And>s. durable_ok I s \<Longrightarrow> I (work s) \<Longrightarrow> kept I (m s)) \<Longrightarrow> keeps I m"
  by (simp add: keeps_def)

lemma keepsD: "keeps I m \<Longrightarrow> durable_ok I s \<Longrightarrow> I (work s) \<Longrightarrow> kept I (m s)"
  by (simp add: keeps_def)

lemma keeps_ret [keeps_intros]: "keeps I (ret a)"
  by (simp add: keeps_def kept_def ret_def)

lemma keeps_raise [keeps_intros]: "keeps I (raise e)"
  by (simp add: keeps_def kept_def raise_def)

lemma keeps_query [keeps_intros]: "keeps I (query f)"
  by (simp add: keeps_def kept_def query_def)

lemma keeps_json_column [keeps_intros]: "keeps I (json_column c)"
  by (simp add: json_column_def keeps_ret keeps_raise)

lemma keeps_commit [keeps_intros]: "keeps I commit"
  by (simp add: keeps_def kept_def commit_def durable_ok_def)

lemma keeps_commit_if [keeps_intros]: "keeps I (commit_if c)"
  by (simp add: commit_if_def keeps_commit keeps_ret)

lemma recovers_rollback: "recovers I rollback"
  by (simp add: recovers_def kept_def rollback_def durable_ok_def)

lemma recovers_keeps: "recovers I m \<Longrightarrow> keeps I m"
  by (simp add: recovers_def keeps_def)

lemma keeps_rollback [keeps_intros]: "keeps I rollback"
  by (rule recovers_keeps [OF recovers_rollback])

lemma recovers_raise [keeps_intros]: "recovers I (raise e)"
  by (simp add: recovers_def kept_def raise_def)

lemma keeps_execute: "(\<And>d. I d \<Longrightarrow> I (f d)) \<Longrightarrow> keeps I (execute f)"
  by (simp add: keeps_def kept_def execute_def durable_ok_def)

lemma kept_bind:
  "kept I (m s) \<Longrightarrow> (\<And>a. keeps I (f a)) \<Longrightarrow> kept I (bind m f s)"
  by (auto simp: kept_def bind_def keeps_def split: prod.splits sum.splits)

lemma keeps_bind [keeps_intros]:
  "keeps I m \<Longrightarrow> (\<And>a. keeps I (f a)) \<Longrightarrow> keeps I (bind m f)"
  by (intro keepsI kept_bind) (simp_all add: keeps_def)

lemma recovers_bind [keeps_intros]:
  "recovers I m \<Longrightarrow> (\<And>a. keeps I (f a)) \<Longrightarrow> recovers I (bind m f)"
  by (simp add: recovers_def kept_bind)

lemma keeps_try_except [keeps_intros]:
  assumes "keeps I m" and "\<And>e. recovers I (h e)"
  shows "keeps I (try_except m h)"
proof (rule keepsI)
  fix s assume "durable_ok I s" "I (work s)"
  then have k: "kept I (m s)" using assms(1) by (rule keepsD [rotated])
  obtain r s' where ms: "m s = (r, s')" by fastforce
  with k have d: "durable_ok I s'" by (simp add: kept_def)
  show "kept I (try_except m h s)"
  proof (cases r)
    case (Inl e)
    with ms d assms(2) show ?thesis by (simp add: try_except_def recovers_def)
  next
    case (Inr a)
    with ms k show ?thesis by (simp add: try_except_def)
  qed
qed

lemma keeps_if [keeps_intros]: "keeps I m \<Longrightarrow> keeps I m' \<Longrightarrow> keeps I (if b then m else m')"
  by simp

lemma keeps_option [keeps_intros]:
  "keeps I m \<Longrightarrow> (\<And>a. keeps I (f a)) \<Longrightarrow> keeps I (case x of None \<Rightarrow> m | Some a \<Rightarrow> f a)"
  by (cases x) simp_all

lemma keeps_prod [keeps_intros]:
  "(\<And>a b. keeps I (f a b)) \<Longrightarrow> keeps I (case x of (a, b) \<Rightarrow> f a b)"
  by (cases x) simp

lemma keeps_sum [keeps_intros]:
  "(\<And>e. keeps I (f e)) \<Longrightarrow> (\<And>a. keeps I (g a)) \<Longrightarrow> keeps I (case x of Inl e \<Rightarrow> f e | Inr a \<Rightarrow> g a)"
  by (cases x) simp_all

text \<open>What \<open>keeps\<close> means for a service run from a database: crash at any commit included.\<close>

lemma durable_ok_begin: "I d \<Longrightarrow> durable_ok I (begin_session d)"
  by (simp add: durable_ok_def begin_session_def)

lemma keeps_commits:
  assumes "keeps I m" and "I d" and "d' \<in> set (commits m d)"
  shows "I d'"
  using keepsD [OF assms(1) durable_ok_begin] assms(2,3)
  by (simp add: commits_def kept_def durable_ok_def begin_session_def)

lemma keeps_final:
  assumes "keeps I m" and "I d"
  shows "I (final_db m d)"
proof -
  have "durable_ok I (snd (m (begin_session d)))"
    using keepsD [OF assms(1) durable_ok_begin] assms(2)
    by (simp add: kept_def begin_session_def)
  then show ?thesis by (simp add: final_db_def durable_ok_def)
qed

lemma keeps_final_in:
  assumes "keeps I m" and "I d"
  shows "final_db m d \<in> set (commits m d)"
  using keepsD [OF assms(1) durable_ok_begin] assms(2)
  by (simp add: final_db_def commits_def kept_def durable_ok_def begin_session_def)

subsection \<open>Pre- and postconditions\<close>

text \<open>\<open>triple I P m Q\<close>: from a working view with \<open>P\<close>, every state \<open>m\<close> commits satisfies \<open>I\<close>, and
  when it returns \<open>a\<close> the view satisfies \<open>Q a\<close>.  It says what \<open>keeps\<close> cannot: what the rows a
  statement returned have to do with the tables at a later statement.\<close>

definition triple :: "(db \<Rightarrow> bool) \<Rightarrow> (db \<Rightarrow> bool) \<Rightarrow> 'a program \<Rightarrow> ('a \<Rightarrow> db \<Rightarrow> bool) \<Rightarrow> bool" where
  "triple I P m Q \<longleftrightarrow> (\<forall>s. durable_ok I s \<longrightarrow> P (work s) \<longrightarrow>
     durable_ok I (snd (m s)) \<and> (\<forall>a. fst (m s) = Inr a \<longrightarrow> Q a (work (snd (m s)))))"

named_theorems triple_intros

lemma triple_ret [triple_intros]: "(\<And>d. P d \<Longrightarrow> Q a d) \<Longrightarrow> triple I P (ret a) Q"
  by (simp add: triple_def ret_def)

lemma triple_raise [triple_intros]: "triple I P (raise e) Q"
  by (simp add: triple_def raise_def)

lemma triple_query: "(\<And>d. P d \<Longrightarrow> Q (f d) d) \<Longrightarrow> triple I P (query f) Q"
  by (simp add: triple_def query_def)

lemma triple_execute: "(\<And>d. P d \<Longrightarrow> Q () (f d)) \<Longrightarrow> triple I P (execute f) Q"
  by (simp add: triple_def execute_def durable_ok_def)

lemma triple_commit: "(\<And>d. P d \<Longrightarrow> I d \<and> Q () d) \<Longrightarrow> triple I P commit Q"
  by (simp add: triple_def commit_def durable_ok_def)

lemma triple_bind [triple_intros]:
  "triple I P m R \<Longrightarrow> (\<And>a. triple I (R a) (f a) Q) \<Longrightarrow> triple I P (bind m f) Q"
  unfolding triple_def bind_def by (auto split: prod.splits sum.splits)

lemma triple_if [triple_intros]:
  "(b \<Longrightarrow> triple I P m Q) \<Longrightarrow> (\<not> b \<Longrightarrow> triple I P m' Q) \<Longrightarrow> triple I P (if b then m else m') Q"
  by simp

lemma triple_option [triple_intros]:
  "(x = None \<Longrightarrow> triple I P m Q) \<Longrightarrow> (\<And>a. x = Some a \<Longrightarrow> triple I P (f a) Q) \<Longrightarrow>
   triple I P (case x of None \<Rightarrow> m | Some a \<Rightarrow> f a) Q"
  by (cases x) simp_all

lemma triple_weaken:
  "triple I P m Q \<Longrightarrow> (\<And>d. P' d \<Longrightarrow> P d) \<Longrightarrow> (\<And>a d. Q a d \<Longrightarrow> Q' a d) \<Longrightarrow> triple I P' m Q'"
  by (auto simp: triple_def)

lemma triple_pre: "(\<And>d. P d \<Longrightarrow> c) \<Longrightarrow> (c \<Longrightarrow> triple I P m Q) \<Longrightarrow> triple I P m Q"
  by (auto simp: triple_def)

lemma triple_keeps: "triple I I m (\<lambda>_. I) \<longleftrightarrow> keeps I m"
  by (auto simp: triple_def keeps_def kept_def)

lemma triple_begin:
  assumes "triple I P m Q" and "I d" and "P d"
  shows "durable_ok I (snd (m (begin_session d)))"
    and "fst (m (begin_session d)) = Inr a \<Longrightarrow> Q a (work (snd (m (begin_session d))))"
proof -
  have "work (begin_session d) = d" by (simp add: begin_session_def)
  with assms durable_ok_begin [of I d]
  show "durable_ok I (snd (m (begin_session d)))"
    and "fst (m (begin_session d)) = Inr a \<Longrightarrow> Q a (work (snd (m (begin_session d))))"
    by (simp_all add: triple_def)
qed

lemma triple_commits:
  assumes "triple I P m Q" and "I d" and "P d" and "d' \<in> set (commits m d)"
  shows "I d'"
  using triple_begin(1) [OF assms(1-3)] assms(4) by (auto simp: commits_def durable_ok_def)

lemma triple_final:
  assumes "triple I P m Q" and "I d" and "P d"
  shows "I (final_db m d)"
  using triple_begin(1) [OF assms] by (simp add: final_db_def durable_ok_def)

lemma triple_result:
  assumes "triple I P m Q" and "I d" and "P d" and "result m d = Inr a"
  shows "Q a (work (snd (m (begin_session d))))"
  using triple_begin(2) [OF assms(1-3)] assms(4) by (simp add: result_def)

subsection \<open>Returning with nothing uncommitted\<close>

text \<open>\<open>settles m\<close>: entered with no uncommitted change, \<open>m\<close> returns with none.\<close>

definition settles :: "'a program \<Rightarrow> bool" where
  "settles m \<longleftrightarrow> (\<forall>s a. work s = hd (durable s) \<longrightarrow> fst (m s) = Inr a \<longrightarrow>
     work (snd (m s)) = hd (durable (snd (m s))))"

named_theorems settles_intros

lemma settles_pure [settles_intros]: "settles (ret a)" "settles (raise e)" "settles (query f)"
  by (simp_all add: settles_def ret_def raise_def query_def)

lemma settles_bind [settles_intros]: "settles m \<Longrightarrow> (\<And>a. settles (f a)) \<Longrightarrow> settles (bind m f)"
  unfolding settles_def bind_def by (auto split: prod.splits sum.splits)

lemma settles_then_commit [settles_intros]:
  "(\<And>a b. settles (f a b)) \<Longrightarrow> settles (bind m (\<lambda>a. bind commit (f a)))"
  unfolding settles_def bind_def commit_def by (auto split: prod.splits sum.splits)

lemma settles_if [settles_intros]: "settles m \<Longrightarrow> settles m' \<Longrightarrow> settles (if b then m else m')"
  by simp

lemma settles_option [settles_intros]:
  "settles m \<Longrightarrow> (\<And>a. settles (f a)) \<Longrightarrow> settles (case x of None \<Rightarrow> m | Some a \<Rightarrow> f a)"
  by (cases x) simp_all

lemma settles_result:
  "settles m \<Longrightarrow> result m d = Inr a \<Longrightarrow> work (snd (m (begin_session d))) = final_db m d"
  by (simp add: settles_def result_def final_db_def begin_session_def)

lemma triple_settles:
  "triple I P m Q \<Longrightarrow> settles m \<Longrightarrow> I d \<Longrightarrow> P d \<Longrightarrow> result m d = Inr a \<Longrightarrow> Q a (final_db m d)"
  using triple_result [of I P m Q d a] settles_result [of m d a] by simp

end
