(* ===== verification/JobsRepo.thy ===== *)
theory JobsRepo
  imports Schema
begin

text \<open>
  The job state machine (app/statemachine.py) and the jobs repository
  (app/repository/jobs.py).  Every statement that changes a job is an atomic conditional
  update: its \<^verbatim>\<open>WHERE\<close> clause is a predicate of its own here, so that the fencing
  arguments speak about the code's guards.  A comparison with a NULL column does not match.
\<close>

subsection \<open>State machine\<close>

fun status_value :: "job_status \<Rightarrow> string" where
  "status_value PENDING = ''PENDING''"
| "status_value QUEUED = ''QUEUED''"
| "status_value RUNNING = ''RUNNING''"
| "status_value SUCCEEDED = ''SUCCEEDED''"
| "status_value FAILED = ''FAILED''"
| "status_value CANCELLED = ''CANCELLED''"

definition VALID_TRANSITIONS :: "(job_status \<times> job_status list) list" where
  "VALID_TRANSITIONS =
     [(PENDING, [QUEUED]),
      (QUEUED, [RUNNING, CANCELLED]),
      (RUNNING, [SUCCEEDED, FAILED, CANCELLED]),
      (SUCCEEDED, []),
      (FAILED, []),
      (CANCELLED, [])]"

definition sources_for :: "string \<Rightarrow> job_status list" where
  "sources_for to_status =
     map fst (filter (\<lambda>(s, targets). to_status \<in> set (map status_value targets)) VALID_TRANSITIONS)"

definition status_of_string :: "string \<Rightarrow> job_status option" where
  "status_of_string v =
     List.find (\<lambda>s. status_value s = v) [PENDING, QUEUED, RUNNING, SUCCEEDED, FAILED, CANCELLED]"

definition terminal :: "job_status \<Rightarrow> bool" where
  "terminal s \<longleftrightarrow> s \<in> {SUCCEEDED, FAILED, CANCELLED}"

lemma status_of_string_value [simp]: "status_of_string (status_value s) = Some s"
  by (cases s) (simp_all add: status_of_string_def)

lemma status_of_string_Some_iff [simp]: "status_of_string v = Some s \<longleftrightarrow> v = status_value s"
proof
  assume "status_of_string v = Some s"
  then show "v = status_value s" unfolding status_of_string_def find_Some_iff by blast
qed simp

lemma sources_for_unknown: "status_of_string v = None \<Longrightarrow> sources_for v = []"
  unfolding status_of_string_def find_None_iff sources_for_def VALID_TRANSITIONS_def
  by (simp del: status_value.simps) metis

lemma sources_for_values:
  "sources_for (status_value PENDING) = []"
  "sources_for (status_value QUEUED) = [PENDING]"
  "sources_for (status_value RUNNING) = [QUEUED]"
  "sources_for (status_value SUCCEEDED) = [RUNNING]"
  "sources_for (status_value FAILED) = [RUNNING]"
  "sources_for (status_value CANCELLED) = [QUEUED, RUNNING]"
  by (simp_all add: sources_for_def VALID_TRANSITIONS_def)

lemma sources_for_not_terminal: "s \<in> set (sources_for v) \<Longrightarrow> \<not> terminal s"
  by (auto simp: sources_for_def VALID_TRANSITIONS_def terminal_def split: if_splits)

subsection \<open>Statements on the jobs table\<close>

definition update_jobs :: "(db \<Rightarrow> job \<Rightarrow> bool) \<Rightarrow> (job \<Rightarrow> job) \<Rightarrow> nat program" where
  [prog_defs]: "update_jobs p f s =
     (Inr (rowcount (p (work s)) (t_jobs (work s))),
      s\<lparr>work := (work s)\<lparr>t_jobs := sql_update (p (work s)) f (t_jobs (work s))\<rparr>\<rparr>)"

definition not_after :: "time option \<Rightarrow> time \<Rightarrow> bool" where
  "not_after t now = (case t of None \<Rightarrow> True | Some x \<Rightarrow> x \<le> now)"

definition expired :: "time option \<Rightarrow> time \<Rightarrow> bool" where
  "expired t now = (case t of None \<Rightarrow> False | Some x \<Rightarrow> x < now)"

definition find_job :: "uuid \<Rightarrow> db \<Rightarrow> job option" where
  [sql_defs]: "find_job jid d = sql_one (\<lambda>j. j_id j = jid \<and> j_deleted_at j = None) (t_jobs d)"

definition jobs_get :: "uuid \<Rightarrow> job option program" where
  [prog_defs]: "jobs_get jid = query (find_job jid)"

definition jobs_insert :: "job \<Rightarrow> job program" where
  "jobs_insert j =
     bind (json_column (j_config j)) (\<lambda>_.
     bind (execute (\<lambda>d. d\<lparr>t_jobs := t_jobs d @ [j]\<rparr>)) (\<lambda>_.
     bind commit (\<lambda>_. ret j)))"

definition jobs_create_and_enqueue :: "job \<Rightarrow> job_status \<Rightarrow> job program" where
  [prog_defs]: "jobs_create_and_enqueue j queued_status =
     bind (json_column (j_config j)) (\<lambda>_.
     bind (execute (\<lambda>d. d\<lparr>t_jobs := t_jobs d @ [j]\<rparr>)) (\<lambda>_.
     bind (update_jobs (\<lambda>_ r. j_id r = j_id j) (\<lambda>r. r\<lparr>j_status := queued_status\<rparr>)) (\<lambda>_.
     bind commit (\<lambda>_. ret (j\<lparr>j_status := queued_status\<rparr>)))))"

definition jobs_conditional_transition ::
  "uuid \<Rightarrow> job_status list \<Rightarrow> job_status \<Rightarrow> (job \<Rightarrow> job) \<Rightarrow> bool \<Rightarrow> job option program" where
  [prog_defs]: "jobs_conditional_transition jid valid_from to_status extra_values do_commit =
     bind (update_jobs (\<lambda>_ j. j_id j = jid \<and> j_status j \<in> set valid_from \<and> j_deleted_at j = None)
             (\<lambda>j. extra_values (j\<lparr>j_status := to_status\<rparr>))) (\<lambda>n.
     bind (commit_if do_commit) (\<lambda>_.
     if n = 0 then ret None else jobs_get jid))"

definition jobs_set_cancel_requested :: "uuid \<Rightarrow> job option program" where
  [prog_defs]: "jobs_set_cancel_requested jid =
     bind (update_jobs (\<lambda>_ j. j_id j = jid \<and> j_status j = RUNNING \<and> j_deleted_at j = None)
             (\<lambda>j. j\<lparr>j_cancel_requested := True\<rparr>)) (\<lambda>n.
     bind commit (\<lambda>_.
     if n = 0 then ret None else jobs_get jid))"

subsection \<open>Claim, heartbeat and finalize: the lease and its fencing token\<close>

definition claim_where :: "time \<Rightarrow> uuid \<Rightarrow> db \<Rightarrow> job \<Rightarrow> bool" where
  "claim_where now jid d j \<longleftrightarrow>
     j_id j = jid \<and> j_status j = QUEUED \<and> \<not> j_cancel_requested j
   \<and> not_after (j_next_retry_at j) now \<and> j_deleted_at j = None
   \<and> sql_exists (\<lambda>r. r_job_id r = jid \<and> r_attempt_number r = j_attempt_number j + 1
                    \<and> r_status r = ACTIVE) (t_reservations d)"

definition claim_set :: "time \<Rightarrow> string \<Rightarrow> int \<Rightarrow> job \<Rightarrow> job" where
  "claim_set now worker_id lease_seconds j =
     j\<lparr>j_status := RUNNING, j_lease_owner := Some worker_id,
       j_lease_expires_at := Some (now + seconds lease_seconds),
       j_attempt_number := j_attempt_number j + 1,
       j_claimed_at := Some now, j_next_retry_at := None\<rparr>"

definition jobs_claim :: "time \<Rightarrow> uuid \<Rightarrow> string \<Rightarrow> int \<Rightarrow> job option program" where
  [prog_defs]: "jobs_claim now jid worker_id lease_seconds =
     bind (update_jobs (claim_where now jid) (claim_set now worker_id lease_seconds)) (\<lambda>n.
     bind commit (\<lambda>_.
     if n = 0 then ret None else jobs_get jid))"

text \<open>The ownership check that heartbeat, finalize and every fenced write share.\<close>

definition holds_lease :: "uuid \<Rightarrow> string \<Rightarrow> int \<Rightarrow> job \<Rightarrow> bool" where
  "holds_lease jid worker_id n j \<longleftrightarrow>
     j_id j = jid \<and> j_status j = RUNNING \<and> j_lease_owner j = Some worker_id \<and> j_attempt_number j = n"

definition jobs_heartbeat :: "time \<Rightarrow> uuid \<Rightarrow> string \<Rightarrow> int \<Rightarrow> int \<Rightarrow> bool program" where
  [prog_defs]: "jobs_heartbeat now jid worker_id n lease_seconds =
     bind (update_jobs (\<lambda>_. holds_lease jid worker_id n)
             (\<lambda>j. j\<lparr>j_lease_expires_at := Some (now + seconds lease_seconds)\<rparr>)) (\<lambda>k.
     bind commit (\<lambda>_. ret (0 < k)))"

definition finalize_set :: "job_status \<Rightarrow> (job \<Rightarrow> job) \<Rightarrow> job \<Rightarrow> job" where
  "finalize_set to_status extra_values j =
     extra_values (j\<lparr>j_status := to_status, j_lease_owner := None, j_lease_expires_at := None\<rparr>)"

definition jobs_finalize_attempt ::
  "uuid \<Rightarrow> string \<Rightarrow> int \<Rightarrow> job_status \<Rightarrow> (job \<Rightarrow> job) \<Rightarrow> bool \<Rightarrow> job option program" where
  [prog_defs]: "jobs_finalize_attempt jid worker_id n to_status extra_values do_commit =
     bind (update_jobs (\<lambda>_. holds_lease jid worker_id n) (finalize_set to_status extra_values)) (\<lambda>k.
     bind (commit_if do_commit) (\<lambda>_.
     if k = 0 then ret None else jobs_get jid))"

subsection \<open>Recovery's reclaim and the list queries\<close>

definition stale_where :: "time \<Rightarrow> uuid \<Rightarrow> job \<Rightarrow> bool" where
  "stale_where now jid j \<longleftrightarrow>
     j_id j = jid \<and> j_status j = RUNNING \<and> expired (j_lease_expires_at j) now"

definition reclaim_set :: "int \<Rightarrow> time \<Rightarrow> job \<Rightarrow> job" where
  "reclaim_set max_att computed_next_retry_at j =
     j\<lparr>j_lease_owner := None, j_lease_expires_at := None,
       j_status := (if j_cancel_requested j then CANCELLED
                    else if max_att \<le> j_attempt_number j then FAILED else QUEUED),
       j_next_retry_at := (if j_cancel_requested j then None
                           else if max_att \<le> j_attempt_number j then None
                           else Some computed_next_retry_at)\<rparr>"

text \<open>\<^verbatim>\<open>RETURNING attempt_number, status\<close> of the updated row.\<close>

definition jobs_reclaim_stale ::
  "time \<Rightarrow> uuid \<Rightarrow> int \<Rightarrow> time \<Rightarrow> bool \<Rightarrow> (int \<times> job_status) option program" where
  [prog_defs]: "jobs_reclaim_stale now jid max_att computed_next_retry_at do_commit =
     bind (query (\<lambda>d. map_option (\<lambda>j. let j' = reclaim_set max_att computed_next_retry_at j
                                     in (j_attempt_number j', j_status j'))
                        (sql_one (stale_where now jid) (t_jobs d)))) (\<lambda>row.
     bind (update_jobs (\<lambda>_. stale_where now jid) (reclaim_set max_att computed_next_retry_at)) (\<lambda>_.
     bind (commit_if do_commit) (\<lambda>_. ret row)))"

definition jobs_list_stale_leases :: "time \<Rightarrow> db \<Rightarrow> job list" where
  "jobs_list_stale_leases now d =
     sql_select (\<lambda>j. j_status j = RUNNING \<and> expired (j_lease_expires_at j) now
                   \<and> j_deleted_at j = None) (t_jobs d)"

definition jobs_list_retry_due :: "time \<Rightarrow> db \<Rightarrow> job list" where
  "jobs_list_retry_due now d =
     sql_select (\<lambda>j. j_status j = QUEUED \<and> j_next_retry_at j \<noteq> None
                   \<and> not_after (j_next_retry_at j) now \<and> j_deleted_at j = None) (t_jobs d)"

definition jobs_list_schedulable :: "time \<Rightarrow> db \<Rightarrow> job list" where
  "jobs_list_schedulable now d =
     sql_select (\<lambda>j. j_status j = QUEUED \<and> \<not> j_cancel_requested j
                   \<and> not_after (j_next_retry_at j) now \<and> j_deleted_at j = None
                   \<and> \<not> sql_exists (\<lambda>r. r_job_id r = j_id j
                          \<and> r_attempt_number r = j_attempt_number j + 1
                          \<and> r_status r = ACTIVE) (t_reservations d)) (t_jobs d)"

definition jobs_clear_retry_dispatched :: "uuid \<Rightarrow> unit program" where
  [prog_defs]: "jobs_clear_retry_dispatched jid =
     bind (update_jobs (\<lambda>_ j. j_id j = jid) (\<lambda>j. j\<lparr>j_next_retry_at := None\<rparr>)) (\<lambda>_. ret ())"

text \<open>Newest first; the order of rows created at the same instant is the table's.\<close>

definition jobs_list :: "nat \<Rightarrow> nat \<Rightarrow> db \<Rightarrow> job list \<times> nat" where
  "jobs_list limit offset d =
     (let base = sql_select (\<lambda>j. j_deleted_at j = None) (t_jobs d)
      in (take limit (drop offset (sort_key (\<lambda>j. - j_created_at j) base)), length base))"

text \<open>The ORM writes the assigned attributes of the one row the object stands for.\<close>

definition jobs_update :: "job \<Rightarrow> (job \<Rightarrow> job) \<Rightarrow> job program" where
  [prog_defs]: "jobs_update j assigned =
     bind (json_column (j_config (assigned j))) (\<lambda>_.
     bind (update_jobs (\<lambda>_ r. j_id r = j_id j) assigned) (\<lambda>_.
     bind commit (\<lambda>_. ret (assigned j))))"

definition jobs_soft_delete :: "time \<Rightarrow> job \<Rightarrow> job program" where
  [prog_defs]: "jobs_soft_delete now j =
     bind (update_jobs (\<lambda>_ r. j_id r = j_id j) (\<lambda>r. r\<lparr>j_deleted_at := Some now\<rparr>)) (\<lambda>_.
     bind commit (\<lambda>_. ret (j\<lparr>j_deleted_at := Some now\<rparr>)))"

end
