(* ===== verification/ResourcesRepo.thy ===== *)
theory ResourcesRepo
  imports JobsRepo
begin

text \<open>
  Capacity and reservations (app/repository/capacity.py, app/repository/reservations.py):
  the atomic check-and-reserve on the capacity row, its unconditional release, and the
  reservation rows whose \<^verbatim>\<open>ACTIVE\<close> to \<^verbatim>\<open>RELEASED\<close> transition decides who may release.
\<close>

subsection \<open>Capacity\<close>

definition capacity_get :: "capacity option program" where
  [prog_defs]: "capacity_get = query t_capacity"

definition reserve_where :: "int \<Rightarrow> int \<Rightarrow> int \<Rightarrow> capacity \<Rightarrow> bool" where
  "reserve_where cpu memory_mb gpu c \<longleftrightarrow>
     allocated_cpu c + cpu \<le> total_cpu c
   \<and> allocated_memory_mb c + memory_mb \<le> total_memory_mb c
   \<and> allocated_gpu c + gpu \<le> total_gpu c"

definition reserve_set :: "int \<Rightarrow> int \<Rightarrow> int \<Rightarrow> capacity \<Rightarrow> capacity" where
  "reserve_set cpu memory_mb gpu c =
     c\<lparr>allocated_cpu := allocated_cpu c + cpu,
       allocated_memory_mb := allocated_memory_mb c + memory_mb,
       allocated_gpu := allocated_gpu c + gpu\<rparr>"

definition capacity_try_reserve :: "int \<Rightarrow> int \<Rightarrow> int \<Rightarrow> bool program" where
  [prog_defs]: "capacity_try_reserve cpu memory_mb gpu =
     bind (query t_capacity) (\<lambda>cap.
     case cap of
       None \<Rightarrow> ret False
     | Some c \<Rightarrow>
         if reserve_where cpu memory_mb gpu c
         then bind (execute (\<lambda>d. d\<lparr>t_capacity := Some (reserve_set cpu memory_mb gpu c)\<rparr>))
                (\<lambda>_. ret True)
         else ret False)"

definition capacity_release :: "int \<Rightarrow> int \<Rightarrow> int \<Rightarrow> unit program" where
  [prog_defs]: "capacity_release cpu memory_mb gpu =
     execute (\<lambda>d. d\<lparr>t_capacity := map_option (\<lambda>c.
       c\<lparr>allocated_cpu := allocated_cpu c - cpu,
         allocated_memory_mb := allocated_memory_mb c - memory_mb,
         allocated_gpu := allocated_gpu c - gpu\<rparr>) (t_capacity d)\<rparr>)"

definition which_dimension_insufficient :: "capacity \<Rightarrow> int \<Rightarrow> int \<Rightarrow> int \<Rightarrow> string" where
  "which_dimension_insufficient cap cpu memory_mb gpu =
     (if total_cpu cap < allocated_cpu cap + cpu
      then (if total_cpu cap < cpu then ''exceeds_total_cluster_capacity''
            else ''insufficient_cpu_capacity'')
      else if total_memory_mb cap < allocated_memory_mb cap + memory_mb
      then (if total_memory_mb cap < memory_mb then ''exceeds_total_cluster_capacity''
            else ''insufficient_memory_capacity'')
      else if total_gpu cap < allocated_gpu cap + gpu
      then (if total_gpu cap < gpu then ''exceeds_total_cluster_capacity''
            else ''insufficient_gpu_capacity'')
      else ''resources_available'')"

subsection \<open>Reservations\<close>

definition reservation_key :: "reservation \<Rightarrow> uuid \<times> int" where
  "reservation_key r = (r_job_id r, r_attempt_number r)"

definition find_reservation :: "uuid \<Rightarrow> int \<Rightarrow> db \<Rightarrow> reservation option" where
  [sql_defs]: "find_reservation jid n d =
     sql_one (\<lambda>r. r_job_id r = jid \<and> r_attempt_number r = n) (t_reservations d)"

definition reservations_has_active :: "uuid \<Rightarrow> int \<Rightarrow> bool program" where
  [prog_defs]: "reservations_has_active jid n =
     query (\<lambda>d. sql_one (\<lambda>r. r_job_id r = jid \<and> r_attempt_number r = n \<and> r_status r = ACTIVE)
                  (t_reservations d) \<noteq> None)"

definition reservations_insert ::
  "time \<Rightarrow> uuid \<Rightarrow> int \<Rightarrow> int \<Rightarrow> int \<Rightarrow> int \<Rightarrow> reservation program" where
  [prog_defs]: "reservations_insert now jid n cpu memory_mb gpu =
     (let r = \<lparr>r_job_id = jid, r_attempt_number = n, r_cpu = cpu, r_memory_mb = memory_mb,
               r_gpu = gpu, r_status = ACTIVE, r_created_at = now, r_released_at = None\<rparr>
      in bind (query (find_reservation jid n)) (\<lambda>existing.
         if existing \<noteq> None then raise IntegrityError
         else bind (execute (\<lambda>d. d\<lparr>t_reservations := t_reservations d @ [r]\<rparr>)) (\<lambda>_. ret r)))"

definition release_where :: "uuid \<Rightarrow> int \<Rightarrow> reservation \<Rightarrow> bool" where
  "release_where jid n r \<longleftrightarrow> r_job_id r = jid \<and> r_attempt_number r = n \<and> r_status r = ACTIVE"

definition release_set :: "time \<Rightarrow> reservation \<Rightarrow> reservation" where
  "release_set now r = r\<lparr>r_status := RELEASED, r_released_at := Some now\<rparr>"

definition reservations_release :: "time \<Rightarrow> uuid \<Rightarrow> int \<Rightarrow> reservation option program" where
  [prog_defs]: "reservations_release now jid n =
     bind (query (\<lambda>d. rowcount (release_where jid n) (t_reservations d))) (\<lambda>k.
     bind (execute (\<lambda>d. d\<lparr>t_reservations :=
             sql_update (release_where jid n) (release_set now) (t_reservations d)\<rparr>)) (\<lambda>_.
     if k = 0 then ret None else query (find_reservation jid n)))"

text \<open>The ground truth of the conservation audit.\<close>

definition is_active :: "reservation \<Rightarrow> bool" where
  "is_active r \<longleftrightarrow> r_status r = ACTIVE"

definition reservations_sum_active :: "db \<Rightarrow> int \<times> int \<times> int" where
  "reservations_sum_active d =
     (sum_rows is_active r_cpu (t_reservations d),
      sum_rows is_active r_memory_mb (t_reservations d),
      sum_rows is_active r_gpu (t_reservations d))"

text \<open>Release of a reservation and of the capacity it holds, as worker, recovery and the
  job service do it: capacity is given back only by the call that won the transition.\<close>

definition release_reservation :: "time \<Rightarrow> uuid \<Rightarrow> int \<Rightarrow> unit program" where
  [prog_defs]: "release_reservation now jid n =
     bind (reservations_release now jid n) (\<lambda>released.
     case released of
       None \<Rightarrow> ret ()
     | Some r \<Rightarrow> capacity_release (r_cpu r) (r_memory_mb r) (r_gpu r))"

subsection \<open>Conservation\<close>

definition conserved :: "db \<Rightarrow> bool" where
  "conserved d \<longleftrightarrow> (\<exists>c. t_capacity d = Some c \<and>
     reservations_sum_active d = (allocated_cpu c, allocated_memory_mb c, allocated_gpu c))"

definition reservation_keys_ok :: "db \<Rightarrow> bool" where
  "reservation_keys_ok d \<longleftrightarrow> distinct (map reservation_key (t_reservations d))"

text \<open>The database after a release, as one function of the database before it.\<close>

definition release_db :: "time \<Rightarrow> uuid \<Rightarrow> int \<Rightarrow> db \<Rightarrow> db" where
  "release_db now jid n d =
     (case sql_one (release_where jid n) (t_reservations d) of
        None \<Rightarrow> d
      | Some r \<Rightarrow> d\<lparr>t_reservations :=
                       sql_update (release_where jid n) (release_set now) (t_reservations d),
                     t_capacity := map_option (\<lambda>c.
                       c\<lparr>allocated_cpu := allocated_cpu c - r_cpu r,
                         allocated_memory_mb := allocated_memory_mb c - r_memory_mb r,
                         allocated_gpu := allocated_gpu c - r_gpu r\<rparr>) (t_capacity d)\<rparr>)"

lemma release_keeps_keys [simp]:
  "map reservation_key (sql_update p (release_set now) t) = map reservation_key t"
  by (rule map_sql_update_key) (simp add: reservation_key_def release_set_def)

lemma release_find:
  assumes "distinct (map reservation_key t)" and "sql_one (release_where jid n) t = Some r"
  shows "sql_one (\<lambda>r. r_job_id r = jid \<and> r_attempt_number r = n)
           (sql_update (release_where jid n) (release_set now) t) = Some (release_set now r)"
proof (rule sql_one_unique [where k = reservation_key])
  from assms(2) have r: "r \<in> set t" "release_where jid n r" by (auto dest: sql_one_SomeD)
  then show "release_set now r \<in> set (sql_update (release_where jid n) (release_set now) t)"
    by (auto simp: in_sql_update_iff intro!: bexI [of _ r])
qed (use assms sql_one_SomeD [OF assms(2)] in
      \<open>auto simp: release_set_def release_where_def reservation_key_def\<close>)

lemma release_reservation_run:
  assumes "distinct (map reservation_key (t_reservations (work s)))"
  shows "release_reservation now jid n s = (Inr (), s\<lparr>work := release_db now jid n (work s)\<rparr>)"
proof (cases "sql_one (release_where jid n) (t_reservations (work s))")
  case None
  then have "\<forall>r \<in> set (t_reservations (work s)). \<not> release_where jid n r"
    by (simp add: sql_one_None_iff)
  with None show ?thesis
    by (simp add: prog_defs release_db_def sql_update_unmatched)
next
  case (Some r)
  then have "0 < rowcount (release_where jid n) (t_reservations (work s))"
    by (auto dest: sql_one_SomeD)
  with Some release_find [OF assms Some] show ?thesis
    by (auto simp: prog_defs sql_defs release_db_def release_set_def)
qed

lemma release_db_frame [simp]:
  "t_jobs (release_db now jid n d) = t_jobs d"
  "t_attempts (release_db now jid n d) = t_attempts d"
  "t_outbox (release_db now jid n d) = t_outbox d"
  "t_dlq (release_db now jid n d) = t_dlq d"
  by (simp_all add: release_db_def split: option.splits)

lemma release_db_reservations:
  "t_reservations (release_db now jid n d) =
     sql_update (release_where jid n) (release_set now) (t_reservations d)"
  by (auto simp: release_db_def sql_one_None_iff sql_update_unmatched split: option.splits)

lemma release_db_keys [simp]: "reservation_keys_ok (release_db now jid n d) = reservation_keys_ok d"
  by (simp add: reservation_keys_ok_def release_db_reservations)

text \<open>Releasing gives back exactly what the released row held.\<close>

lemma release_db_conserved:
  assumes "reservation_keys_ok d" and "conserved d"
  shows "conserved (release_db now jid n d)"
proof (cases "sql_one (release_where jid n) (t_reservations d)")
  case None
  with assms show ?thesis by (simp add: release_db_def)
next
  case (Some r)
  have sums: "sum_rows is_active f (sql_update (release_where jid n) (release_set now) (t_reservations d))
      = sum_rows is_active f (t_reservations d) - f r" for f
  proof (rule sum_rows_update_one [where k = reservation_key])
    show "distinct (map reservation_key (t_reservations d))"
      using assms(1) by (simp add: reservation_keys_ok_def)
  qed (use sql_one_SomeD [OF Some] in
        \<open>auto simp: is_active_def release_set_def release_where_def reservation_key_def\<close>)
  from assms(2) Some show ?thesis
    by (auto simp: conserved_def reservations_sum_active_def release_db_def sums)
qed

text \<open>Reserving and recording the reservation adds exactly what the row holds.\<close>

lemma reserve_conserved:
  assumes "conserved d" and "t_capacity d = Some c"
  shows "conserved (d\<lparr>t_capacity := Some (reserve_set cpu memory_mb gpu c),
     t_reservations := t_reservations d @
       [\<lparr>r_job_id = jid, r_attempt_number = n, r_cpu = cpu, r_memory_mb = memory_mb, r_gpu = gpu,
         r_status = ACTIVE, r_created_at = now, r_released_at = None\<rparr>]\<rparr>)"
  using assms by (auto simp: conserved_def reservations_sum_active_def reserve_set_def is_active_def)

lemma conserved_cong:
  "t_capacity d' = t_capacity d \<Longrightarrow> t_reservations d' = t_reservations d \<Longrightarrow> conserved d' = conserved d"
  by (simp add: conserved_def reservations_sum_active_def)

end
