(* ===== verification/HistoryRepo.thy ===== *)
theory HistoryRepo
  imports ResourcesRepo
begin

text \<open>
  The history tables of a job's life: attempts (app/repository/attempts.py), the dead-letter
  queue (app/repository/dlq.py), the outbox (app/repository/outbox.py) and the scheduling
  decisions (app/repository/scheduling_decisions.py), and the relay that drains the outbox
  (outbox_relay/relay.py).
\<close>

subsection \<open>Attempts\<close>

definition attempt_key :: "attempt \<Rightarrow> uuid \<times> int" where
  "attempt_key a = (a_job_id a, a_attempt_number a)"

definition attempt_where :: "uuid \<Rightarrow> int \<Rightarrow> attempt \<Rightarrow> bool" where
  "attempt_where jid n a \<longleftrightarrow> a_job_id a = jid \<and> a_attempt_number a = n"

definition find_attempt :: "uuid \<Rightarrow> int \<Rightarrow> db \<Rightarrow> attempt option" where
  [sql_defs]: "find_attempt jid n d = sql_one (attempt_where jid n) (t_attempts d)"

definition attempts_list_for_job :: "uuid \<Rightarrow> db \<Rightarrow> attempt list" where
  "attempts_list_for_job jid d =
     sort_key a_attempt_number (sql_select (\<lambda>a. a_job_id a = jid) (t_attempts d))"

definition attempts_insert :: "time \<Rightarrow> uuid \<Rightarrow> int \<Rightarrow> string \<Rightarrow> attempt program" where
  [prog_defs]: "attempts_insert now jid n worker_id =
     (let a = \<lparr>a_job_id = jid, a_attempt_number = n, a_worker_id = worker_id, a_status = ARunning,
               a_started_at = now, a_finished_at = None, a_error_message = None,
               a_error_classification = None, a_failure_domain = None\<rparr>
      in bind (query (find_attempt jid n)) (\<lambda>existing.
         if existing \<noteq> None then raise IntegrityError
         else bind (execute (\<lambda>d. d\<lparr>t_attempts := t_attempts d @ [a]\<rparr>)) (\<lambda>_.
              bind commit (\<lambda>_. ret a))))"

definition finish_attempt_row ::
  "time \<Rightarrow> attempt_status \<Rightarrow> string option \<Rightarrow> string option \<Rightarrow> string option \<Rightarrow> attempt \<Rightarrow> attempt" where
  "finish_attempt_row now status error_message error_classification failure_domain a =
     a\<lparr>a_status := status, a_finished_at := Some now, a_error_message := error_message,
       a_error_classification := error_classification, a_failure_domain := failure_domain\<rparr>"

definition attempts_finalize ::
  "time \<Rightarrow> uuid \<Rightarrow> int \<Rightarrow> attempt_status \<Rightarrow> string option \<Rightarrow> string option \<Rightarrow> string option \<Rightarrow> bool
   \<Rightarrow> attempt option program" where
  [prog_defs]: "attempts_finalize now jid n status error_message error_classification failure_domain
       do_commit =
     bind (query (find_attempt jid n)) (\<lambda>found.
     case found of
       None \<Rightarrow> ret None
     | Some a \<Rightarrow>
         bind (execute (\<lambda>d. d\<lparr>t_attempts := sql_update (attempt_where jid n)
                 (finish_attempt_row now status error_message error_classification failure_domain)
                 (t_attempts d)\<rparr>)) (\<lambda>_.
         bind (commit_if do_commit) (\<lambda>_.
         ret (Some (finish_attempt_row now status error_message error_classification
                      failure_domain a)))))"

definition lost_set :: "time \<Rightarrow> attempt \<Rightarrow> attempt" where
  "lost_set now a =
     a\<lparr>a_status := ALost, a_finished_at := Some now,
       a_error_classification := Some ''transient'',
       a_error_message := Some ''worker_lost: lease expired''\<rparr>"

definition lost_row :: "time \<Rightarrow> uuid \<Rightarrow> int \<Rightarrow> string \<Rightarrow> attempt" where
  "lost_row now jid n worker_id =
     \<lparr>a_job_id = jid, a_attempt_number = n, a_worker_id = worker_id, a_status = ALost,
      a_started_at = now, a_finished_at = Some now,
      a_error_message = Some ''worker_lost: lease expired'',
      a_error_classification = Some ''transient'', a_failure_domain = None\<rparr>"

definition attempts_mark_lost ::
  "time \<Rightarrow> uuid \<Rightarrow> int \<Rightarrow> string \<Rightarrow> bool \<Rightarrow> unit program" where
  [prog_defs]: "attempts_mark_lost now jid n worker_id do_commit =
     bind (query (find_attempt jid n)) (\<lambda>found.
     bind (case found of
             None \<Rightarrow> execute (\<lambda>d. d\<lparr>t_attempts := t_attempts d @ [lost_row now jid n worker_id]\<rparr>)
           | Some a \<Rightarrow> execute (\<lambda>d. d\<lparr>t_attempts :=
               sql_update (attempt_where jid n) (lost_set now) (t_attempts d)\<rparr>)) (\<lambda>_.
     commit_if do_commit))"

subsection \<open>Dead-letter queue\<close>

definition dlq_insert ::
  "time \<Rightarrow> uuid \<Rightarrow> int \<Rightarrow> string option \<Rightarrow> string \<Rightarrow> int \<Rightarrow> bool \<Rightarrow> dlq_entry program" where
  [prog_defs]: "dlq_insert now jid last_attempt_number last_error_message last_error_classification
       total_attempts do_commit =
     (let e = \<lparr>d_job_id = jid, d_moved_to_dlq_at = now,
               d_last_attempt_number = last_attempt_number,
               d_last_error_message = last_error_message,
               d_last_error_classification = last_error_classification,
               d_total_attempts = total_attempts\<rparr>
      in bind (query (\<lambda>d. sql_exists (\<lambda>x. d_job_id x = jid) (t_dlq d))) (\<lambda>dup.
         if dup then raise IntegrityError
         else bind (execute (\<lambda>d. d\<lparr>t_dlq := t_dlq d @ [e]\<rparr>)) (\<lambda>_.
              bind (commit_if do_commit) (\<lambda>_. ret e))))"

definition dlq_list :: "nat \<Rightarrow> nat \<Rightarrow> db \<Rightarrow> dlq_entry list \<times> nat" where
  "dlq_list limit offset d =
     (take limit (drop offset (sort_key (\<lambda>e. - d_moved_to_dlq_at e) (t_dlq d))), length (t_dlq d))"

subsection \<open>Outbox\<close>

text \<open>\<^verbatim>\<open>str(job_id)\<close> stands in the payload; the model keeps the identifier itself.\<close>

definition outbox_insert_event :: "time \<Rightarrow> uuid \<Rightarrow> string \<Rightarrow> outbox program" where
  [prog_defs]: "outbox_insert_event now jid event_type =
     bind (query (\<lambda>d. \<lparr>o_id = fresh_id (map o_id (t_outbox d)), o_job_id = jid,
                       o_event_type = event_type,
                       o_payload = JObj [(''job_id'', JInt (int jid))],
                       o_created_at = now, o_published_at = None\<rparr>)) (\<lambda>row.
     bind (execute (\<lambda>d. d\<lparr>t_outbox := t_outbox d @ [row]\<rparr>)) (\<lambda>_.
     bind commit (\<lambda>_. ret row)))"

definition outbox_list_unpublished :: "nat \<Rightarrow> db \<Rightarrow> outbox list" where
  "outbox_list_unpublished limit d =
     take limit (sort_key o_created_at (sql_select (\<lambda>e. o_published_at e = None) (t_outbox d)))"

definition outbox_mark_published :: "time \<Rightarrow> uuid \<Rightarrow> unit program" where
  [prog_defs]: "outbox_mark_published now oid =
     bind (query (\<lambda>d. sql_one (\<lambda>e. o_id e = oid) (t_outbox d))) (\<lambda>row.
     case row of
       None \<Rightarrow> ret ()
     | Some _ \<Rightarrow>
         bind (execute (\<lambda>d. d\<lparr>t_outbox := sql_update (\<lambda>e. o_id e = oid)
                 (\<lambda>e. e\<lparr>o_published_at := Some now\<rparr>) (t_outbox d)\<rparr>)) (\<lambda>_. commit))"

subsection \<open>Scheduling decisions\<close>

definition decisions_insert :: "scheduling_decision \<Rightarrow> unit program" where
  [prog_defs]: "decisions_insert row =
     execute (\<lambda>d. d\<lparr>t_scheduling_decisions := t_scheduling_decisions d @ [row]\<rparr>)"

definition decisions_list_for_job :: "uuid \<Rightarrow> db \<Rightarrow> scheduling_decision list" where
  "decisions_list_for_job jid d =
     sort_key s_decided_at (sql_select (\<lambda>r. s_job_id r = jid) (t_scheduling_decisions d))"

subsection \<open>The outbox relay\<close>

text \<open>
  The Kafka producer is a parameter: \<open>send row\<close> is \<open>None\<close> when the broker acknowledged the
  message and the exception of \<^verbatim>\<open>get(timeout=5)\<close> otherwise.  A failing send ends the pass;
  the rows before it stay marked.
\<close>

fun relay_rows :: "time \<Rightarrow> (outbox \<Rightarrow> exn option) \<Rightarrow> outbox list \<Rightarrow> nat \<Rightarrow> nat program" where
  "relay_rows now send [] published = ret published"
| "relay_rows now send (row # rows) published =
     (case send row of
        Some e \<Rightarrow> raise e
      | None \<Rightarrow> bind (outbox_mark_published now (o_id row)) (\<lambda>_.
                relay_rows now send rows (Suc published)))"

definition relay_once :: "time \<Rightarrow> (outbox \<Rightarrow> exn option) \<Rightarrow> nat program" where
  "relay_once now send =
     bind (query (outbox_list_unpublished 100)) (\<lambda>rows. relay_rows now send rows 0)"

lemma finish_attempt_row_keys [simp]:
  "map attempt_key (sql_update p (finish_attempt_row now st em ec fd) t) = map attempt_key t"
  by (rule map_sql_update_key) (simp add: attempt_key_def finish_attempt_row_def)

lemma lost_set_keys [simp]:
  "map attempt_key (sql_update p (lost_set now) t) = map attempt_key t"
  by (rule map_sql_update_key) (simp add: attempt_key_def lost_set_def)

end
