(* ===== verification/JobService.thy ===== *)
theory JobService
  imports HistoryRepo
begin

text \<open>
  The job service (app/services/jobs.py): creation, the state machine's single owner
  \<^verbatim>\<open>transition\<close>, the update, cancel and delete requests of the API.  An
  \<^verbatim>\<open>HTTPException\<close> carries its status code.  Payloads have passed the schema
  validation of app/schemas.py, which \<open>job_create_valid\<close> states.
\<close>

record job_create =
  jc_job_type :: string
  jc_config :: "json option"
  jc_priority :: int

record job_update =
  ju_status :: "string option"
  ju_config :: "json option"

definition job_create_valid :: "job_create \<Rightarrow> bool" where
  "job_create_valid p \<longleftrightarrow> 1 \<le> length (jc_job_type p) \<and> length (jc_job_type p) \<le> 128
     \<and> 0 \<le> jc_priority p \<and> jc_priority p \<le> 100"

definition new_job :: "time \<Rightarrow> uuid \<Rightarrow> job_create \<Rightarrow> job" where
  "new_job now jid p =
     \<lparr>j_id = jid, j_job_type = jc_job_type p, j_status = PENDING, j_config = jc_config p,
      j_cancel_requested = False, j_claimed_at = None, j_attempt_number = 0,
      j_lease_owner = None, j_lease_expires_at = None, j_next_retry_at = None,
      j_priority = jc_priority p, j_deleted_at = None, j_created_at = now\<rparr>"

definition create_job :: "time \<Rightarrow> job_create \<Rightarrow> job program" where
  [prog_defs]: "create_job now payload =
     bind (query (\<lambda>d. new_job now (fresh_id (map j_id (t_jobs d))) payload)) (\<lambda>j.
     jobs_create_and_enqueue j QUEUED)"

definition get_job :: "uuid \<Rightarrow> job program" where
  [prog_defs]: "get_job jid =
     bind (jobs_get jid) (\<lambda>found.
     case found of None \<Rightarrow> raise (HTTPException 404) | Some j \<Rightarrow> ret j)"

definition list_jobs :: "int \<Rightarrow> int \<Rightarrow> (job list \<times> nat) program" where
  "list_jobs limit offset =
     (if limit < 1 \<or> 200 < limit then raise (HTTPException 422)
      else if offset < 0 then raise (HTTPException 422)
      else query (jobs_list (nat limit) (nat offset)))"

text \<open>An unknown target status has no sources, so its update matches no row.\<close>

definition transition :: "uuid \<Rightarrow> string \<Rightarrow> job program" where
  [prog_defs]: "transition jid to_status =
     bind (case status_of_string to_status of
             None \<Rightarrow> bind commit (\<lambda>_. ret None)
           | Some st \<Rightarrow> jobs_conditional_transition jid (sources_for to_status) st id True) (\<lambda>found.
     case found of
       Some j \<Rightarrow> ret j
     | None \<Rightarrow>
         bind (jobs_get jid) (\<lambda>current.
         case current of None \<Rightarrow> raise (HTTPException 404) | Some _ \<Rightarrow> raise (HTTPException 409)))"

definition update_job :: "uuid \<Rightarrow> job_update \<Rightarrow> job program" where
  [prog_defs]: "update_job jid payload =
     bind (case ju_status payload of Some st \<Rightarrow> transition jid st | None \<Rightarrow> get_job jid) (\<lambda>j.
     case ju_config payload of
       None \<Rightarrow> ret j
     | Some c \<Rightarrow> jobs_update j (\<lambda>r. r\<lparr>j_config := Some c\<rparr>))"

text \<open>The cancellation after its read of the job: \<open>current\<close> may be out of date by now.\<close>

definition cancel_from :: "time \<Rightarrow> uuid \<Rightarrow> job \<Rightarrow> job program" where
  [prog_defs]: "cancel_from now jid current =
     (if j_status current = PENDING \<or> j_status current = QUEUED then
        bind (jobs_conditional_transition jid (sources_for (status_value CANCELLED)) CANCELLED id False)
          (\<lambda>found.
        case found of
          None \<Rightarrow> bind rollback (\<lambda>_. raise (HTTPException 409))
        | Some j \<Rightarrow>
            bind (release_reservation now jid (j_attempt_number current + 1)) (\<lambda>_.
            bind commit (\<lambda>_. ret j)))
      else if j_status current = RUNNING then
        bind (jobs_set_cancel_requested jid) (\<lambda>found.
        case found of None \<Rightarrow> get_job jid | Some j \<Rightarrow> ret j)
      else raise (HTTPException 409))"

definition cancel_job :: "time \<Rightarrow> uuid \<Rightarrow> job program" where
  [prog_defs]: "cancel_job now jid = bind (get_job jid) (cancel_from now jid)"

definition delete_job :: "time \<Rightarrow> uuid \<Rightarrow> unit program" where
  [prog_defs]: "delete_job now jid =
     bind (get_job jid) (\<lambda>j. bind (jobs_soft_delete now j) (\<lambda>_. ret ()))"

end
