(* ===== verification/Scheduler.thy ===== *)
theory Scheduler
  imports HistoryRepo "HOL-Library.Product_Lexorder"
begin

text \<open>
  The scheduler (app/services/scheduler.py): resource requests, effective priority with
  bounded aging, ranking, the admission transaction and one pass over the candidates.
  One clock reading serves a whole pass.  \<^verbatim>\<open>_Reject\<close> is the exception \<open>Reject\<close>, caught by
  \<open>try_admit\<close>; every other exception leaves the pass, as in the source.
\<close>

subsection \<open>A total order on floats, for the sort key\<close>

text \<open>It agrees with Python's \<^verbatim>\<open>\<le>\<close> away from NaN, which sorts last.\<close>

instantiation pyfloat :: linorder
begin

definition less_eq_pyfloat :: "pyfloat \<Rightarrow> pyfloat \<Rightarrow> bool" where
  "less_eq_pyfloat a b \<longleftrightarrow> f_le a b \<or> b = NaN"

definition less_pyfloat :: "pyfloat \<Rightarrow> pyfloat \<Rightarrow> bool" where
  "less_pyfloat a b \<longleftrightarrow> f_lt a b \<or> (b = NaN \<and> a \<noteq> NaN)"

instance
proof
  fix x y z :: pyfloat
  show "x < y \<longleftrightarrow> x \<le> y \<and> \<not> y \<le> x"
    by (cases x; cases y) (auto simp: less_eq_pyfloat_def less_pyfloat_def)
  show "x \<le> x" by (cases x) (auto simp: less_eq_pyfloat_def)
  show "x \<le> y \<Longrightarrow> y \<le> z \<Longrightarrow> x \<le> z"
    by (cases x; cases y; cases z) (auto simp: less_eq_pyfloat_def)
  show "x \<le> y \<Longrightarrow> y \<le> x \<Longrightarrow> x = y"
    by (cases x; cases y) (auto simp: less_eq_pyfloat_def)
  show "x \<le> y \<or> y \<le> x" by (cases x; cases y) (auto simp: less_eq_pyfloat_def)
qed

end

subsection \<open>Resource requests and priorities\<close>

text \<open>
  A request is read from the job's JSON configuration.  The columns it meets are integer
  columns: a null makes the capacity comparison unknown and the diagnosis fail on
  \<^verbatim>\<open>int + None\<close>; any other non-integer is refused by the driver or the database.
\<close>

fun json_get :: "json \<Rightarrow> string \<Rightarrow> json \<Rightarrow> exn + json" where
  "json_get (JObj kvs) k dflt = (case map_of kvs k of None \<Rightarrow> Inr dflt | Some v \<Rightarrow> Inr v)"
| "json_get _ k dflt = Inl PyAttributeError"

fun as_int :: "json \<Rightarrow> exn + int" where
  "as_int (JInt n) = Inr n"
| "as_int JNull = Inl PyTypeError"
| "as_int _ = Inl DBError"

definition sum_bind :: "exn + 'a \<Rightarrow> ('a \<Rightarrow> exn + 'b) \<Rightarrow> exn + 'b" where
  "sum_bind x f = (case x of Inl e \<Rightarrow> Inl e | Inr a \<Rightarrow> f a)"

definition resource_request :: "settings \<Rightarrow> job \<Rightarrow> exn + int \<times> int \<times> int" where
  "resource_request cfg j =
     sum_bind (case j_config j of
                 None \<Rightarrow> Inr (JObj [])
               | Some c \<Rightarrow> if falsy c then Inr (JObj []) else json_get c ''resources'' (JObj []))
       (\<lambda>resources.
     sum_bind (json_get resources ''cpu'' (JInt (default_cpu cfg))) (\<lambda>cpu.
     sum_bind (json_get resources ''memory_mb'' (JInt (default_memory_mb cfg))) (\<lambda>memory_mb.
     sum_bind (json_get resources ''gpu'' (JInt (default_gpu cfg))) (\<lambda>gpu.
     sum_bind (as_int cpu) (\<lambda>cpu_n.
     sum_bind (as_int memory_mb) (\<lambda>memory_n.
     sum_bind (as_int gpu) (\<lambda>gpu_n. Inr (cpu_n, memory_n, gpu_n))))))))"

definition total_seconds :: "int \<Rightarrow> pyfloat" where
  "total_seconds us = fl (of_int us / 1000000)"

definition effective_priority :: "settings \<Rightarrow> job \<Rightarrow> time \<Rightarrow> pyfloat" where
  "effective_priority cfg j now =
     (let queue_wait_seconds = total_seconds (now - j_created_at j);
          raw = f_add (Fin (of_int (j_priority j))) (f_mul (aging_rate cfg) queue_wait_seconds)
      in f_min raw (Fin (of_int (priority_ceiling cfg))))"

definition rank_key :: "pyfloat \<times> job \<Rightarrow> pyfloat \<times> time" where
  "rank_key p = (f_neg (fst p), j_created_at (snd p))"

definition rank_candidates :: "settings \<Rightarrow> time \<Rightarrow> db \<Rightarrow> (pyfloat \<times> job) list" where
  "rank_candidates cfg now d =
     sort_key rank_key (map (\<lambda>j. (effective_priority cfg j now, j)) (jobs_list_schedulable now d))"

subsection \<open>Admission\<close>

definition decision_row ::
  "settings \<Rightarrow> time \<Rightarrow> job \<Rightarrow> string \<Rightarrow> string \<Rightarrow> int \<Rightarrow> int \<Rightarrow> int \<Rightarrow> capacity \<Rightarrow> scheduling_decision" where
  "decision_row cfg now j decision reason cpu memory_mb gpu cap =
     \<lparr>s_job_id = j_id j, s_decided_at = now, s_decision = decision, s_reason = reason,
      s_requested_cpu = cpu, s_requested_memory_mb = memory_mb, s_requested_gpu = gpu,
      s_available_cpu_snapshot = total_cpu cap - allocated_cpu cap,
      s_available_memory_mb_snapshot = total_memory_mb cap - allocated_memory_mb cap,
      s_available_gpu_snapshot = total_gpu cap - allocated_gpu cap,
      s_effective_priority = effective_priority cfg j now\<rparr>"

definition check_eligible :: "time \<Rightarrow> job \<Rightarrow> unit program" where
  [prog_defs]: "check_eligible now j =
     bind (jobs_get (j_id j)) (\<lambda>found.
     case found of
       None \<Rightarrow> raise (Reject ''job_no_longer_eligible'' None)
     | Some fresh \<Rightarrow>
         if j_status fresh \<noteq> QUEUED \<or> j_cancel_requested fresh
         then raise (Reject ''job_no_longer_eligible'' None)
         else if \<not> not_after (j_next_retry_at fresh) now
         then raise (Reject ''job_no_longer_eligible'' None)
         else bind (reservations_has_active (j_id j) (j_attempt_number j + 1)) (\<lambda>reserved.
              if reserved then raise (Reject ''already_reserved'' None) else ret ()))"

definition reserve_or_reject :: "int \<Rightarrow> int \<Rightarrow> int \<Rightarrow> unit program" where
  [prog_defs]: "reserve_or_reject cpu memory_mb gpu =
     bind (capacity_try_reserve cpu memory_mb gpu) (\<lambda>reserved.
     if reserved then ret ()
     else bind capacity_get (\<lambda>cap.
          case cap of
            None \<Rightarrow> raise PyAttributeError
          | Some c \<Rightarrow> raise (Reject (which_dimension_insufficient c cpu memory_mb gpu) (Some c))))"

definition admit_body :: "settings \<Rightarrow> time \<Rightarrow> job \<Rightarrow> int \<Rightarrow> int \<Rightarrow> int \<Rightarrow> bool program" where
  [prog_defs]: "admit_body cfg now j cpu memory_mb gpu =
     bind (check_eligible now j) (\<lambda>_.
     bind (reserve_or_reject cpu memory_mb gpu) (\<lambda>_.
     bind (reservations_insert now (j_id j) (j_attempt_number j + 1) cpu memory_mb gpu) (\<lambda>_.
     bind (outbox_insert_event now (j_id j) ''job.queued'') (\<lambda>_.
     bind capacity_get (\<lambda>cap_after.
     case cap_after of
       None \<Rightarrow> raise PyAttributeError
     | Some c \<Rightarrow>
         bind (decisions_insert (decision_row cfg now j ''ADMITTED'' ''resources_available''
                 cpu memory_mb gpu c)) (\<lambda>_.
         bind commit (\<lambda>_. ret True)))))))"

definition record_waiting ::
  "settings \<Rightarrow> time \<Rightarrow> job \<Rightarrow> int \<Rightarrow> int \<Rightarrow> int \<Rightarrow> string \<Rightarrow> capacity option \<Rightarrow> bool program" where
  [prog_defs]: "record_waiting cfg now j cpu memory_mb gpu reason snapshot =
     bind rollback (\<lambda>_.
     bind (case snapshot of Some c \<Rightarrow> ret (Some c) | None \<Rightarrow> capacity_get) (\<lambda>cap.
     case cap of
       None \<Rightarrow> raise PyAttributeError
     | Some c \<Rightarrow>
         bind (decisions_insert (decision_row cfg now j ''WAITING'' reason cpu memory_mb gpu c)) (\<lambda>_.
         bind commit (\<lambda>_. ret False))))"

definition try_admit :: "settings \<Rightarrow> time \<Rightarrow> job \<Rightarrow> bool program" where
  "try_admit cfg now j =
     (case resource_request cfg j of
        Inl e \<Rightarrow> raise e
      | Inr (cpu, memory_mb, gpu) \<Rightarrow>
          try_except (admit_body cfg now j cpu memory_mb gpu) (\<lambda>e.
            case e of
              Reject reason snapshot \<Rightarrow> record_waiting cfg now j cpu memory_mb gpu reason snapshot
            | _ \<Rightarrow> raise e))"

subsection \<open>One pass\<close>

fun admit_loop :: "settings \<Rightarrow> time \<Rightarrow> job list \<Rightarrow> nat \<Rightarrow> nat \<Rightarrow> (nat \<times> nat) program" where
  "admit_loop cfg now [] admitted waiting = ret (admitted, waiting)"
| "admit_loop cfg now (j # js) admitted waiting =
     (if max_admissions_per_pass cfg \<le> admitted
      then admit_loop cfg now js admitted (Suc waiting)
      else bind (try_admit cfg now j) (\<lambda>ok.
           if ok then admit_loop cfg now js (Suc admitted) waiting
           else admit_loop cfg now js admitted (Suc waiting)))"

definition scheduler_run_once :: "settings \<Rightarrow> time \<Rightarrow> (nat \<times> nat) program" where
  "scheduler_run_once cfg now =
     bind (query (rank_candidates cfg now)) (\<lambda>ranked.
     admit_loop cfg now (map snd ranked) 0 0)"

end
