(* ===== verification/RetryPolicy.thy ===== *)
theory RetryPolicy
  imports Schema
begin

text \<open>
  The retry policy (app/retry_policy.py): which failures are retried, and the exponential
  backoff with its cap and jitter.  \<^verbatim>\<open>random.uniform(0, b)\<close> is \<open>0 + b * u\<close> for a draw
  \<open>u\<close> in \<open>[0, 1)\<close>, which is an argument here.
\<close>

definition TRANSIENT :: string where "TRANSIENT = ''transient''"
definition PERMANENT :: string where "PERMANENT = ''permanent''"
definition UNKNOWN :: string where "UNKNOWN = ''unknown''"

definition RETRYABLE_CLASSIFICATIONS :: "string list" where
  "RETRYABLE_CLASSIFICATIONS = [TRANSIENT, UNKNOWN]"

definition is_retryable :: "string \<Rightarrow> int \<Rightarrow> int \<Rightarrow> bool" where
  "is_retryable classification attempt_number max_att \<longleftrightarrow>
     classification \<in> set RETRYABLE_CLASSIFICATIONS \<and> attempt_number < max_att"

text \<open>\<^verbatim>\<open>base * 2 ** (n - 1)\<close> converts an integer power to a float, which raises when it is
  too large for one; a negative exponent gives a float at once.\<close>

definition capped_delay :: "int \<Rightarrow> pyfloat \<Rightarrow> pyfloat \<Rightarrow> pyfloat option" where
  "capped_delay attempt_number base_delay max_delay =
     (if 1024 \<le> attempt_number - 1 then None
      else Some (f_min (f_mul base_delay (fl (pow2 (attempt_number - 1)))) max_delay))"

definition retry_delay :: "pyfloat \<Rightarrow> pyfloat \<Rightarrow> rat \<Rightarrow> pyfloat" where
  "retry_delay capped jitter u =
     (let jit = f_add (Fin 0) (f_mul (f_mul capped jitter) (Fin u))
      in f_add capped jit)"

text \<open>\<^verbatim>\<open>timedelta(seconds=x)\<close> in microseconds: the whole part exactly, the fraction
  times a million in floating point, rounded to even.  Infinities and NaN raise.\<close>

fun timedelta_us :: "pyfloat \<Rightarrow> int option" where
  "timedelta_us (Fin x) =
     (let whole = (if 0 \<le> x then \<lfloor>x\<rfloor> else \<lceil>x\<rceil>);
          frac = x - of_int whole
      in case fl (frac * 1000000) of
           Fin us \<Rightarrow> Some (whole * 1000000 + round_half_even us) | _ \<Rightarrow> None)"
| "timedelta_us _ = None"

definition compute_next_retry_at ::
  "time \<Rightarrow> rat \<Rightarrow> int \<Rightarrow> pyfloat \<Rightarrow> pyfloat \<Rightarrow> pyfloat \<Rightarrow> time option" where
  "compute_next_retry_at now u attempt_number base_delay max_delay jitter =
     (case capped_delay attempt_number base_delay max_delay of
        None \<Rightarrow> None
      | Some capped \<Rightarrow> map_option (\<lambda>us. now + us) (timedelta_us (retry_delay capped jitter u)))"

subsection \<open>How long the default policy waits\<close>

text \<open>The conversion to microseconds is off by at most half of one, and a little.\<close>

lemma timedelta_us_near:
  assumes "0 \<le> x"
  shows "\<exists>us. timedelta_us (Fin x) = Some us \<and> \<bar>of_int us - x * 1000000\<bar> \<le> 1 / 2 + 1 / 1000000000"
proof -
  define frac where "frac = x - of_int \<lfloor>x\<rfloor>"
  have "0 \<le> frac" "frac < 1" unfolding frac_def by linarith+
  then obtain y where y: "fl (frac * 1000000) = Fin y" "\<bar>y - frac * 1000000\<bar> \<le> 1 / 1000000000"
    using fl_near [of "frac * 1000000"] by auto
  have "x * 1000000 = of_int (\<lfloor>x\<rfloor> * 1000000) + frac * 1000000"
    by (simp add: frac_def algebra_simps)
  with y(2) round_half_even_error [of y]
  have "\<bar>of_int (\<lfloor>x\<rfloor> * 1000000 + round_half_even y) - x * 1000000\<bar> \<le> 1 / 2 + 1 / 1000000000"
    unfolding of_int_add by linarith
  with y(1) assms show ?thesis by (simp add: frac_def Let_def)
qed

lemma timedelta_us_between:
  assumes "of_int a \<le> x + 1 / 10000000" and "x \<le> of_int b / 1000000 + 1 / 10000000" and "0 \<le> x"
  shows "\<exists>us. timedelta_us (Fin x) = Some us \<and> a * 1000000 \<le> us \<and> us \<le> b"
proof -
  obtain us where us: "timedelta_us (Fin x) = Some us"
      "\<bar>of_int us - x * 1000000\<bar> \<le> 1 / 2 + 1 / 1000000000"
    using timedelta_us_near [OF assms(3)] by blast
  have "of_int us \<le> x * 1000000 + 1 / 2 + 1 / 1000000000" using us(2) by linarith
  also have "\<dots> \<le> of_int b + 3 / 4" using assms(2) by simp
  finally have "(of_int us :: rat) < of_int (b + 1)" unfolding of_int_add by linarith
  then have "us \<le> b" unfolding of_int_less_iff by simp
  have "of_int (a * 1000000) \<le> (x + 1 / 10000000) * 1000000" using assms(1) by simp
  also have "(x + 1 / 10000000) * 1000000 = x * 1000000 + 1 / 10" by (simp add: algebra_simps)
  also have "\<dots> < of_int us + 1" using us(2) by linarith
  finally have "(of_int (a * 1000000) :: rat) < of_int (us + 1)" by simp
  then have "a * 1000000 \<le> us" unfolding of_int_less_iff by simp
  with \<open>us \<le> b\<close> us(1) show ?thesis by blast
qed

lemma capped_delay_default:
  assumes "1 \<le> n" and "n \<le> 1024"
  shows "capped_delay n (Fin 2) (Fin 60) = Some (Fin (of_int (min (2 ^ nat n) 60)))"
proof -
  have p: "2 * pow2 (n - 1) = pow2 n" using pow2_add [of "n - 1" 1] by (simp add: pow2_def [of 1])
  have np: "pow2 n = of_int (2 ^ nat n)" using assms(1) by (simp add: pow2_nat)
  have small: "n \<in> {1, 2, 3, 4, 5}" if "n < 6" using assms(1) that by auto
  have exact: "fl (pow2 (n - 1)) = Fin (pow2 (n - 1))"
  proof -
    have "pow2 (n - 1) < pow2 n" using p pow2_pos [of "n - 1"] by linarith
    then have "ilog2 (pow2 (n - 1)) = n - 1" by (intro ilog2_eqI) simp_all
    then have q: "quantum (of_int 1 * pow2 (n - 1)) \<le> n - 1"
      using assms(1) by (simp add: quantum_def abs_of_pos)
    have "fl_exact (pow2 (n - 1)) = pow2 (n - 1)"
      using fl_exact_representable [OF q] by simp
    moreover have "pow2 (n - 1) < pow2 1024"
      using assms(2) pow2_add [of "n - 1" 1] pow2_mono [of n 1024] pow2_pos [of "n - 1"] p by linarith
    ultimately show ?thesis using pow2_pos [of "n - 1"] pow2_pos [of 1024]
      by (simp add: fl_def Let_def del: pow2_pos)
  qed
  show ?thesis
  proof (cases "n < 6")
    case True
    then have "fl (pow2 n) = Fin (pow2 n)"
      using small [OF True] unfolding np by (subst fl_of_int) auto
    with True exact p small [OF True] show ?thesis
      by (auto simp: capped_delay_def f_min_def np)
  next
    case False
    then have "pow2 6 \<le> pow2 n" by (intro pow2_mono) simp
    then have "f_le (fl (of_int 64)) (fl (pow2 n))" by (intro f_le_Fin_fl) (simp add: pow2_def [of 6])
    then have "f_le (Fin 64) (fl (pow2 n))" by (subst (asm) fl_of_int) simp_all
    then have m: "f_min (fl (pow2 n)) (Fin 60) = Fin 60"
      by (cases "fl (pow2 n)") (auto simp: f_min_def)
    have "(2::int) ^ 6 \<le> 2 ^ nat n" using False by (intro power_increasing) auto
    then have "min (2 ^ nat n) 60 = (60::int)" by simp
    with exact p m assms(2) show ?thesis by (simp add: capped_delay_def)
  qed
qed

text \<open>The backoff of the default policy: after attempt \<open>n\<close> a job waits at least
  \<open>min (2 ^ n) 60\<close> seconds and at most a fifth more, computed in binary64 arithmetic and
  rounded to microseconds; the computation does not fail.\<close>

theorem retry_backoff_bounds:
  assumes "1 \<le> n" and "n \<le> 1024" and "0 \<le> u" and "u < 1"
  shows "\<exists>t. compute_next_retry_at now u n (base_delay_seconds default_settings)
           (max_delay_seconds default_settings) (jitter_ratio default_settings) = Some t
     \<and> now + min (2 ^ nat n) 60 * 1000000 \<le> t \<and> t \<le> now + min (2 ^ nat n) 60 * 1200000"
proof -
  define D :: int where "D = min (2 ^ nat n) 60"
  have "(2::int) ^ 1 \<le> 2 ^ nat n" using assms(1) by (intro power_increasing) auto
  then have D: "2 \<le> D" "D \<le> 60" by (auto simp: D_def)
  define E :: rat where "E = of_int D"
  have E: "2 \<le> E" "E \<le> 60" using D by (simp_all add: E_def)
  obtain x where x: "fl (1 / 5) = Fin x" "\<bar>x - 1 / 5\<bar> \<le> 1 / 1000000000" using fl_near [of "1 / 5"] by auto
  have "\<bar>E * x - E * (1 / 5)\<bar> = \<bar>E * (x - 1 / 5)\<bar>"
    by (simp only: right_diff_distrib)
  also have "\<dots> = E * \<bar>x - 1 / 5\<bar>" using E(1) unfolding abs_mult by simp
  also have "\<dots> \<le> 60 * (1 / 1000000000)" using E x(2) by (intro mult_mono) auto
  finally have ex: "\<bar>E * x - E * (1 / 5)\<bar> \<le> 60 / 1000000000" by simp
  with E have "\<bar>E * x\<bar> \<le> 1100000" by linarith
  then obtain p where p: "fl (E * x) = Fin p" "\<bar>p - E * x\<bar> \<le> 1 / 1000000000" using fl_near by blast
  with ex E have p0: "0 \<le> p" "p \<le> 13" by linarith+
  have pu: "0 \<le> p * u" "p * u \<le> p" using p0 assms(3,4) by (simp_all add: mult_left_le)
  then obtain v where v: "fl (p * u) = Fin v" "\<bar>v - p * u\<bar> \<le> 1 / 1000000000"
    using fl_near [of "p * u"] p0 by auto
  then have "\<bar>v\<bar> \<le> 1100000" using p0 pu by linarith
  then obtain w where w: "fl (0 + v) = Fin w" "\<bar>w - v\<bar> \<le> 1 / 1000000000"
    using fl_near [of v] by auto
  have "\<bar>E + w\<bar> \<le> 1100000" using E v w p0 pu by linarith
  then obtain d where d: "fl (E + w) = Fin d" "\<bar>d - (E + w)\<bar> \<le> 1 / 1000000000" using fl_near by blast
  have E65: "of_int (D * 1200000) / 1000000 = E * (6 / 5)" by (simp add: E_def)
  have "of_int D \<le> d + 1 / 10000000"
    unfolding E_def [symmetric] using d(2) w(2) v(2) pu by linarith
  moreover have "d \<le> of_int (D * 1200000) / 1000000 + 1 / 10000000"
    using d(2) w(2) v(2) pu p(2) ex unfolding E65 by linarith
  moreover have "0 \<le> d" using d w v pu E by linarith
  ultimately obtain us where us: "timedelta_us (Fin d) = Some us" "D * 1000000 \<le> us" "us \<le> D * 1200000"
    using timedelta_us_between by blast
  have "retry_delay (Fin E) (Fin x) u = Fin d"
    using p v w d by (simp add: retry_delay_def)
  with us capped_delay_default [OF assms(1,2)] x(1) show ?thesis
    by (simp add: compute_next_retry_at_def default_settings_def E_def D_def)
qed

theorem retry_backoff_bounds_witness:
  "\<exists>t. compute_next_retry_at 5 (1 / 2) 3 (base_delay_seconds default_settings)
         (max_delay_seconds default_settings) (jitter_ratio default_settings) = Some t
     \<and> 8000005 \<le> t \<and> t \<le> 9600005"
  using retry_backoff_bounds [of 3 "1 / 2" 5] by simp

end
