(* ===== verification/Worker.thy ===== *)
theory Worker
  imports HistoryRepo RetryPolicy
begin

text \<open>
  The worker (app/services/worker.py): claim, execute, and the fenced final transaction.
  The execution phase is long: \<open>others\<close> is what the other processes commit during it
  (heartbeats, recovery, cancellations, the scheduler), and \<open>abandoned\<close> is the flag the
  heartbeat thread sets when a renewal is rejected.  Both are arbitrary here, so that what
  is proved of \<open>process_job_message\<close> holds under every interference.  The training and the
  evaluation executors are arguments; the simulated executor is \<open>run_executor\<close>.
\<close>

record outcome =
  out_status :: job_status
  out_error_message :: "string option"
  out_error_classification :: "string option"
  out_failure_domain :: "string option"

definition succeeded :: outcome where
  "succeeded = \<lparr>out_status = SUCCEEDED, out_error_message = None,
     out_error_classification = None, out_failure_domain = None\<rparr>"

definition failed_outcome :: "string \<Rightarrow> string \<Rightarrow> string option \<Rightarrow> outcome" where
  "failed_outcome message classification domain =
     \<lparr>out_status = FAILED, out_error_message = Some message,
      out_error_classification = Some classification, out_failure_domain = domain\<rparr>"

subsection \<open>The simulated executor\<close>

definition SIMULATED_FAILURE_JOB_TYPE :: string where
  "SIMULATED_FAILURE_JOB_TYPE = ''simulate_failure''"
definition SIMULATE_TRANSIENT_FAILURE_JOB_TYPE :: string where
  "SIMULATE_TRANSIENT_FAILURE_JOB_TYPE = ''simulate_transient_failure''"
definition SIMULATE_PERMANENT_FAILURE_JOB_TYPE :: string where
  "SIMULATE_PERMANENT_FAILURE_JOB_TYPE = ''simulate_permanent_failure''"

text \<open>\<^verbatim>\<open>time.sleep\<close> of a configured value that is true: only whether it raises is observable.  The
  duration in nanoseconds has to fit in 64 bits.\<close>

fun sleep_check :: "json \<Rightarrow> exn option" where
  "sleep_check (JInt n) = (if n < 0 then Some PyValueError else if 2 ^ 63 \<le> n * 10 ^ 9 then Some PyOverflowError else None)"
| "sleep_check (JBool b) = None"
| "sleep_check (JFloat (Fin x)) =
     (if x < 0 then Some PyValueError else if 2 ^ 63 \<le> x * 10 ^ 9 then Some PyOverflowError else None)"
| "sleep_check (JFloat NaN) = Some PyValueError"
| "sleep_check (JFloat _) = Some PyOverflowError"
| "sleep_check _ = Some PyTypeError"

fun config_sleep :: "json option \<Rightarrow> exn option" where
  "config_sleep None = None"
| "config_sleep (Some c) =
     (if falsy c then None
      else case c of
        JObj kvs \<Rightarrow> (case map_of kvs ''sleep_seconds'' of
            None \<Rightarrow> None | Some v \<Rightarrow> if falsy v then None else sleep_check v)
      | _ \<Rightarrow> Some PyAttributeError)"

definition run_executor :: "job \<Rightarrow> outcome program" where
  "run_executor j =
     (case config_sleep (j_config j) of
        Some e \<Rightarrow> raise e
      | None \<Rightarrow>
          if j_job_type j \<in> {SIMULATED_FAILURE_JOB_TYPE, SIMULATE_TRANSIENT_FAILURE_JOB_TYPE}
          then ret (failed_outcome ''simulated transient failure'' ''transient'' None)
          else if j_job_type j = SIMULATE_PERMANENT_FAILURE_JOB_TYPE
          then ret (failed_outcome ''simulated permanent failure'' PERMANENT None)
          else ret succeeded)"

subsection \<open>The final transaction\<close>

text \<open>What every ending shares: the fenced job write, the attempt row, and only then the
  ending's own writes and the commit; a rejected job write rolls everything back.\<close>

definition finish_with ::
  "time \<Rightarrow> uuid \<Rightarrow> string \<Rightarrow> int \<Rightarrow> job_status \<Rightarrow> (job \<Rightarrow> job) \<Rightarrow> attempt_status
   \<Rightarrow> string option \<Rightarrow> string option \<Rightarrow> string option \<Rightarrow> unit program \<Rightarrow> string program" where
  [prog_defs]: "finish_with now jid worker_id n to_status extra_values att_status
       error_message classification failure_domain before_release =
     bind (jobs_finalize_attempt jid worker_id n to_status extra_values False) (\<lambda>finalized.
     bind (attempts_finalize now jid n att_status error_message classification failure_domain False)
       (\<lambda>_.
     if finalized \<noteq> None
     then bind before_release (\<lambda>_.
          bind (release_reservation now jid n) (\<lambda>_.
          bind commit (\<lambda>_. ret ''claimed'')))
     else bind rollback (\<lambda>_. ret ''fenced_out'')))"

text \<open>The branches after the re-read, whose answer may be out of date by now.\<close>

definition finish_decided ::
  "settings \<Rightarrow> time \<Rightarrow> rat \<Rightarrow> uuid \<Rightarrow> string \<Rightarrow> int \<Rightarrow> outcome \<Rightarrow> bool \<Rightarrow> string program" where
  "finish_decided cfg now u jid worker_id n out cancelled =
    (if cancelled
     then finish_with now jid worker_id n CANCELLED id ACancelled None None None (ret ())
     else if out_status out = SUCCEEDED
     then finish_with now jid worker_id n SUCCEEDED id ASucceeded None None None (ret ())
     else
       (let classification = (case out_error_classification out of
                                None \<Rightarrow> UNKNOWN | Some c \<Rightarrow> if c = [] then UNKNOWN else c)
        in if is_retryable classification n (max_attempts cfg)
           then (case compute_next_retry_at now u n (base_delay_seconds cfg)
                        (max_delay_seconds cfg) (jitter_ratio cfg) of
                   None \<Rightarrow> raise PyOverflowError
                 | Some t \<Rightarrow>
                     finish_with now jid worker_id n QUEUED (\<lambda>j. j\<lparr>j_next_retry_at := Some t\<rparr>)
                       AFailed (out_error_message out) (Some classification)
                       (out_failure_domain out) (ret ()))
           else finish_with now jid worker_id n FAILED id
                  AFailed (out_error_message out) (Some classification) (out_failure_domain out)
                  (bind (dlq_insert now jid n (out_error_message out) classification n False)
                     (\<lambda>_. ret ()))))"

definition cancel_seen :: "job option \<Rightarrow> bool" where
  "cancel_seen current = (case current of None \<Rightarrow> False | Some j \<Rightarrow> j_cancel_requested j)"

definition finish_attempt ::
  "settings \<Rightarrow> time \<Rightarrow> rat \<Rightarrow> uuid \<Rightarrow> string \<Rightarrow> int \<Rightarrow> outcome \<Rightarrow> string program" where
  "finish_attempt cfg now u jid worker_id n out =
     bind (jobs_get jid) (\<lambda>current.
     finish_decided cfg now u jid worker_id n out (cancel_seen current))"

subsection \<open>One message\<close>

text \<open>What other sessions make durable while this one holds no open transaction.\<close>

definition interfere :: "(db \<Rightarrow> db) \<Rightarrow> unit program" where
  [prog_defs]: "interfere others s =
     (Inr (), s\<lparr>work := others (work s), durable := others (hd (durable s)) # durable s\<rparr>)"

text \<open>\<^verbatim>\<open>one_or_none()\<close> on a column without a unique index raises on a second row.\<close>

definition sql_one_checked :: "('r \<Rightarrow> bool) \<Rightarrow> 'r list \<Rightarrow> exn + 'r option" where
  "sql_one_checked p t = (case sql_select p t of
     [] \<Rightarrow> Inr None | [r] \<Rightarrow> Inr (Some r) | _ \<Rightarrow> Inl MultipleResultsFound)"

definition query_checked :: "(db \<Rightarrow> exn + 'a) \<Rightarrow> 'a program" where
  [prog_defs]: "query_checked f s = (f (work s), s)"

definition training_runs_get_by_job_id :: "uuid \<Rightarrow> training_run option program" where
  [prog_defs]: "training_runs_get_by_job_id jid =
     query_checked (\<lambda>d. sql_one_checked (\<lambda>t. tr_job_id t = jid) (t_training_runs d))"

definition evaluation_runs_get_by_job_id :: "uuid \<Rightarrow> evaluation_run option program" where
  [prog_defs]: "evaluation_runs_get_by_job_id jid =
     query_checked (\<lambda>d. sql_one_checked (\<lambda>e. er_job_id e = jid) (t_evaluation_runs d))"

definition execute_attempt ::
  "(job \<Rightarrow> training_run \<Rightarrow> outcome program) \<Rightarrow> (job \<Rightarrow> evaluation_run \<Rightarrow> outcome program)
   \<Rightarrow> job \<Rightarrow> outcome program" where
  "execute_attempt train_exec eval_exec j =
     bind (training_runs_get_by_job_id (j_id j)) (\<lambda>training_run.
     case training_run of
       Some tr \<Rightarrow> train_exec j tr
     | None \<Rightarrow>
         bind (evaluation_runs_get_by_job_id (j_id j)) (\<lambda>evaluation_run.
         case evaluation_run of
           Some er \<Rightarrow> eval_exec j er
         | None \<Rightarrow> run_executor j))"

definition start_attempt :: "settings \<Rightarrow> time \<Rightarrow> uuid \<Rightarrow> string \<Rightarrow> job option program" where
  "start_attempt cfg now jid worker_id =
     bind (jobs_claim now jid worker_id (lease_duration_seconds cfg)) (\<lambda>claimed.
     case claimed of
       None \<Rightarrow> ret None
     | Some j \<Rightarrow>
         bind (attempts_insert now jid (j_attempt_number j) worker_id) (\<lambda>_. ret (Some j)))"

definition process_job_message ::
  "settings \<Rightarrow> (job \<Rightarrow> training_run \<Rightarrow> outcome program) \<Rightarrow> (job \<Rightarrow> evaluation_run \<Rightarrow> outcome program)
   \<Rightarrow> (db \<Rightarrow> db) \<Rightarrow> bool \<Rightarrow> time \<Rightarrow> time \<Rightarrow> rat \<Rightarrow> uuid \<Rightarrow> string \<Rightarrow> string program" where
  "process_job_message cfg train_exec eval_exec others abandoned now_claim now u jid worker_id =
     bind (start_attempt cfg now_claim jid worker_id) (\<lambda>claimed.
     case claimed of
       None \<Rightarrow> ret ''not_claimed''
     | Some j \<Rightarrow>
         bind (execute_attempt train_exec eval_exec j) (\<lambda>out.
         bind (interfere others) (\<lambda>_.
         if abandoned then ret ''fenced_out''
         else finish_attempt cfg now u jid worker_id (j_attempt_number j) out)))"

end
