(* ===== verification/Recovery.thy ===== *)
theory Recovery
  imports HistoryRepo RetryPolicy
begin

text \<open>
  Recovery (app/services/recovery.py): reclaiming stale leases and dispatching due retries.
  The jitter draw is an argument; one clock reading serves a pass.
\<close>

definition reclaim_one :: "settings \<Rightarrow> time \<Rightarrow> rat \<Rightarrow> job \<Rightarrow> bool program" where
  "reclaim_one cfg now u j =
     (case compute_next_retry_at now u (j_attempt_number j + 1) (base_delay_seconds cfg)
             (max_delay_seconds cfg) (jitter_ratio cfg) of
        None \<Rightarrow> raise PyOverflowError
      | Some next_retry_at \<Rightarrow>
          bind (jobs_reclaim_stale now (j_id j) (max_attempts cfg) next_retry_at False) (\<lambda>reclaimed.
          case reclaimed of
            None \<Rightarrow> bind rollback (\<lambda>_. ret False)
          | Some (lost_attempt_number, new_status) \<Rightarrow>
              bind (attempts_mark_lost now (j_id j) lost_attempt_number
                      (case j_lease_owner j of None \<Rightarrow> ''unknown''
                         | Some w \<Rightarrow> if w = [] then ''unknown'' else w) False) (\<lambda>_.
              bind (release_reservation now (j_id j) lost_attempt_number) (\<lambda>_.
              bind commit (\<lambda>_. ret True)))))"

fun reclaim_loop :: "settings \<Rightarrow> time \<Rightarrow> rat \<Rightarrow> job list \<Rightarrow> nat \<Rightarrow> nat program" where
  "reclaim_loop cfg now u [] reclaimed = ret reclaimed"
| "reclaim_loop cfg now u (j # js) reclaimed =
     bind (reclaim_one cfg now u j) (\<lambda>ok.
     reclaim_loop cfg now u js (if ok then Suc reclaimed else reclaimed))"

definition reclaim_stale_leases :: "settings \<Rightarrow> time \<Rightarrow> rat \<Rightarrow> nat program" where
  "reclaim_stale_leases cfg now u =
     bind (query (jobs_list_stale_leases now)) (\<lambda>stale. reclaim_loop cfg now u stale 0)"

definition dispatch_one :: "time \<Rightarrow> job \<Rightarrow> unit program" where
  "dispatch_one now j =
     bind (outbox_insert_event now (j_id j) ''job.queued'') (\<lambda>_.
     bind (jobs_clear_retry_dispatched (j_id j)) (\<lambda>_. commit))"

fun dispatch_loop :: "time \<Rightarrow> job list \<Rightarrow> nat \<Rightarrow> nat program" where
  "dispatch_loop now [] dispatched = ret dispatched"
| "dispatch_loop now (j # js) dispatched =
     bind (dispatch_one now j) (\<lambda>_. dispatch_loop now js (Suc dispatched))"

definition dispatch_due_retries :: "time \<Rightarrow> nat program" where
  "dispatch_due_retries now =
     bind (query (jobs_list_retry_due now)) (\<lambda>due. dispatch_loop now due 0)"

definition recovery_run_once :: "settings \<Rightarrow> time \<Rightarrow> rat \<Rightarrow> (nat \<times> nat) program" where
  "recovery_run_once cfg now u =
     bind (reclaim_stale_leases cfg now u) (\<lambda>reclaimed.
     bind (dispatch_due_retries now) (\<lambda>dispatched. ret (reclaimed, dispatched)))"

end
