(* ===== verification/Services.thy ===== *)
theory Services
  imports Sessions JobService Scheduler Worker Recovery
begin

text \<open>
  The services as clients of the repositories.  The locale \<open>repository_laws\<close> is the
  contract: an invariant \<open>I\<close> that every repository operation keeps, the reservation of
  capacity and its row counting as one operation because no commit separates them.  From
  the contract follows that every service keeps \<open>I\<close>, in every state it commits.  \<open>txn\<close> is
  the system: one transaction of any process at a time, with arguments that may be
  arbitrarily out of date.
\<close>

text \<open>
  The transactions of the platform.  Where a service commits in the middle, its later parts
  are transactions of their own here, so that any interleaving of the services is a
  sequence of steps, and a crash after any commit is one too.
\<close>

inductive txn :: "settings \<Rightarrow> db \<Rightarrow> db \<Rightarrow> bool" for cfg :: settings where
  t_create: "d' \<in> set (commits (create_job now p) d) \<Longrightarrow> txn cfg d d'"
| t_transition: "d' \<in> set (commits (transition jid st) d) \<Longrightarrow> txn cfg d d'"
| t_config: "d' \<in> set (commits (jobs_update j (\<lambda>r. r\<lparr>j_config := Some c\<rparr>)) d) \<Longrightarrow> txn cfg d d'"
| t_cancel: "d' \<in> set (commits (cancel_from now jid current) d) \<Longrightarrow> txn cfg d d'"
| t_cancel_job: "d' \<in> set (commits (cancel_job now jid) d) \<Longrightarrow> txn cfg d d'"
| t_patch: "d' \<in> set (commits (update_job jid u) d) \<Longrightarrow> txn cfg d d'"
| t_delete: "d' \<in> set (commits (jobs_soft_delete now j) d) \<Longrightarrow> txn cfg d d'"
| t_schedule: "d' \<in> set (commits (scheduler_run_once cfg now) d) \<Longrightarrow> txn cfg d d'"
| t_admit: "d' \<in> set (commits (try_admit cfg now j) d) \<Longrightarrow> txn cfg d d'"
| t_decision: "d' \<in> set (commits (bind (decisions_insert row) (\<lambda>_. commit)) d) \<Longrightarrow> txn cfg d d'"
| t_claim: "d' \<in> set (commits (jobs_claim now jid w (lease_duration_seconds cfg)) d) \<Longrightarrow> txn cfg d d'"
| t_attempt: "d' \<in> set (commits (attempts_insert now jid n w) d) \<Longrightarrow> txn cfg d d'"
| t_heartbeat:
    "d' \<in> set (commits (jobs_heartbeat now jid w n (lease_duration_seconds cfg)) d) \<Longrightarrow> txn cfg d d'"
| t_finish: "d' \<in> set (commits (finish_decided cfg now u jid w n out b) d) \<Longrightarrow> txn cfg d d'"
| t_recovery: "d' \<in> set (commits (recovery_run_once cfg now u) d) \<Longrightarrow> txn cfg d d'"
| t_reclaim: "d' \<in> set (commits (reclaim_one cfg now u j) d) \<Longrightarrow> txn cfg d d'"
| t_dispatch: "d' \<in> set (commits (dispatch_one now j) d) \<Longrightarrow> txn cfg d d'"
| t_clear: "d' \<in> set (commits (bind (jobs_clear_retry_dispatched jid) (\<lambda>_. commit)) d) \<Longrightarrow> txn cfg d d'"
| t_relay: "d' \<in> set (commits (relay_once now send) d) \<Longrightarrow> txn cfg d d'"

locale repository_laws =
  fixes I :: "db \<Rightarrow> bool"
  assumes create: "d0 = work s \<Longrightarrow> durable_ok I s \<Longrightarrow> I (work s) \<Longrightarrow>
      kept I (jobs_create_and_enqueue (new_job now (fresh_id (map j_id (t_jobs d0))) p) QUEUED s)"
    and conditional: "set vf \<subseteq> set (sources_for (status_value st)) \<Longrightarrow>
      keeps I (jobs_conditional_transition jid vf st id c)"
    and cancel_requested: "keeps I (jobs_set_cancel_requested jid)"
    and claim: "keeps I (jobs_claim now jid w ls)"
    and heartbeat: "keeps I (jobs_heartbeat now jid w n ls)"
    and finalize: "terminal st \<Longrightarrow> keeps I (jobs_finalize_attempt jid w n st id c)"
    and requeue: "keeps I (jobs_finalize_attempt jid w n QUEUED (\<lambda>j. j\<lparr>j_next_retry_at := Some t\<rparr>) c)"
    and reclaim: "keeps I (jobs_reclaim_stale now jid ma t c)"
    and clear_retry: "keeps I (jobs_clear_retry_dispatched jid)"
    and config: "keeps I (jobs_update j (\<lambda>r. r\<lparr>j_config := Some cc\<rparr>))"
    and soft_delete: "keeps I (jobs_soft_delete now j)"
    and release: "keeps I (release_reservation now jid n)"
    and reserve: "durable_ok I s \<Longrightarrow> I (work s) \<Longrightarrow> (\<And>a. keeps I (f a :: bool program)) \<Longrightarrow>
      kept I (bind (reserve_or_reject cpu mem gpu)
                (\<lambda>_. bind (reservations_insert now jid n cpu mem gpu) f) s)"
    and attempt: "keeps I (attempts_insert now jid n w)"
    and attempt_done: "keeps I (attempts_finalize now jid n ast em ec fd c)"
    and lost: "keeps I (attempts_mark_lost now jid n w c)"
    and dlq: "keeps I (dlq_insert now jid n em cls k c)"
    and event: "keeps I (outbox_insert_event now jid et)"
    and published: "keeps I (outbox_mark_published now oid)"
    and decision: "keeps I (decisions_insert row)"
begin

lemmas repository_keeps = cancel_requested claim heartbeat finalize requeue reclaim clear_retry
  config soft_delete release attempt attempt_done lost dlq event published decision

lemma jobs_get: "keeps I (jobs_get jid)"
  unfolding jobs_get_def by (rule keeps_query)

lemma create_job: "keeps I (create_job now p)"
  unfolding create_job_def using create
  by (intro keepsI) (simp add: bind_def query_def)

lemma get_job: "keeps I (get_job jid)"
  unfolding get_job_def by (intro keeps_intros jobs_get)

lemma transition: "keeps I (transition jid st)"
proof -
  have "keeps I (case status_of_string st of None \<Rightarrow> bind commit (\<lambda>_. ret None)
          | Some s \<Rightarrow> jobs_conditional_transition jid (sources_for st) s id True)"
    by (cases "status_of_string st") (auto intro!: keeps_intros conditional simp del: status_value.simps)
  then show ?thesis
    unfolding transition_def by (rule keeps_bind) (intro keeps_intros jobs_get)
qed

lemma cancel_from: "keeps I (cancel_from now jid cur)"
  unfolding cancel_from_def
  by (intro keeps_intros repository_keeps get_job conditional subset_refl)

lemma cancel_job: "keeps I (cancel_job now jid)"
  unfolding cancel_job_def by (intro keeps_intros get_job cancel_from)

lemma update_job: "keeps I (update_job jid u)"
  unfolding update_job_def by (intro keeps_intros transition get_job config)

lemma delete_job: "keeps I (delete_job now jid)"
  unfolding delete_job_def by (intro keeps_intros get_job soft_delete)

lemma keeps_then_kept:
  "keeps I m \<Longrightarrow> (\<And>a s. durable_ok I s \<Longrightarrow> I (work s) \<Longrightarrow> kept I (f a s)) \<Longrightarrow> keeps I (bind m f)"
  by (rule keeps_bind) (auto intro: keepsI)

lemma check_eligible: "keeps I (check_eligible now j)"
  unfolding check_eligible_def reservations_has_active_def by (intro keeps_intros jobs_get)

lemma admit_body: "keeps I (admit_body cfg now j cpu mem gpu)"
  unfolding admit_body_def capacity_get_def
  by (rule keeps_then_kept [OF check_eligible], rule reserve)
    (assumption | intro keeps_intros repository_keeps)+

lemma record_waiting: "recovers I (record_waiting cfg now j cpu mem gpu reason snap)"
  unfolding record_waiting_def capacity_get_def
  by (intro recovers_bind recovers_rollback keeps_intros repository_keeps)

lemma try_admit: "keeps I (try_admit cfg now j)"
  unfolding try_admit_def
  by (intro keeps_intros admit_body) (auto intro: keeps_intros record_waiting split: exn.split)

lemma admit_loop: "keeps I (admit_loop cfg now js a w)"
  by (induction js arbitrary: a w) (auto intro!: keeps_intros try_admit)

lemma scheduler: "keeps I (scheduler_run_once cfg now)"
  unfolding scheduler_run_once_def by (intro keeps_intros admit_loop)

lemma finish_decided: "keeps I (finish_decided cfg now u jid w n out b)"
  unfolding finish_decided_def finish_with_def Let_def
  by (intro keeps_intros repository_keeps; simp add: terminal_def)

lemma finish_attempt: "keeps I (finish_attempt cfg now u jid w n out)"
  unfolding finish_attempt_def by (intro keeps_intros jobs_get finish_decided)

lemma start_attempt: "keeps I (start_attempt cfg now jid w)"
  unfolding start_attempt_def by (intro keeps_intros repository_keeps)

lemma interfere: "(\<And>d. I d \<Longrightarrow> I (others d)) \<Longrightarrow> keeps I (interfere others)"
  by (simp add: keeps_def kept_def interfere_def durable_ok_def)

lemma process_job_message:
  assumes "\<And>j t. keeps I (train j t)" and "\<And>j e. keeps I (ev j e)" and "\<And>d. I d \<Longrightarrow> I (others d)"
  shows "keeps I (process_job_message cfg train ev others ab nc now u jid w)"
proof -
  have q: "keeps I (query_checked f)" for f :: "db \<Rightarrow> exn + 'z"
    by (simp add: keeps_def kept_def query_checked_def)
  have e: "keeps I (execute_attempt train ev j)" for j
    unfolding execute_attempt_def training_runs_get_by_job_id_def
      evaluation_runs_get_by_job_id_def run_executor_def
    by (intro keeps_intros q assms)
  show ?thesis
    unfolding process_job_message_def
    by (intro keeps_intros start_attempt interfere finish_attempt e assms)
qed

lemma reclaim_one: "keeps I (reclaim_one cfg now u j)"
  unfolding reclaim_one_def by (intro keeps_intros repository_keeps)

lemma reclaim_loop: "keeps I (reclaim_loop cfg now u js k)"
  by (induction js arbitrary: k) (auto intro!: keeps_intros reclaim_one)

lemma dispatch_one: "keeps I (dispatch_one now j)"
  unfolding dispatch_one_def by (intro keeps_intros repository_keeps)

lemma dispatch_loop: "keeps I (dispatch_loop now js k)"
  by (induction js arbitrary: k) (auto intro!: keeps_intros dispatch_one)

lemma recovery: "keeps I (recovery_run_once cfg now u)"
  unfolding recovery_run_once_def reclaim_stale_leases_def dispatch_due_retries_def
  by (intro keeps_intros reclaim_loop dispatch_loop)

lemma relay_rows: "keeps I (relay_rows now send rows k)"
  by (induction rows arbitrary: k) (auto intro!: keeps_intros published split: option.split)

lemma relay: "keeps I (relay_once now send)"
  unfolding relay_once_def by (intro keeps_intros relay_rows)

text \<open>Every transaction of the system keeps the invariant, and so every run does.\<close>

lemma txn_keeps: "txn cfg d d' \<Longrightarrow> I d \<Longrightarrow> I d'"
  by (induction rule: txn.induct)
    (erule keeps_commits [rotated 2],
     intro keeps_intros create_job transition cancel_from cancel_job update_job scheduler try_admit finish_decided recovery
       reclaim_one dispatch_one relay repository_keeps, assumption)+

lemma run_keeps: "(txn cfg)\<^sup>*\<^sup>* d d' \<Longrightarrow> I d \<Longrightarrow> I d'"
  by (induction rule: rtranclp_induct) (auto intro: txn_keeps)

end

end
