(* ===== verification/SampleRun.thy ===== *)
theory SampleRun
  imports Services
begin

text \<open>
  A concrete run that the witnesses share: a job is created, admitted by a scheduler pass,
  claimed by worker \<^verbatim>\<open>w1\<close>, started, and finished; or its lease runs out and recovery
  reclaims it.  Each state is the database the service leaves, evaluated by the simplifier.
\<close>

lemmas service_eval = run_defs prog_defs sql_defs scheduler_run_once_def rank_candidates_def
  jobs_list_schedulable_def try_admit_def resource_request_def sum_bind_def Let_def not_after_def
  reserve_where_def reserve_set_def claim_where_def claim_set_def holds_lease_def finish_decided_def
  attempt_where_def finalize_set_def finish_attempt_row_def release_where_def release_set_def
  reclaim_one_def stale_where_def reclaim_set_def expired_def

text \<open>The state the migrations leave: empty tables and a capacity row nothing is drawn from.\<close>

definition initial_db :: "int \<Rightarrow> int \<Rightarrow> int \<Rightarrow> db" where
  "initial_db cpu memory_mb gpu =
     empty_db\<lparr>t_capacity := Some \<lparr>total_cpu = cpu, allocated_cpu = 0, total_memory_mb = memory_mb,
       allocated_memory_mb = 0, total_gpu = gpu, allocated_gpu = 0\<rparr>\<rparr>"

definition sample_payload :: job_create where
  "sample_payload = \<lparr>jc_job_type = ''train'', jc_config = None, jc_priority = 5\<rparr>"

definition sample_job :: job where
  "sample_job = (new_job 7 1 sample_payload)\<lparr>j_status := QUEUED\<rparr>"

definition sample_reservation :: reservation where
  "sample_reservation = \<lparr>r_job_id = 1, r_attempt_number = 1, r_cpu = 1, r_memory_mb = 512, r_gpu = 0,
     r_status = ACTIVE, r_created_at = 9, r_released_at = None\<rparr>"

definition sample_created :: db where
  "sample_created = (initial_db 4 4096 0)\<lparr>t_jobs := [sample_job]\<rparr>"

definition sample_admitted :: db where
  "sample_admitted = final_db (scheduler_run_once default_settings 9) sample_created"

definition sample_claimed :: db where
  "sample_claimed = final_db (jobs_claim 10 1 ''w1'' 30) sample_admitted"

definition sample_started :: db where
  "sample_started = final_db (attempts_insert 11 1 1 ''w1'') sample_claimed"

definition sample_finished :: db where
  "sample_finished = final_db (finish_decided default_settings 12 0 1 ''w1'' 1 succeeded False) sample_started"

lemma sample_created_run:
  "final_db (create_job 7 sample_payload) (initial_db 4 4096 0) = sample_created"
  "sample_created \<in> set (commits (create_job 7 sample_payload) (initial_db 4 4096 0))"
  by (simp_all add: service_eval initial_db_def empty_db_def new_job_def sample_payload_def
      sample_job_def fresh_id_def sample_created_def)

lemmas sample_defs = sample_created_def initial_db_def empty_db_def new_job_def sample_payload_def
  sample_job_def default_settings_def seconds_def

lemma sample_admitted_tables:
  "t_jobs sample_admitted = [sample_job]"
  "t_attempts sample_admitted = []"
  "t_reservations sample_admitted = [sample_reservation]"
  "t_capacity sample_admitted = Some \<lparr>total_cpu = 4, allocated_cpu = 1, total_memory_mb = 4096,
     allocated_memory_mb = 512, total_gpu = 0, allocated_gpu = 0\<rparr>"
  "sample_admitted \<in> set (commits (scheduler_run_once default_settings 9) sample_created)"
  unfolding sample_admitted_def sample_reservation_def
  by (simp_all add: service_eval sample_defs)

definition sample_running :: job where
  "sample_running = sample_job\<lparr>j_status := RUNNING, j_lease_owner := Some ''w1'',
     j_lease_expires_at := Some 30000010, j_attempt_number := 1, j_claimed_at := Some 10\<rparr>"

lemma sample_claimed_tables:
  "t_jobs sample_claimed = [sample_running]"
  "t_attempts sample_claimed = []"
  "t_reservations sample_claimed = [sample_reservation]"
  "t_capacity sample_claimed = t_capacity sample_admitted"
  "sample_claimed \<in> set (commits (jobs_claim 10 1 ''w1'' 30) sample_admitted)"
  unfolding sample_claimed_def
  by (simp_all add: service_eval sample_admitted_tables sample_running_def)
    (simp_all add: sample_defs sample_reservation_def)

lemma sample_started_tables:
  "t_jobs sample_started = [sample_running]"
  "map attempt_key (t_attempts sample_started) = [(1, 1)]"
  "t_reservations sample_started = [sample_reservation]"
  "t_capacity sample_started = t_capacity sample_admitted"
  "sample_started \<in> set (commits (attempts_insert 11 1 1 ''w1'') sample_claimed)"
  unfolding sample_started_def
  by (simp_all add: service_eval sample_claimed_tables attempt_key_def)

lemma sample_finished_tables:
  "map j_status (t_jobs sample_finished) = [SUCCEEDED]"
  "map a_status (t_attempts sample_finished) = [ASucceeded]"
  "map r_status (t_reservations sample_finished) = [RELEASED]"
  "map_option allocated_cpu (t_capacity sample_finished) = Some 0"
  "sample_finished \<in> set (commits (finish_decided default_settings 12 0 1 ''w1'' 1 succeeded False)
                             sample_started)"
proof -
  obtain a where a: "t_attempts sample_started = [a]" "attempt_key a = (1, 1)"
    using sample_started_tables(2) by (auto simp: map_eq_Cons_conv)
  then have k: "a_job_id a = 1" "a_attempt_number a = 1" by (auto simp: attempt_key_def)
  note e = service_eval succeeded_def sample_started_tables a k sample_running_def sample_reservation_def
    sample_job_def new_job_def sample_admitted_tables
  show "map j_status (t_jobs sample_finished) = [SUCCEEDED]"
    unfolding sample_finished_def by (simp add: e)
  show "map a_status (t_attempts sample_finished) = [ASucceeded]"
    unfolding sample_finished_def by (simp add: e)
  show "map r_status (t_reservations sample_finished) = [RELEASED]"
    unfolding sample_finished_def by (simp add: e)
  show "map_option allocated_cpu (t_capacity sample_finished) = Some 0"
    unfolding sample_finished_def by (simp add: e)
  show "sample_finished \<in> set (commits (finish_decided default_settings 12 0 1 ''w1'' 1 succeeded False)
                             sample_started)"
    unfolding sample_finished_def by (simp add: e)
qed

lemma sample_txns:
  "txn default_settings (initial_db 4 4096 0) sample_created"
  "txn default_settings sample_created sample_admitted"
  "txn default_settings sample_admitted sample_claimed"
  "txn default_settings sample_claimed sample_started"
  "txn default_settings sample_started sample_finished"
  using sample_created_run sample_admitted_tables sample_claimed_tables sample_started_tables
    sample_finished_tables
  by (auto intro: t_create t_schedule t_attempt t_finish t_claim [where w = "''w1''"]
      simp: default_settings_def)

lemma sample_run:
  "(txn default_settings)\<^sup>*\<^sup>* (initial_db 4 4096 0) sample_admitted"
  "(txn default_settings)\<^sup>*\<^sup>* sample_admitted sample_started"
  "(txn default_settings)\<^sup>*\<^sup>* sample_started sample_finished"
  using sample_txns by (meson converse_rtranclp_into_rtranclp rtranclp.rtrancl_refl)+

text \<open>The other ending: the lease, due at 30000010, is found expired by recovery.\<close>

definition sample_reclaimed :: db where
  "sample_reclaimed = final_db (reclaim_one default_settings 40000000 0 sample_running) sample_started"

lemma sample_retry_at:
  "compute_next_retry_at 40000000 0 2 (Fin 2) (Fin 60) (fl (1 / 5)) = Some 44000000"
proof -
  obtain x where x: "fl (1 / 5) = Fin x" "\<bar>x - 1 / 5\<bar> \<le> 1 / 1000000000" using fl_near [of "1 / 5"] by auto
  then have "\<bar>4 * x\<bar> \<le> 1100000" by linarith
  then obtain y where "fl (4 * x) = Fin y" using fl_near by blast
  moreover have "fl 0 = Fin 0" "fl 4 = Fin 4"
    using fl_of_int [of 0] fl_of_int [of 4] by simp_all
  moreover have "round_half_even 0 = 0" using round_half_even_of_int [of 0] by simp
  ultimately show ?thesis
    using capped_delay_default [of 2] x(1)
    by (simp add: compute_next_retry_at_def retry_delay_def)
qed

lemma sample_reclaimed_tables:
  "t_jobs sample_reclaimed = [sample_running\<lparr>j_status := QUEUED, j_lease_owner := None,
     j_lease_expires_at := None, j_next_retry_at := Some 44000000\<rparr>]"
  "map a_status (t_attempts sample_reclaimed) = [ALost]"
  "map r_status (t_reservations sample_reclaimed) = [RELEASED]"
  "map_option allocated_cpu (t_capacity sample_reclaimed) = Some 0"
  "sample_reclaimed \<in> set (commits (reclaim_one default_settings 40000000 0 sample_running) sample_started)"
proof -
  obtain a where a: "t_attempts sample_started = [a]" "attempt_key a = (1, 1)"
    using sample_started_tables(2) by (auto simp: map_eq_Cons_conv)
  then have k: "a_job_id a = 1" "a_attempt_number a = 1" by (auto simp: attempt_key_def)
  note e = service_eval sample_started_tables a k sample_running_def sample_reservation_def
    sample_job_def new_job_def sample_admitted_tables lost_set_def sample_retry_at default_settings_def
  show "t_jobs sample_reclaimed = [sample_running\<lparr>j_status := QUEUED, j_lease_owner := None,
     j_lease_expires_at := None, j_next_retry_at := Some 44000000\<rparr>]"
    unfolding sample_reclaimed_def by (simp add: e)
  show "map a_status (t_attempts sample_reclaimed) = [ALost]"
    unfolding sample_reclaimed_def by (simp add: e)
  show "map r_status (t_reservations sample_reclaimed) = [RELEASED]"
    unfolding sample_reclaimed_def by (simp add: e)
  show "map_option allocated_cpu (t_capacity sample_reclaimed) = Some 0"
    unfolding sample_reclaimed_def by (simp add: e)
  show "sample_reclaimed \<in> set (commits (reclaim_one default_settings 40000000 0 sample_running) sample_started)"
    unfolding sample_reclaimed_def by (simp add: e)
qed

end
