(* ===== verification/Accounting.thy ===== *)
theory Accounting
  imports SampleRun
begin

text \<open>
  Resource accounting across every service: the allocated counters of the capacity row are
  at all times the sums over the ACTIVE reservations, in every state any process commits,
  whatever the arguments of the transactions (stale job objects, client-chosen
  transitions and deletions included), and so after any interleaving of the processes and
  any crash between two commits.
\<close>

definition reservation_nonneg :: "reservation \<Rightarrow> bool" where
  "reservation_nonneg r \<longleftrightarrow> 0 \<le> r_cpu r \<and> 0 \<le> r_memory_mb r \<and> 0 \<le> r_gpu r"

definition capacity_nonneg :: "capacity \<Rightarrow> bool" where
  "capacity_nonneg c \<longleftrightarrow> 0 \<le> total_cpu c \<and> 0 \<le> total_memory_mb c \<and> 0 \<le> total_gpu c"

text \<open>Nothing is overcommitted, as long as no request was negative: the schemas of the API
  do not exclude negative requests, and one would make room for more than there is.\<close>

definition not_overcommitted :: "db \<Rightarrow> bool" where
  "not_overcommitted d \<longleftrightarrow>
     (\<forall>c. t_capacity d = Some c \<longrightarrow> capacity_nonneg c \<longrightarrow>
          (\<forall>r \<in> set (t_reservations d). reservation_nonneg r) \<longrightarrow> reserve_where 0 0 0 c)"

definition accounting :: "db \<Rightarrow> bool" where
  "accounting d \<longleftrightarrow> reservation_keys_ok d \<and> conserved d \<and> not_overcommitted d"

lemma accounting_initial: "accounting (initial_db cpu mem gpu)"
  by (simp add: accounting_def initial_db_def reservation_keys_ok_def conserved_def
      reservations_sum_active_def empty_db_def not_overcommitted_def capacity_nonneg_def
      reserve_where_def)

lemma accounting_cong:
  "t_capacity d' = t_capacity d \<Longrightarrow> t_reservations d' = t_reservations d \<Longrightarrow>
   accounting d' = accounting d"
  by (simp add: accounting_def reservation_keys_ok_def not_overcommitted_def cong: conserved_cong)

lemma accounting_update_jobs [keeps_intros]: "keeps accounting (update_jobs p f)"
proof (rule keepsI)
  fix s assume "durable_ok accounting s" "accounting (work s)"
  then show "kept accounting (update_jobs p f s)"
    using accounting_cong [of "(work s)\<lparr>t_jobs := sql_update (p (work s)) f (t_jobs (work s))\<rparr>" "work s"]
    by (simp add: update_jobs_def kept_def durable_ok_def)
qed

lemma accounting_execute:
  "(\<And>d. t_capacity (f d) = t_capacity d \<and> t_reservations (f d) = t_reservations d) \<Longrightarrow>
   keeps accounting (execute f)"
  by (rule keeps_execute) (metis accounting_cong)

lemma release_db_not_overcommitted:
  assumes "not_overcommitted d"
  shows "not_overcommitted (release_db now jid n d)"
proof (cases "sql_one (release_where jid n) (t_reservations d)")
  case None
  with assms show ?thesis by (simp add: release_db_def)
next
  case (Some r)
  let ?t = "sql_update (release_where jid n) (release_set now) (t_reservations d)"
  have nonneg: "(\<forall>r \<in> set ?t. reservation_nonneg r) \<longleftrightarrow> (\<forall>r \<in> set (t_reservations d). reservation_nonneg r)"
    unfolding ball_sql_update by (auto simp: reservation_nonneg_def release_set_def)
  have r: "0 \<le> r_cpu r \<and> 0 \<le> r_memory_mb r \<and> 0 \<le> r_gpu r"
    if "\<forall>r \<in> set (t_reservations d). reservation_nonneg r"
    using Some that by (auto dest: sql_one_SomeD simp: reservation_nonneg_def)
  have "reserve_where 0 0 0 (c\<lparr>allocated_cpu := allocated_cpu c - r_cpu r,
          allocated_memory_mb := allocated_memory_mb c - r_memory_mb r,
          allocated_gpu := allocated_gpu c - r_gpu r\<rparr>)"
    if "t_capacity d = Some c" "capacity_nonneg c" "\<forall>r \<in> set (t_reservations d). reservation_nonneg r" for c
    using assms that r [OF that(3)] by (auto simp: not_overcommitted_def reserve_where_def)
  with Some show ?thesis
    unfolding not_overcommitted_def release_db_def by (auto simp: nonneg capacity_nonneg_def)
qed

lemma accounting_release_db: "accounting d \<Longrightarrow> accounting (release_db now jid n d)"
  by (simp add: accounting_def release_db_conserved release_db_not_overcommitted)

lemma accounting_release: "keeps accounting (release_reservation now jid n)"
proof (rule keepsI)
  fix s assume *: "durable_ok accounting s" "accounting (work s)"
  then have "distinct (map reservation_key (t_reservations (work s)))"
    by (simp add: accounting_def reservation_keys_ok_def)
  with * show "kept accounting (release_reservation now jid n s)"
    by (simp add: release_reservation_run kept_def durable_ok_def accounting_release_db)
qed

text \<open>
  Admission breaks the invariant between the counter update and the reservation row, and
  only there: a failure in the window leaves an uncommitted view that \<open>record_waiting\<close>
  or the caller of the pass rolls back.
\<close>

lemma accounting_reserve:
  assumes d: "durable_ok accounting s" and w: "accounting (work s)" and k: "\<And>a. keeps accounting (f a)"
  shows "kept accounting
           (bind (reserve_or_reject cpu mem gpu) (\<lambda>_. bind (reservations_insert now jid n cpu mem gpu) f) s)"
proof -
  from w obtain c where c: "t_capacity (work s) = Some c"
    by (auto simp: accounting_def conserved_def)
  show ?thesis
  proof (cases "reserve_where cpu mem gpu c \<and> find_reservation jid n (work s) = None")
    case False
    with c d show ?thesis
      by (auto simp: prog_defs Let_def kept_def durable_ok_def find_reservation_def split: option.splits)
  next
    case True
    let ?r = "\<lparr>r_job_id = jid, r_attempt_number = n, r_cpu = cpu, r_memory_mb = mem, r_gpu = gpu,
               r_status = ACTIVE, r_created_at = now, r_released_at = None\<rparr>"
    let ?d = "(work s)\<lparr>t_capacity := Some (reserve_set cpu mem gpu c),
               t_reservations := t_reservations (work s) @ [?r]\<rparr>"
    have "not_overcommitted ?d"
      using True by (auto simp: not_overcommitted_def reserve_where_def reserve_set_def)
    then have "accounting ?d"
      using w True reserve_conserved [OF _ c]
      by (auto simp: accounting_def reservation_keys_ok_def find_reservation_def sql_one_None_iff
          reservation_key_def)
    with d have "kept accounting (f ?r (s\<lparr>work := ?d\<rparr>))"
      by (intro keepsD [OF k]) (simp_all add: durable_ok_def)
    with True c show ?thesis
      by (simp add: prog_defs Let_def find_reservation_def)
  qed
qed

lemma accounting_jobs_repo:
  "keeps accounting (jobs_create_and_enqueue j st)"
  "keeps accounting (jobs_conditional_transition jid vf st ex c)"
  "keeps accounting (jobs_set_cancel_requested jid)"
  "keeps accounting (jobs_claim now jid w ls)"
  "keeps accounting (jobs_heartbeat now jid w n ls)"
  "keeps accounting (jobs_finalize_attempt jid w n st ex c)"
  "keeps accounting (jobs_reclaim_stale now jid ma t c)"
  "keeps accounting (jobs_clear_retry_dispatched jid)"
  "keeps accounting (jobs_update j as)"
  "keeps accounting (jobs_soft_delete now j)"
  unfolding jobs_get_def jobs_create_and_enqueue_def jobs_conditional_transition_def
    jobs_set_cancel_requested_def jobs_claim_def jobs_heartbeat_def jobs_finalize_attempt_def
    jobs_reclaim_stale_def jobs_clear_retry_dispatched_def jobs_update_def jobs_soft_delete_def
  by (intro keeps_intros accounting_execute; simp)+

lemma accounting_history:
  "keeps accounting (attempts_insert now jid n w)"
  "keeps accounting (attempts_finalize now jid n st em ec fd c)"
  "keeps accounting (attempts_mark_lost now jid n w c)"
  "keeps accounting (dlq_insert now jid n em cls k c)"
  "keeps accounting (outbox_insert_event now jid et)"
  "keeps accounting (outbox_mark_published now oid)"
  "keeps accounting (decisions_insert row)"
  unfolding attempts_insert_def attempts_finalize_def attempts_mark_lost_def dlq_insert_def
    outbox_insert_event_def outbox_mark_published_def decisions_insert_def Let_def
  by (intro keeps_intros accounting_execute; simp)+

interpretation acc: repository_laws accounting
  by unfold_locales
    (simp_all add: accounting_jobs_repo accounting_history accounting_release accounting_reserve keepsD)

subsection \<open>Every reachable state\<close>

lemma accounting_reachable: "(txn cfg)\<^sup>*\<^sup>* (initial_db cpu mem gpu) d \<Longrightarrow> accounting d"
  using acc.run_keeps accounting_initial by blast

end
