(* ===== verification/Evolution.thy ===== *)
theory Evolution
  imports SampleRun
begin

text \<open>
  How a job row may change, under every transaction with any arguments: the attempt number
  (the fencing token) never goes down, a terminal status is final, a request to cancel and
  a deletion are never taken back, what the client submitted at creation stays, and
  nobody comes to hold the lease of an attempt that has already begun.  \<open>evolves d0 d\<close> is
  the two-state relation; for a fixed \<open>d0\<close> it is an invariant of \<open>d\<close>, so the contract of
  \<open>repository_laws\<close> applies to it.
\<close>

definition holds_own_lease :: "string \<Rightarrow> job \<Rightarrow> bool" where
  "holds_own_lease w j \<longleftrightarrow> j_status j = RUNNING \<and> j_lease_owner j = Some w"

lemma holds_lease_own: "holds_lease jid w n j \<longleftrightarrow> j_id j = jid \<and> j_attempt_number j = n \<and> holds_own_lease w j"
  by (auto simp: holds_lease_def holds_own_lease_def)

definition job_evolves :: "job \<Rightarrow> job \<Rightarrow> bool" where
  "job_evolves j j' \<longleftrightarrow> j_id j' = j_id j \<and> j_job_type j' = j_job_type j
   \<and> j_priority j' = j_priority j \<and> j_created_at j' = j_created_at j
   \<and> j_attempt_number j \<le> j_attempt_number j'
   \<and> (terminal (j_status j) \<longrightarrow> j_status j' = j_status j)
   \<and> (j_status j' = PENDING \<longrightarrow> j_status j = PENDING)
   \<and> (j_cancel_requested j \<longrightarrow> j_cancel_requested j')
   \<and> (j_deleted_at j \<noteq> None \<longrightarrow> j_deleted_at j' \<noteq> None)
   \<and> (\<forall>w. j_attempt_number j' = j_attempt_number j \<longrightarrow> holds_own_lease w j' \<longrightarrow> holds_own_lease w j)"

text \<open>A job that waits has no lease owner left over from an earlier attempt.\<close>

definition waiting_unowned :: "job \<Rightarrow> bool" where
  "waiting_unowned j \<longleftrightarrow> (j_status j = PENDING \<or> j_status j = QUEUED \<longrightarrow> j_lease_owner j = None)"

definition job_ids_ok :: "db \<Rightarrow> bool" where
  "job_ids_ok d \<longleftrightarrow> distinct (map j_id (t_jobs d)) \<and> (\<forall>j \<in> set (t_jobs d). waiting_unowned j)"

definition evolves :: "db \<Rightarrow> db \<Rightarrow> bool" where
  "evolves d0 d \<longleftrightarrow> job_ids_ok d \<and> (\<forall>j \<in> set (t_jobs d0). \<exists>j' \<in> set (t_jobs d). job_evolves j j')"

lemma job_evolves_refl: "job_evolves j j"
  by (simp add: job_evolves_def)

lemma job_evolves_trans:
  assumes "job_evolves a b" and "job_evolves b c"
  shows "job_evolves a c"
proof -
  have "j_attempt_number b = j_attempt_number a \<and> j_attempt_number c = j_attempt_number b"
    if "j_attempt_number c = j_attempt_number a"
    using assms that unfolding job_evolves_def by linarith
  then have "\<forall>w. j_attempt_number c = j_attempt_number a \<longrightarrow> holds_own_lease w c \<longrightarrow> holds_own_lease w a"
    using assms unfolding job_evolves_def by metis
  moreover have "j_attempt_number a \<le> j_attempt_number c"
    using assms unfolding job_evolves_def by linarith
  moreover have "terminal (j_status a) \<longrightarrow> j_status c = j_status a"
    using assms unfolding job_evolves_def by metis
  moreover have "j_id c = j_id a \<and> j_job_type c = j_job_type a \<and> j_priority c = j_priority a
     \<and> j_created_at c = j_created_at a"
    using assms unfolding job_evolves_def by metis
  moreover have "(j_status c = PENDING \<longrightarrow> j_status a = PENDING)
     \<and> (j_cancel_requested a \<longrightarrow> j_cancel_requested c)
     \<and> (j_deleted_at a \<noteq> None \<longrightarrow> j_deleted_at c \<noteq> None)"
    using assms unfolding job_evolves_def by blast
  ultimately show ?thesis unfolding job_evolves_def by blast
qed

lemma evolves_refl: "job_ids_ok d \<Longrightarrow> evolves d d"
  by (auto simp: evolves_def intro: job_evolves_refl)

lemma evolves_ids: "evolves d0 d \<Longrightarrow> job_ids_ok d"
  by (simp add: evolves_def)

lemma evolves_cong: "t_jobs d' = t_jobs d \<Longrightarrow> evolves d0 d' = evolves d0 d"
  by (simp add: evolves_def job_ids_ok_def)

text \<open>An update whose rows evolve keeps the relation, and so does the insert of a fresh row.\<close>

lemma evolves_sql_update:
  assumes "evolves d0 d" and f: "\<And>j. p j \<Longrightarrow> waiting_unowned j \<Longrightarrow> job_evolves j (f j) \<and> waiting_unowned (f j)"
  shows "evolves d0 (d\<lparr>t_jobs := sql_update p f (t_jobs d)\<rparr>)"
proof -
  have w: "\<forall>j \<in> set (t_jobs d). waiting_unowned j" and i: "distinct (map j_id (t_jobs d))"
    using assms(1) by (auto simp: evolves_def job_ids_ok_def)
  have ev: "\<exists>j' \<in> set (sql_update p f (t_jobs d)). job_evolves j j'" if j0: "j \<in> set (t_jobs d0)" for j
  proof -
    obtain k where k: "k \<in> set (t_jobs d)" "job_evolves j k"
      using assms(1) j0 unfolding evolves_def by blast
    have "job_evolves k (if p k then f k else k)"
    proof (cases "p k")
      case True
      with f [OF True] w k(1) show ?thesis by simp
    qed (simp add: job_evolves_refl)
    then have "job_evolves j (if p k then f k else k)" by (rule job_evolves_trans [OF k(2)])
    moreover have "(if p k then f k else k) \<in> set (sql_update p f (t_jobs d))"
      using k(1) unfolding in_sql_update_iff by blast
    ultimately show ?thesis by blast
  qed
  have fw: "j_id (f j) = j_id j \<and> waiting_unowned (f j)" if "j \<in> set (t_jobs d)" "p j" for j
    using f [OF that(2)] w that(1) by (simp add: job_evolves_def)
  then have "map j_id (sql_update p f (t_jobs d)) = map j_id (t_jobs d)"
    by (simp add: sql_update_def)
  with ev w i fw show ?thesis
    unfolding evolves_def job_ids_ok_def by (simp add: ball_sql_update)
qed

lemma evolves_update_jobs:
  "(\<And>d j. p d j \<Longrightarrow> waiting_unowned j \<Longrightarrow> job_evolves j (f j) \<and> waiting_unowned (f j)) \<Longrightarrow>
   keeps (evolves d0) (update_jobs p f)"
  by (auto simp: keeps_def kept_def update_jobs_def durable_ok_def intro!: evolves_sql_update)

lemma evolves_execute: "(\<And>d. t_jobs (f d) = t_jobs d) \<Longrightarrow> keeps (evolves d0) (execute f)"
  by (rule keeps_execute) (metis evolves_cong)

lemma evolves_create:
  assumes "durable_ok (evolves d0) s" and "evolves d0 (work s)"
  shows "kept (evolves d0)
           (jobs_create_and_enqueue (new_job now (fresh_id (map j_id (t_jobs (work s)))) p) QUEUED s)"
proof -
  let ?i = "fresh_id (map j_id (t_jobs (work s)))"
  let ?j = "(new_job now ?i p)\<lparr>j_status := QUEUED\<rparr>"
  have fresh: "?i \<notin> j_id ` set (t_jobs (work s))"
    using fresh_id_not_in [of "map j_id (t_jobs (work s))"] by simp
  then have "sql_update (\<lambda>r. j_id r = ?i) (\<lambda>r. r\<lparr>j_status := QUEUED\<rparr>) (t_jobs (work s) @ [new_job now ?i p])
      = t_jobs (work s) @ [?j]"
    by (auto simp: new_job_def image_iff intro!: sql_update_unmatched)
  moreover have "evolves d0 ((work s)\<lparr>t_jobs := t_jobs (work s) @ [?j]\<rparr>)"
    using assms(2) fresh
    by (auto simp: evolves_def job_ids_ok_def new_job_def waiting_unowned_def)
  ultimately show ?thesis
    using assms(1) by (simp add: prog_defs kept_def durable_ok_def new_job_def)
qed

lemmas evolves_defs = job_evolves_def waiting_unowned_def holds_own_lease_def terminal_def

lemma evolves_conditional:
  assumes "set vf \<subseteq> set (sources_for (status_value st))"
  shows "keeps (evolves d0) (jobs_conditional_transition jid vf st id c)"
proof -
  have step: "job_evolves j (j\<lparr>j_status := st\<rparr>) \<and> waiting_unowned (j\<lparr>j_status := st\<rparr>)"
    if "j_status j \<in> set vf" "waiting_unowned j" for j
  proof -
    from that(1) assms have "j_status j \<in> set (sources_for (status_value st))" by blast
    with that(2) show ?thesis
      by (cases st) (auto simp: evolves_defs sources_for_values simp del: status_value.simps)
  qed
  show ?thesis
    unfolding jobs_conditional_transition_def jobs_get_def
    by (intro keeps_intros evolves_update_jobs) (simp_all add: step)
qed

lemma evolves_jobs_repo:
  "keeps (evolves d0) (jobs_set_cancel_requested jid)"
  "keeps (evolves d0) (jobs_claim now jid w ls)"
  "keeps (evolves d0) (jobs_heartbeat now jid w n ls)"
  "terminal st \<Longrightarrow> keeps (evolves d0) (jobs_finalize_attempt jid w n st id c)"
  "keeps (evolves d0) (jobs_finalize_attempt jid w n QUEUED (\<lambda>j. j\<lparr>j_next_retry_at := Some t\<rparr>) c)"
  "keeps (evolves d0) (jobs_reclaim_stale now jid ma t c)"
  "keeps (evolves d0) (jobs_clear_retry_dispatched jid)"
  "keeps (evolves d0) (jobs_update j (\<lambda>r. r\<lparr>j_config := Some cc\<rparr>))"
  "keeps (evolves d0) (jobs_soft_delete now j)"
  unfolding jobs_get_def jobs_set_cancel_requested_def jobs_claim_def jobs_heartbeat_def
    jobs_finalize_attempt_def jobs_reclaim_stale_def jobs_clear_retry_dispatched_def jobs_update_def
    jobs_soft_delete_def
  by (intro keeps_intros evolves_update_jobs;
      auto simp: evolves_defs claim_where_def claim_set_def holds_lease_def finalize_set_def
        stale_where_def reclaim_set_def split: if_splits)+

lemma evolves_history:
  "keeps (evolves d0) (release_reservation now jid n)"
  "keeps (evolves d0) (attempts_insert now jid n w)"
  "keeps (evolves d0) (attempts_finalize now jid n ast em ec fd c)"
  "keeps (evolves d0) (attempts_mark_lost now jid n w c)"
  "keeps (evolves d0) (dlq_insert now jid n em cls k c)"
  "keeps (evolves d0) (outbox_insert_event now jid et)"
  "keeps (evolves d0) (outbox_mark_published now oid)"
  "keeps (evolves d0) (decisions_insert row)"
  unfolding release_reservation_def reservations_release_def capacity_release_def
    attempts_insert_def attempts_finalize_def attempts_mark_lost_def dlq_insert_def
    outbox_insert_event_def outbox_mark_published_def decisions_insert_def Let_def
  by (intro keeps_intros evolves_execute; simp)+

lemma evolves_reserve:
  assumes "durable_ok (evolves d0) s" and "evolves d0 (work s)" and "\<And>a. keeps (evolves d0) (f a)"
  shows "kept (evolves d0)
    (bind (reserve_or_reject cpu mem gpu) (\<lambda>_. bind (reservations_insert now jid n cpu mem gpu) f) s)"
proof -
  have "keeps (evolves d0)
    (bind (reserve_or_reject cpu mem gpu) (\<lambda>_. bind (reservations_insert now jid n cpu mem gpu) f))"
    unfolding reserve_or_reject_def capacity_try_reserve_def capacity_get_def reservations_insert_def Let_def
    by (intro keeps_intros evolves_execute assms(3)) simp_all
  with assms(1,2) show ?thesis by (rule keepsD [rotated 1])
qed

interpretation evo: repository_laws "evolves d0" for d0
  by unfold_locales
    (simp_all add: evolves_create evolves_conditional evolves_jobs_repo evolves_history evolves_reserve keepsD)

subsection \<open>Fencing\<close>

lemma evolves_row:
  assumes ev: "evolves d d'" and "j \<in> set (t_jobs d)"
    and "j' \<in> set (t_jobs d')" and "j_id j' = j_id j"
  shows "job_evolves j j'"
proof -
  obtain k where k: "k \<in> set (t_jobs d')" "job_evolves j k"
    using ev assms(2) unfolding evolves_def by blast
  have "distinct (map j_id (t_jobs d'))" using ev by (simp add: evolves_def job_ids_ok_def)
  then have "j' = k"
    using k assms(3,4) by (auto simp: job_evolves_def intro: distinct_map_eqD)
  with k show ?thesis by simp
qed

lemma job_ids_ok_run: "(txn cfg)\<^sup>*\<^sup>* d d' \<Longrightarrow> job_ids_ok d \<Longrightarrow> job_ids_ok d'"
  using evo.run_keeps evolves_refl evolves_ids by blast

lemma job_ids_ok_initial: "job_ids_ok (initial_db cpu mem gpu)"
  by (simp add: job_ids_ok_def initial_db_def empty_db_def)

lemma job_ids_ok_admitted: "job_ids_ok sample_admitted"
  by (simp add: job_ids_ok_def sample_admitted_tables waiting_unowned_def sample_job_def new_job_def)

lemma job_ids_ok_started: "job_ids_ok sample_started"
  by (simp add: job_ids_ok_def sample_started_tables waiting_unowned_def sample_running_def)

text \<open>The state in which an attempt is over for a worker: the job has reached that attempt
  and the worker does not hold its lease.\<close>

definition superseded :: "uuid \<Rightarrow> string \<Rightarrow> int \<Rightarrow> db \<Rightarrow> bool" where
  "superseded jid w n d \<longleftrightarrow>
     (\<exists>j \<in> set (t_jobs d). j_id j = jid \<and> n \<le> j_attempt_number j \<and> \<not> holds_lease jid w n j)"

lemma superseded_later:
  assumes "evolves d d'" and "superseded jid w n d"
  shows "\<forall>j \<in> set (t_jobs d'). \<not> holds_lease jid w n j"
proof
  fix j' assume j': "j' \<in> set (t_jobs d')"
  obtain j where j: "j \<in> set (t_jobs d)" "j_id j = jid" "n \<le> j_attempt_number j" "\<not> holds_lease jid w n j"
    using assms(2) by (auto simp: superseded_def)
  show "\<not> holds_lease jid w n j'"
  proof
    assume h: "holds_lease jid w n j'"
    then have "job_evolves j j'"
      using evolves_row [OF assms(1) j(1) j'] j(2) by (simp add: holds_lease_def)
    with h j show False by (simp add: holds_lease_own job_evolves_def)
  qed
qed

lemma fenced_finish_with:
  assumes "\<forall>j \<in> set (t_jobs (work s)). \<not> holds_lease jid w n j"
  shows "finish_with now jid w n st ex ast em cl fd b s = (Inr ''fenced_out'', s\<lparr>work := hd (durable s)\<rparr>)"
proof -
  have "rowcount (holds_lease jid w n) (t_jobs (work s)) = 0" using assms by simp
  then show ?thesis
    using assms by (auto simp: prog_defs sql_update_unmatched split: option.splits)
qed

lemma fenced_finish_decided:
  assumes "\<forall>j \<in> set (t_jobs (work s)). \<not> holds_lease jid w n j"
  shows "\<exists>r. finish_decided cfg now u jid w n out b s = (r, s\<lparr>work := work (snd (finish_decided cfg now u jid w n out b s))\<rparr>)
           \<and> r \<in> {Inr ''fenced_out'', Inl PyOverflowError}"
  unfolding finish_decided_def Let_def
  using assms by (auto simp: fenced_finish_with raise_def split: option.splits)

end
