(* ===== verification/Lifecycle.thy ===== *)
theory Lifecycle
  imports Accounting Evolution
begin

text \<open>
  The life of a job across its tables.  \<open>core_txn\<close> are the transactions of the platform
  with the discipline the design documents ask for: a cancellation and an admission act on
  the row they read, a worker records the attempt it claimed, and clients neither
  overwrite a status (PATCH) nor delete a job; the workers' and recovery's transactions
  are as arbitrary as in \<open>txn\<close>.  For each transaction an effect lemma says what it commits;
  the invariant \<open>ledger\<close> ties every reservation, attempt and dead letter to the state of
  its job, and makes a leak of capacity impossible.
\<close>

subsection \<open>Keys of the history tables\<close>

definition history_keys_ok :: "db \<Rightarrow> bool" where
  "history_keys_ok d \<longleftrightarrow> distinct (map attempt_key (t_attempts d)) \<and> distinct (map d_job_id (t_dlq d))"

lemma history_execute:
  "(\<And>d. t_attempts (f d) = t_attempts d \<and> t_dlq (f d) = t_dlq d) \<Longrightarrow>
   keeps history_keys_ok (execute f)"
  by (rule keeps_execute) (simp add: history_keys_ok_def)

lemma history_update_jobs: "keeps history_keys_ok (update_jobs p f)"
  by (auto simp: keeps_def kept_def update_jobs_def durable_ok_def history_keys_ok_def)

lemma history_jobs_repo:
  "keeps history_keys_ok (jobs_create_and_enqueue j st)"
  "keeps history_keys_ok (jobs_conditional_transition jid vf st ex c)"
  "keeps history_keys_ok (jobs_set_cancel_requested jid)"
  "keeps history_keys_ok (jobs_claim now jid w ls)"
  "keeps history_keys_ok (jobs_heartbeat now jid w n ls)"
  "keeps history_keys_ok (jobs_finalize_attempt jid w n st ex c)"
  "keeps history_keys_ok (jobs_reclaim_stale now jid ma t c)"
  "keeps history_keys_ok (jobs_clear_retry_dispatched jid)"
  "keeps history_keys_ok (jobs_update j as)"
  "keeps history_keys_ok (jobs_soft_delete now j)"
  "keeps history_keys_ok (release_reservation now jid n)"
  unfolding jobs_get_def jobs_create_and_enqueue_def jobs_conditional_transition_def
    jobs_set_cancel_requested_def jobs_claim_def jobs_heartbeat_def jobs_finalize_attempt_def
    jobs_reclaim_stale_def jobs_clear_retry_dispatched_def jobs_update_def jobs_soft_delete_def
    release_reservation_def reservations_release_def capacity_release_def
  by (intro keeps_intros history_execute history_update_jobs; simp)+

lemma history_reserve:
  assumes "durable_ok history_keys_ok s" and "history_keys_ok (work s)"
    and "\<And>a. keeps history_keys_ok (f a)"
  shows "kept history_keys_ok
    (bind (reserve_or_reject cpu mem gpu) (\<lambda>_. bind (reservations_insert now jid n cpu mem gpu) f) s)"
proof -
  have "keeps history_keys_ok
    (bind (reserve_or_reject cpu mem gpu) (\<lambda>_. bind (reservations_insert now jid n cpu mem gpu) f))"
    unfolding reserve_or_reject_def capacity_try_reserve_def capacity_get_def reservations_insert_def Let_def
    by (intro keeps_intros history_execute assms(3)) simp_all
  with assms(1,2) show ?thesis by (rule keepsD [rotated 1])
qed

lemma history_attempts:
  "keeps history_keys_ok (attempts_insert now jid n w)"
  "keeps history_keys_ok (attempts_finalize now jid n ast em ec fd c)"
  "keeps history_keys_ok (attempts_mark_lost now jid n w c)"
  "keeps history_keys_ok (dlq_insert now jid n em cls k c)"
  by (auto simp: keeps_def kept_def durable_ok_def prog_defs Let_def history_keys_ok_def
      find_attempt_def attempt_where_def attempt_key_def sql_one_None_iff sql_exists_iff lost_row_def
      split: option.splits if_splits)

lemma history_outbox:
  "keeps history_keys_ok (outbox_insert_event now jid et)"
  "keeps history_keys_ok (outbox_mark_published now oid)"
  "keeps history_keys_ok (decisions_insert row)"
  unfolding outbox_insert_event_def outbox_mark_published_def decisions_insert_def Let_def
  by (intro keeps_intros history_execute; simp)+

interpretation hist: repository_laws history_keys_ok
  by unfold_locales
    (simp_all add: history_jobs_repo history_attempts history_outbox history_reserve keepsD)

subsection \<open>What each transaction commits\<close>

definition same_ledger :: "db \<Rightarrow> db \<Rightarrow> bool" where
  "same_ledger d d' \<longleftrightarrow> t_jobs d' = t_jobs d \<and> t_attempts d' = t_attempts d
   \<and> t_reservations d' = t_reservations d \<and> t_capacity d' = t_capacity d \<and> t_dlq d' = t_dlq d"

definition set_jobs :: "(job \<Rightarrow> bool) \<Rightarrow> (job \<Rightarrow> job) \<Rightarrow> db \<Rightarrow> db" where
  "set_jobs p f d = d\<lparr>t_jobs := sql_update p f (t_jobs d)\<rparr>"

lemma set_jobs_tables [simp]:
  "t_jobs (set_jobs p f d) = sql_update p f (t_jobs d)"
  "t_attempts (set_jobs p f d) = t_attempts d"
  "t_reservations (set_jobs p f d) = t_reservations d"
  "t_capacity (set_jobs p f d) = t_capacity d"
  "t_dlq (set_jobs p f d) = t_dlq d"
  by (simp_all add: set_jobs_def)

lemma same_ledger_refl [simp]: "same_ledger d d"
  by (simp add: same_ledger_def)

lemma release_run:
  assumes "reservation_keys_ok d" and "t_reservations (work s) = t_reservations d"
  shows "release_reservation now jid n s = (Inr (), s\<lparr>work := release_db now jid n (work s)\<rparr>)"
  using assms by (intro release_reservation_run) (simp add: reservation_keys_ok_def)

lemma create_commits:
  "d' \<in> set (commits (create_job now p) d) \<Longrightarrow> d' = d \<or>
   d' = d\<lparr>t_jobs := t_jobs d @ [(new_job now (fresh_id (map j_id (t_jobs d))) p)\<lparr>j_status := QUEUED\<rparr>]\<rparr>"
proof -
  assume d': "d' \<in> set (commits (create_job now p) d)"
  let ?i = "fresh_id (map j_id (t_jobs d))"
  have "?i \<notin> j_id ` set (t_jobs d)" using fresh_id_not_in [of "map j_id (t_jobs d)"] by simp
  then have "sql_update (\<lambda>r. j_id r = ?i) (\<lambda>r. r\<lparr>j_status := QUEUED\<rparr>) (t_jobs d) = t_jobs d"
    by (auto simp: image_iff intro!: sql_update_unmatched)
  with d' show ?thesis
    by (cases "pred_option storable (jc_config p)") (auto simp: run_defs prog_defs new_job_def)
qed

lemma config_commits:
  "d' \<in> set (commits (jobs_update j (\<lambda>r. r\<lparr>j_config := Some c\<rparr>)) d) \<Longrightarrow>
   d' = d \<or> d' = set_jobs (\<lambda>r. j_id r = j_id j) (\<lambda>r. r\<lparr>j_config := Some c\<rparr>) d"
  by (cases "storable c") (auto simp: run_defs prog_defs set_jobs_def)

lemma claim_commits:
  "d' \<in> set (commits (jobs_claim now jid w ls) d) \<Longrightarrow>
   d' = d \<or> d' = set_jobs (claim_where now jid d) (claim_set now w ls) d"
  by (auto simp: run_defs prog_defs set_jobs_def split: if_splits)

lemma heartbeat_commits:
  "d' \<in> set (commits (jobs_heartbeat now jid w n ls) d) \<Longrightarrow>
   d' = d \<or> d' = set_jobs (holds_lease jid w n) (\<lambda>j. j\<lparr>j_lease_expires_at := Some (now + seconds ls)\<rparr>) d"
  by (auto simp: run_defs prog_defs set_jobs_def)

lemma attempt_commits:
  "d' \<in> set (commits (attempts_insert now jid n w) d) \<Longrightarrow> d' = d \<or>
   find_attempt jid n d = None \<and>
   d' = d\<lparr>t_attempts := t_attempts d @ [\<lparr>a_job_id = jid, a_attempt_number = n, a_worker_id = w,
     a_status = ARunning, a_started_at = now, a_finished_at = None, a_error_message = None,
     a_error_classification = None, a_failure_domain = None\<rparr>]\<rparr>"
  by (auto simp: run_defs prog_defs Let_def split: if_splits)

lemma frame_commits:
  "d' \<in> set (commits (bind (decisions_insert row) (\<lambda>_. commit)) d) \<Longrightarrow> same_ledger d d'"
  "d' \<in> set (commits (outbox_insert_event now jid et) d) \<Longrightarrow> same_ledger d d'"
  by (auto simp: run_defs prog_defs same_ledger_def)

lemma clear_commits:
  "d' \<in> set (commits (bind (jobs_clear_retry_dispatched jid) (\<lambda>_. commit)) d) \<Longrightarrow>
   d' = d \<or> d' = set_jobs (\<lambda>j. j_id j = jid) (\<lambda>j. j\<lparr>j_next_retry_at := None\<rparr>) d"
  by (auto simp: run_defs prog_defs set_jobs_def)

lemma dispatch_commits:
  "d' \<in> set (commits (dispatch_one now j) d) \<Longrightarrow> same_ledger d d' \<or>
   same_ledger (set_jobs (\<lambda>k. j_id k = j_id j) (\<lambda>k. k\<lparr>j_next_retry_at := None\<rparr>) d) d'"
  by (auto simp: run_defs prog_defs set_jobs_def dispatch_one_def same_ledger_def)

text \<open>A cancellation of the row it has just read.\<close>

lemma cancel_commits:
  assumes "reservation_keys_ok d" and "job_ids_ok d" and "d' \<in> set (commits (cancel_job now jid) d)"
  shows "d' = d
   \<or> (\<exists>j. find_job jid d = Some j \<and> j_status j = QUEUED \<and>
        d' = release_db now jid (j_attempt_number j + 1)
               (set_jobs (\<lambda>k. j_id k = jid \<and> j_status k \<in> {QUEUED, RUNNING} \<and> j_deleted_at k = None)
                 (\<lambda>k. k\<lparr>j_status := CANCELLED\<rparr>) d))
   \<or> d' = set_jobs (\<lambda>k. j_id k = jid \<and> j_status k = RUNNING \<and> j_deleted_at k = None)
            (\<lambda>k. k\<lparr>j_cancel_requested := True\<rparr>) d"
proof (cases "find_job jid d")
  case None
  with assms(3) show ?thesis
    by (simp add: commits_def begin_session_def cancel_job_def get_job_def jobs_get_def prog_defs)
next
  case (Some j)
  have c: "cancel_job now jid (begin_session d) = cancel_from now jid j (begin_session d)"
    using Some by (simp add: cancel_job_def get_job_def jobs_get_def begin_session_def
        bind_def query_def ret_def)
  show ?thesis
  proof (cases "j_status j = PENDING \<or> j_status j = QUEUED")
    case True
    note rel = release_run [OF assms(1), where now = now and jid = jid and n = "j_attempt_number j + 1"]
    let ?p = "\<lambda>k. j_id k = jid \<and> j_status k \<in> {QUEUED, RUNNING} \<and> j_deleted_at k = None"
    have found: "sql_one (\<lambda>k. j_id k = jid \<and> j_deleted_at k = None)
        (sql_update ?p (\<lambda>k. k\<lparr>j_status := CANCELLED\<rparr>) (t_jobs d))
        = Some ((if ?p j then (\<lambda>k. k\<lparr>j_status := CANCELLED\<rparr>) else id) j)"
      using Some by (subst sql_one_update) (auto simp: find_job_def)
    have run: "cancel_job now jid (begin_session d) =
        (if rowcount ?p (t_jobs d) = 0 then (Inl (HTTPException 409), begin_session d)
         else (Inr ((if ?p j then (\<lambda>k. k\<lparr>j_status := CANCELLED\<rparr>) else id) j),
               let d1 = release_db now jid (j_attempt_number j + 1) (set_jobs ?p (\<lambda>k. k\<lparr>j_status := CANCELLED\<rparr>) d)
               in \<lparr>work = d1, durable = [d1, d]\<rparr>))"
      unfolding c using True found
      by (simp add: cancel_from_def jobs_conditional_transition_def jobs_get_def find_job_def
          sources_for_values set_jobs_def begin_session_def prog_defs rel Let_def
          del: status_value.simps release_reservation_def)
    have "j_status j = QUEUED" if ne: "rowcount ?p (t_jobs d) \<noteq> 0"
    proof -
      obtain k where "k \<in> set (t_jobs d)" "?p k" using ne unfolding rowcount_0_iff by blast
      moreover have "j \<in> set (t_jobs d)" "j_id j = jid"
        using Some by (auto simp: find_job_def dest: sql_one_SomeD)
      ultimately have "k = j" using assms(2) by (auto simp: job_ids_ok_def intro: distinct_map_eqD)
      with \<open>?p k\<close> True show ?thesis by auto
    qed
    with assms(3) Some show ?thesis
      unfolding commits_def run by (auto simp: begin_session_def Let_def split: if_splits)
  next
    case False
    with assms(3) c show ?thesis
      by (auto simp: commits_def cancel_from_def jobs_set_cancel_requested_def get_job_def jobs_get_def
          prog_defs set_jobs_def begin_session_def split: if_splits option.splits)
  qed
qed

lemma relay_commits:
  assumes "d' \<in> set (commits (relay_once now send) d)"
  shows "same_ledger d d'"
proof -
  have m: "keeps (same_ledger d) (outbox_mark_published now oid)" for oid
    unfolding outbox_mark_published_def
    by (intro keeps_intros keeps_execute) (simp add: same_ledger_def)
  have "keeps (same_ledger d) (relay_rows now send rows k)" for rows k
    by (induction rows arbitrary: k) (auto intro!: keeps_intros m split: option.split)
  then have "keeps (same_ledger d) (relay_once now send)"
    unfolding relay_once_def by (intro keeps_intros)
  then show ?thesis using assms keeps_commits same_ledger_refl by blast
qed

text \<open>An admission of the row the scheduler has just read.\<close>

definition reserved_db :: "time \<Rightarrow> job \<Rightarrow> int \<Rightarrow> int \<Rightarrow> int \<Rightarrow> capacity \<Rightarrow> db \<Rightarrow> db" where
  "reserved_db now j cpu mem gpu c d = d\<lparr>t_capacity := Some (reserve_set cpu mem gpu c),
     t_reservations := t_reservations d @ [\<lparr>r_job_id = j_id j, r_attempt_number = j_attempt_number j + 1,
       r_cpu = cpu, r_memory_mb = mem, r_gpu = gpu, r_status = ACTIVE, r_created_at = now,
       r_released_at = None\<rparr>]\<rparr>"

definition admissible :: "time \<Rightarrow> job \<Rightarrow> int \<Rightarrow> int \<Rightarrow> int \<Rightarrow> capacity \<Rightarrow> db \<Rightarrow> bool" where
  "admissible now j cpu mem gpu c d \<longleftrightarrow> t_capacity d = Some c \<and> reserve_where cpu mem gpu c
   \<and> find_reservation (j_id j) (j_attempt_number j + 1) d = None
   \<and> (\<exists>fresh. find_job (j_id j) d = Some fresh \<and> j_status fresh = QUEUED
        \<and> \<not> j_cancel_requested fresh \<and> not_after (j_next_retry_at fresh) now)"

lemma eligible_run:
  "check_eligible now j s = (case find_job (j_id j) (work s) of
     None \<Rightarrow> (Inl (Reject ''job_no_longer_eligible'' None), s)
   | Some fresh \<Rightarrow>
       if j_status fresh \<noteq> QUEUED \<or> j_cancel_requested fresh \<or> \<not> not_after (j_next_retry_at fresh) now
       then (Inl (Reject ''job_no_longer_eligible'' None), s)
       else if sql_exists (\<lambda>r. r_job_id r = j_id j \<and> r_attempt_number r = j_attempt_number j + 1
                 \<and> r_status r = ACTIVE) (t_reservations (work s))
       then (Inl (Reject ''already_reserved'' None), s)
       else (Inr (), s))"
  by (auto simp: prog_defs sql_one_None_iff sql_exists_iff split: option.splits)

lemma reserve_run:
  "reserve_or_reject cpu mem gpu s = (case t_capacity (work s) of
     None \<Rightarrow> (Inl PyAttributeError, s)
   | Some c \<Rightarrow>
       if reserve_where cpu mem gpu c
       then (Inr (), s\<lparr>work := (work s)\<lparr>t_capacity := Some (reserve_set cpu mem gpu c)\<rparr>\<rparr>)
       else (Inl (Reject (which_dimension_insufficient c cpu mem gpu) (Some c)), s))"
  by (auto simp: prog_defs split: option.splits)

lemma reservations_insert_run:
  "reservations_insert now jid n cpu mem gpu s =
     (if find_reservation jid n (work s) \<noteq> None then (Inl IntegrityError, s)
      else let r = \<lparr>r_job_id = jid, r_attempt_number = n, r_cpu = cpu, r_memory_mb = mem, r_gpu = gpu,
               r_status = ACTIVE, r_created_at = now, r_released_at = None\<rparr>
           in (Inr r, s\<lparr>work := (work s)\<lparr>t_reservations := t_reservations (work s) @ [r]\<rparr>\<rparr>))"
  by (auto simp: prog_defs Let_def)

text \<open>The body of an admission, run to its end: it reserves, or raises before any commit.\<close>

lemma admit_body_run:
  "(\<exists>c. admissible now j cpu mem gpu c (work s) \<and>
      (\<exists>s'. admit_body cfg now j cpu mem gpu s = (Inr True, s') \<and>
        (\<exists>d1 d2. durable s' = d2 # d1 # durable s
          \<and> same_ledger (reserved_db now j cpu mem gpu c (work s)) d1
          \<and> same_ledger (reserved_db now j cpu mem gpu c (work s)) d2)))
   \<or> (\<exists>e s'. admit_body cfg now j cpu mem gpu s = (Inl e, s') \<and> durable s' = durable s
        \<and> (\<forall>c. \<not> admissible now j cpu mem gpu c (work s)))"
proof (cases "\<exists>c. admissible now j cpu mem gpu c (work s)")
  case True
  then obtain c where c: "admissible now j cpu mem gpu c (work s)" by blast
  then have "find_reservation (j_id j) (j_attempt_number j + 1) (work s) = None"
    by (simp add: admissible_def)
  then have "\<not> sql_exists (\<lambda>r. r_job_id r = j_id j \<and> r_attempt_number r = j_attempt_number j + 1
                 \<and> r_status r = ACTIVE) (t_reservations (work s))"
    by (auto simp: find_reservation_def sql_one_None_iff sql_exists_iff)
  with c show ?thesis
    by (auto simp: admissible_def admit_body_def bind_def eligible_run reserve_run
        reservations_insert_run find_reservation_def Let_def outbox_insert_event_def capacity_get_def
        decisions_insert_def query_def execute_def commit_def ret_def same_ledger_def reserved_db_def)
next
  case False
  then show ?thesis
    by (auto simp: admissible_def admit_body_def bind_def eligible_run reserve_run
        reservations_insert_run find_reservation_def Let_def split: option.splits if_splits)
qed

lemma record_waiting_commits:
  "d' \<in> set (durable (snd (record_waiting cfg now j cpu mem gpu reason snap s))) \<Longrightarrow>
   d' \<in> set (durable s) \<or> same_ledger (hd (durable s)) d'"
  by (auto simp: record_waiting_def prog_defs same_ledger_def split: option.splits)

lemma admit_commits:
  assumes "d' \<in> set (commits (try_admit cfg now j) d)"
  shows "same_ledger d d' \<or> (\<exists>cpu mem gpu c. resource_request cfg j = Inr (cpu, mem, gpu)
     \<and> admissible now j cpu mem gpu c d \<and> same_ledger (reserved_db now j cpu mem gpu c d) d')"
proof (cases "resource_request cfg j")
  case (Inl e)
  with assms show ?thesis by (simp add: run_defs try_admit_def raise_def)
next
  case (Inr a)
  then obtain cpu mem gpu where r: "resource_request cfg j = Inr (cpu, mem, gpu)" by (cases a) auto
  let ?b = "admit_body cfg now j cpu mem gpu (begin_session d)"
  from admit_body_run [of now j cpu mem gpu "begin_session d" cfg] show ?thesis
  proof (elim disjE exE conjE)
    fix c s' d1 d2
    assume "admissible now j cpu mem gpu c (work (begin_session d))" "?b = (Inr True, s')"
      "durable s' = d2 # d1 # durable (begin_session d)"
      "same_ledger (reserved_db now j cpu mem gpu c (work (begin_session d))) d1"
      "same_ledger (reserved_db now j cpu mem gpu c (work (begin_session d))) d2"
    with assms r show ?thesis
      by (auto simp: commits_def try_admit_def try_except_def begin_session_def)
  next
    fix e s' assume "?b = (Inl e, s')" "durable s' = durable (begin_session d)"
    with assms r show ?thesis
      using record_waiting_commits [of d' cfg now j cpu mem gpu _ _ s']
      by (cases e) (auto simp: commits_def try_admit_def try_except_def begin_session_def raise_def)
  qed
qed

text \<open>The end of an attempt, by its worker.\<close>

definition finished_db :: "time \<Rightarrow> uuid \<Rightarrow> string \<Rightarrow> int \<Rightarrow> job_status \<Rightarrow> (job \<Rightarrow> job) \<Rightarrow> (attempt \<Rightarrow> attempt)
   \<Rightarrow> dlq_entry list \<Rightarrow> db \<Rightarrow> db" where
  "finished_db now jid w n st extra done letters d = release_db now jid n
     ((set_jobs (holds_lease jid w n) (finalize_set st extra) d)\<lparr>
        t_attempts := sql_update (attempt_where jid n) done (t_attempts d), t_dlq := t_dlq d @ letters\<rparr>)"

definition letters_ok :: "uuid \<Rightarrow> bool \<Rightarrow> db \<Rightarrow> dlq_entry list \<Rightarrow> bool" where
  "letters_ok jid dead d ls \<longleftrightarrow>
     (if dead then \<exists>e. ls = [e] \<and> d_job_id e = jid \<and> jid \<notin> d_job_id ` set (t_dlq d) else ls = [])"

lemma finalize_run:
  "jobs_finalize_attempt jid w n st ex False s =
     (Inr (if rowcount (holds_lease jid w n) (t_jobs (work s)) = 0 then None
           else find_job jid (set_jobs (holds_lease jid w n) (finalize_set st ex) (work s))),
      s\<lparr>work := set_jobs (holds_lease jid w n) (finalize_set st ex) (work s)\<rparr>)"
  by (auto simp: prog_defs set_jobs_def)

lemma attempts_finalize_run:
  "attempts_finalize now jid n ast em cl fd False s =
     (Inr (map_option (finish_attempt_row now ast em cl fd) (find_attempt jid n (work s))),
      s\<lparr>work := (work s)\<lparr>t_attempts :=
        sql_update (attempt_where jid n) (finish_attempt_row now ast em cl fd) (t_attempts (work s))\<rparr>\<rparr>)"
  by (auto simp: prog_defs find_attempt_def sql_one_None_iff sql_update_unmatched split: option.splits)

lemma finish_with_commits:
  assumes k: "reservation_keys_ok d"
    and b: "\<And>s. (\<exists>ls. letters_ok jid dead (work s) ls \<and> b s = (Inr (), s\<lparr>work := (work s)\<lparr>t_dlq := t_dlq (work s) @ ls\<rparr>\<rparr>))
                 \<or> (\<exists>e. b s = (Inl e, s))"
    and d': "d' \<in> set (commits (finish_with now jid w n st ex ast em cl fd b) d)"
  shows "d' = d \<or> (\<exists>j ls. j \<in> set (t_jobs d) \<and> holds_lease jid w n j \<and> letters_ok jid dead d ls
     \<and> d' = finished_db now jid w n st ex (finish_attempt_row now ast em cl fd) ls d)"
proof -
  let ?d1 = "set_jobs (holds_lease jid w n) (finalize_set st ex) d"
  let ?d2 = "?d1\<lparr>t_attempts := sql_update (attempt_where jid n) (finish_attempt_row now ast em cl fd) (t_attempts d)\<rparr>"
  let ?m = "bind b (\<lambda>_. bind (release_reservation now jid n) (\<lambda>_. bind commit (\<lambda>_. ret ''claimed'')))"
  have run: "finish_with now jid w n st ex ast em cl fd b (begin_session d) =
      (if rowcount (holds_lease jid w n) (t_jobs d) = 0 \<or> find_job jid ?d1 = None
       then (Inr ''fenced_out'', begin_session d)
       else ?m \<lparr>work = ?d2, durable = [d]\<rparr>)"
    by (simp add: finish_with_def bind_def [of "jobs_finalize_attempt jid w n st ex False"]
        bind_def [of "attempts_finalize now jid n ast em cl fd False"] finalize_run attempts_finalize_run
        begin_session_def) (auto simp: bind_def rollback_def ret_def)
  show ?thesis
  proof (cases "rowcount (holds_lease jid w n) (t_jobs d) = 0 \<or> find_job jid ?d1 = None")
    case True
    with d' run show ?thesis by (simp add: commits_def begin_session_def)
  next
    case False
    then obtain j where j: "j \<in> set (t_jobs d)" "holds_lease jid w n j" unfolding rowcount_0_iff by blast
    from b [of "\<lparr>work = ?d2, durable = [d]\<rparr>"] show ?thesis
    proof (elim disjE exE conjE)
      fix ls
      assume ls: "letters_ok jid dead (work \<lparr>work = ?d2, durable = [d]\<rparr>) ls"
        "b \<lparr>work = ?d2, durable = [d]\<rparr> = (Inr (), \<lparr>work = ?d2, durable = [d]\<rparr>\<lparr>work :=
            (work \<lparr>work = ?d2, durable = [d]\<rparr>)\<lparr>t_dlq := t_dlq (work \<lparr>work = ?d2, durable = [d]\<rparr>) @ ls\<rparr>\<rparr>)"
      then have "commits (finish_with now jid w n st ex ast em cl fd b) d =
          [finished_db now jid w n st ex (finish_attempt_row now ast em cl fd) ls d, d]"
        unfolding commits_def run if_not_P [OF False]
        by (simp add: bind_def release_run [OF k] commit_def ret_def finished_db_def)
      moreover have "letters_ok jid dead d ls" using ls(1) by (cases dead) (simp_all add: letters_ok_def)
      ultimately show ?thesis using d' j by auto
    next
      fix e assume "b \<lparr>work = ?d2, durable = [d]\<rparr> = (Inl e, \<lparr>work = ?d2, durable = [d]\<rparr>)"
      then have "commits (finish_with now jid w n st ex ast em cl fd b) d = [d]"
        unfolding commits_def run if_not_P [OF False] by (simp add: bind_def)
      with d' show ?thesis by simp
    qed
  qed
qed

lemma no_letters:
  "(\<exists>ls. letters_ok jid False (work s) ls \<and> ret () s = (Inr (), s\<lparr>work := (work s)\<lparr>t_dlq := t_dlq (work s) @ ls\<rparr>\<rparr>))
   \<or> (\<exists>e. ret () s = (Inl e, s))"
  by (rule disjI1, rule exI [of _ "[]"]) (simp add: letters_ok_def ret_def)

lemma one_letter:
  "(\<exists>ls. letters_ok jid True (work s) ls \<and> bind (dlq_insert now jid n em cls n False) (\<lambda>_. ret ()) s
          = (Inr (), s\<lparr>work := (work s)\<lparr>t_dlq := t_dlq (work s) @ ls\<rparr>\<rparr>))
   \<or> (\<exists>e. bind (dlq_insert now jid n em cls n False) (\<lambda>_. ret ()) s = (Inl e, s))"
proof (cases "jid \<in> d_job_id ` set (t_dlq (work s))")
  case True
  then show ?thesis by (auto simp: prog_defs Let_def sql_exists_iff)
next
  case False
  let ?e = "\<lparr>d_job_id = jid, d_moved_to_dlq_at = now, d_last_attempt_number = n,
     d_last_error_message = em, d_last_error_classification = cls, d_total_attempts = n\<rparr>"
  from False show ?thesis
    by (intro disjI1 exI [of _ "[?e]"]) (auto simp: prog_defs Let_def letters_ok_def sql_exists_iff)
qed

text \<open>The statuses a worker may end an attempt with, and what goes with each.\<close>

definition ending_ok :: "settings \<Rightarrow> int \<Rightarrow> job_status \<Rightarrow> (job \<Rightarrow> job) \<Rightarrow> attempt_status \<Rightarrow> bool" where
  "ending_ok cfg n st ex ast \<longleftrightarrow>
     (st = CANCELLED \<and> ex = id \<and> ast = ACancelled)
   \<or> (st = SUCCEEDED \<and> ex = id \<and> ast = ASucceeded)
   \<or> (st = QUEUED \<and> (\<exists>t. ex = (\<lambda>j. j\<lparr>j_next_retry_at := Some t\<rparr>)) \<and> n < max_attempts cfg \<and> ast = AFailed)
   \<or> (st = FAILED \<and> ex = id \<and> ast = AFailed)"

lemma finish_commits:
  assumes "reservation_keys_ok d" and "d' \<in> set (commits (finish_decided cfg now u jid w n out b) d)"
  shows "d' = d \<or> (\<exists>j ls st ex ast em cl fd. j \<in> set (t_jobs d) \<and> holds_lease jid w n j
     \<and> letters_ok jid (st = FAILED) d ls \<and> ending_ok cfg n st ex ast
     \<and> d' = finished_db now jid w n st ex (finish_attempt_row now ast em cl fd) ls d)"
proof -
  have plain: "?thesis" if "d' \<in> set (commits (finish_with now jid w n st ex ast em cl fd (ret ())) d)"
    "st \<noteq> FAILED" "ending_ok cfg n st ex ast" for st ex ast em cl fd
    using finish_with_commits [OF assms(1) no_letters that(1)] that(2,3) by metis
  have dead: "?thesis" if "d' \<in> set (commits (finish_with now jid w n FAILED id AFailed em cl fd
      (bind (dlq_insert now jid n em' cls n False) (\<lambda>_. ret ()))) d)" for em cl fd em' cls
  proof -
    have "ending_ok cfg n FAILED id AFailed" by (simp add: ending_ok_def)
    moreover have "(FAILED = FAILED) = True" by simp
    ultimately show ?thesis using finish_with_commits [OF assms(1) one_letter that] by metis
  qed
  show ?thesis
  proof (cases "b \<or> out_status out = SUCCEEDED")
    case True
    with assms(2) plain show ?thesis
      by (auto simp: finish_decided_def ending_ok_def split: if_splits)
  next
    case False
    let ?cls = "case out_error_classification out of None \<Rightarrow> UNKNOWN | Some c \<Rightarrow> if c = [] then UNKNOWN else c"
    let ?next = "compute_next_retry_at now u n (base_delay_seconds cfg) (max_delay_seconds cfg) (jitter_ratio cfg)"
    show ?thesis
    proof (cases "is_retryable ?cls n (max_attempts cfg)")
      case retry: True
      show ?thesis
      proof (cases ?next)
        case None
        with False retry assms(2) show ?thesis
          by (simp add: finish_decided_def Let_def commits_def raise_def begin_session_def)
      next
        case (Some t)
        have "d' \<in> set (commits (finish_with now jid w n QUEUED (\<lambda>j. j\<lparr>j_next_retry_at := Some t\<rparr>)
            AFailed (out_error_message out) (Some ?cls) (out_failure_domain out) (ret ())) d)"
          using False retry Some assms(2) by (simp add: finish_decided_def Let_def)
        then show ?thesis
          by (rule plain) (use retry in \<open>auto simp: ending_ok_def is_retryable_def\<close>)
      qed
    next
      case fatal: False
      have "d' \<in> set (commits (finish_with now jid w n FAILED id AFailed (out_error_message out) (Some ?cls)
          (out_failure_domain out) (bind (dlq_insert now jid n (out_error_message out) ?cls n False) (\<lambda>_. ret ()))) d)"
        using False fatal assms(2) by (simp add: finish_decided_def Let_def)
      then show ?thesis by (rule dead)
    qed
  qed
qed

definition reclaimed_db :: "settings \<Rightarrow> time \<Rightarrow> time \<Rightarrow> uuid \<Rightarrow> int \<Rightarrow> string \<Rightarrow> db \<Rightarrow> db" where
  "reclaimed_db cfg now t jid n w d = release_db now jid n
     ((set_jobs (stale_where now jid) (reclaim_set (max_attempts cfg) t) d)\<lparr>t_attempts :=
        (if find_attempt jid n d = None then t_attempts d @ [lost_row now jid n w]
         else sql_update (attempt_where jid n) (lost_set now) (t_attempts d))\<rparr>)"

lemma mark_lost_run:
  "attempts_mark_lost now jid n w False s = (Inr (), s\<lparr>work := (work s)\<lparr>t_attempts :=
     (if find_attempt jid n (work s) = None then t_attempts (work s) @ [lost_row now jid n w]
      else sql_update (attempt_where jid n) (lost_set now) (t_attempts (work s)))\<rparr>\<rparr>)"
  by (auto simp: prog_defs split: option.splits)

lemma reclaim_commits:
  assumes "reservation_keys_ok d" and "d' \<in> set (commits (reclaim_one cfg now u j) d)"
  shows "d' = d \<or> (\<exists>k t w. k \<in> set (t_jobs d) \<and> stale_where now (j_id j) k
     \<and> d' = reclaimed_db cfg now t (j_id j) (j_attempt_number k) w d)"
proof (cases "compute_next_retry_at now u (j_attempt_number j + 1) (base_delay_seconds cfg)
             (max_delay_seconds cfg) (jitter_ratio cfg)")
  case None
  with assms(2) show ?thesis by (simp add: run_defs reclaim_one_def raise_def)
next
  case (Some t)
  show ?thesis
  proof (cases "sql_one (stale_where now (j_id j)) (t_jobs d)")
    case None
    with assms(2) Some show ?thesis by (simp add: run_defs reclaim_one_def prog_defs)
  next
    case (Some k)
    let ?w = "case j_lease_owner j of None \<Rightarrow> ''unknown'' | Some w \<Rightarrow> if w = [] then ''unknown'' else w"
    have "commits (reclaim_one cfg now u j) d =
        [reclaimed_db cfg now t (j_id j) (j_attempt_number k) ?w d, d]"
      using \<open>compute_next_retry_at _ _ _ _ _ _ = Some t\<close> Some
      by (simp add: commits_def reclaim_one_def bind_def jobs_reclaim_stale_def query_def update_jobs_def
          commit_if_def ret_def begin_session_def mark_lost_run release_run [OF assms(1)] commit_def
          reclaimed_db_def set_jobs_def find_attempt_def reclaim_set_def Let_def)
    with assms(2) sql_one_SomeD [OF Some] show ?thesis by auto
  qed
qed

end
