(* ===== verification/Ledger.thy ===== *)
theory Ledger
  imports Lifecycle
begin

text \<open>
  The disciplined system \<open>core_txn\<close> and its invariant \<open>ledger\<close>: which rows of the
  reservations, attempts and dead letters a job in each state has.  It is proved for one
  job at a time: \<open>ledger_step\<close> says what a transaction that touches one job must
  establish, and each effect of \<open>Lifecycle\<close> is an instance.
\<close>

inductive core_txn :: "settings \<Rightarrow> db \<Rightarrow> db \<Rightarrow> bool" for cfg :: settings where
  c_create: "d' \<in> set (commits (create_job now p) d) \<Longrightarrow> core_txn cfg d d'"
| c_config: "d' \<in> set (commits (jobs_update j (\<lambda>r. r\<lparr>j_config := Some c\<rparr>)) d) \<Longrightarrow> core_txn cfg d d'"
| c_cancel: "d' \<in> set (commits (cancel_job now jid) d) \<Longrightarrow> core_txn cfg d d'"
| c_admit: "find_job (j_id j) d = Some j \<Longrightarrow> d' \<in> set (commits (try_admit cfg now j) d) \<Longrightarrow> core_txn cfg d d'"
| c_decision: "d' \<in> set (commits (bind (decisions_insert row) (\<lambda>_. commit)) d) \<Longrightarrow> core_txn cfg d d'"
| c_claim: "d' \<in> set (commits (jobs_claim now jid w (lease_duration_seconds cfg)) d) \<Longrightarrow> core_txn cfg d d'"
| c_attempt: "(\<exists>j \<in> set (t_jobs d). holds_lease jid w n j) \<or> find_attempt jid n d \<noteq> None \<Longrightarrow>
    d' \<in> set (commits (attempts_insert now jid n w) d) \<Longrightarrow> core_txn cfg d d'"
| c_heartbeat:
    "d' \<in> set (commits (jobs_heartbeat now jid w n (lease_duration_seconds cfg)) d) \<Longrightarrow> core_txn cfg d d'"
| c_finish: "d' \<in> set (commits (finish_decided cfg now u jid w n out b) d) \<Longrightarrow> core_txn cfg d d'"
| c_reclaim: "d' \<in> set (commits (reclaim_one cfg now u j) d) \<Longrightarrow> core_txn cfg d d'"
| c_dispatch: "d' \<in> set (commits (dispatch_one now j) d) \<Longrightarrow> core_txn cfg d d'"
| c_clear: "d' \<in> set (commits (bind (jobs_clear_retry_dispatched jid) (\<lambda>_. commit)) d) \<Longrightarrow> core_txn cfg d d'"
| c_relay: "d' \<in> set (commits (relay_once now send) d) \<Longrightarrow> core_txn cfg d d'"

lemma core_txn_txn: "core_txn cfg d d' \<Longrightarrow> txn cfg d d'"
  by (induction rule: core_txn.induct) (blast intro: txn.intros)+

lemma core_run_txn: "(core_txn cfg)\<^sup>*\<^sup>* d d' \<Longrightarrow> (txn cfg)\<^sup>*\<^sup>* d d'"
  by (induction rule: rtranclp_induct) (auto intro: core_txn_txn rtranclp.rtrancl_into_rtrancl)

subsection \<open>The invariant\<close>

definition job_ok :: "settings \<Rightarrow> job \<Rightarrow> bool" where
  "job_ok cfg j \<longleftrightarrow> j_deleted_at j = None \<and> j_status j \<noteq> PENDING
   \<and> 0 \<le> j_attempt_number j \<and> j_attempt_number j \<le> max_attempts cfg
   \<and> (j_status j = QUEUED \<longrightarrow> j_attempt_number j < max_attempts cfg)
   \<and> (if j_status j = RUNNING
      then 1 \<le> j_attempt_number j \<and> j_lease_owner j \<noteq> None \<and> j_lease_expires_at j \<noteq> None
      else j_lease_owner j = None \<and> j_lease_expires_at j = None)"

definition holds_reservation :: "job \<Rightarrow> reservation \<Rightarrow> bool" where
  "holds_reservation j r \<longleftrightarrow>
     j_status j = RUNNING \<and> r_attempt_number r = j_attempt_number j
   \<or> j_status j = QUEUED \<and> r_attempt_number r = j_attempt_number j + 1"

definition reservation_ok :: "job \<Rightarrow> reservation \<Rightarrow> bool" where
  "reservation_ok j r \<longleftrightarrow> 1 \<le> r_attempt_number r \<and>
     (if r_status r = ACTIVE then holds_reservation j r
      else \<not> holds_reservation j r \<and> (r_attempt_number r \<le> j_attempt_number j
             \<or> r_attempt_number r = j_attempt_number j + 1 \<and> terminal (j_status j)))"

definition attempt_ok :: "job \<Rightarrow> attempt \<Rightarrow> bool" where
  "attempt_ok j a \<longleftrightarrow> 1 \<le> a_attempt_number a \<and> a_attempt_number a \<le> j_attempt_number j
   \<and> (a_status a = ARunning \<longrightarrow> j_status j = RUNNING \<and> a_attempt_number a = j_attempt_number j)"

definition backed :: "db \<Rightarrow> job \<Rightarrow> bool" where
  "backed d j \<longleftrightarrow> (j_status j = RUNNING \<longrightarrow> (\<exists>r \<in> set (t_reservations d).
     r_job_id r = j_id j \<and> r_attempt_number r = j_attempt_number j \<and> r_status r = ACTIVE))"

definition ledger :: "settings \<Rightarrow> db \<Rightarrow> bool" where
  "ledger cfg d \<longleftrightarrow>
     (\<forall>j \<in> set (t_jobs d). job_ok cfg j \<and> backed d j)
   \<and> (\<forall>r \<in> set (t_reservations d). \<exists>j \<in> set (t_jobs d). j_id j = r_job_id r \<and> reservation_ok j r)
   \<and> (\<forall>a \<in> set (t_attempts d). \<exists>j \<in> set (t_jobs d). j_id j = a_job_id a \<and> attempt_ok j a)
   \<and> (\<forall>e \<in> set (t_dlq d). \<exists>j \<in> set (t_jobs d). j_id j = d_job_id e \<and> j_status j = FAILED)"

lemma ledger_same: "same_ledger d d' \<Longrightarrow> ledger cfg d' = ledger cfg d"
  by (simp add: same_ledger_def ledger_def backed_def)

text \<open>With unique identifiers, what the invariant says of a row is said of its job.\<close>

lemma ledger_rows:
  assumes "ledger cfg d" and "distinct (map j_id (t_jobs d))" and "j \<in> set (t_jobs d)"
  shows "job_ok cfg j" and "backed d j"
    and "r \<in> set (t_reservations d) \<Longrightarrow> r_job_id r = j_id j \<Longrightarrow> reservation_ok j r"
    and "a \<in> set (t_attempts d) \<Longrightarrow> a_job_id a = j_id j \<Longrightarrow> attempt_ok j a"
    and "e \<in> set (t_dlq d) \<Longrightarrow> d_job_id e = j_id j \<Longrightarrow> j_status j = FAILED"
  using assms unfolding ledger_def by (metis distinct_map_eqD)+

text \<open>What a transaction that replaces the row \<open>j\<close> by \<open>j'\<close> owes.\<close>

lemma ledger_step:
  assumes L: "ledger cfg d" and ids: "distinct (map j_id (t_jobs d))" and j: "j \<in> set (t_jobs d)"
    and J: "set (t_jobs d') = insert j' (set (t_jobs d) - {j})" and id: "j_id j' = j_id j"
    and ok: "job_ok cfg j'" "backed d' j'"
    and R: "\<And>r. r \<in> set (t_reservations d') \<Longrightarrow> r_job_id r = j_id j \<Longrightarrow> reservation_ok j' r"
    and Ro: "\<And>r. r_job_id r \<noteq> j_id j \<Longrightarrow> r \<in> set (t_reservations d') \<longleftrightarrow> r \<in> set (t_reservations d)"
    and A: "\<And>a. a \<in> set (t_attempts d') \<Longrightarrow> a_job_id a = j_id j \<Longrightarrow> attempt_ok j' a"
    and Ao: "\<And>a. a_job_id a \<noteq> j_id j \<Longrightarrow> a \<in> set (t_attempts d') \<Longrightarrow> a \<in> set (t_attempts d)"
    and D: "\<And>e. e \<in> set (t_dlq d') \<Longrightarrow> d_job_id e = j_id j \<Longrightarrow> j_status j' = FAILED"
    and Do: "\<And>e. d_job_id e \<noteq> j_id j \<Longrightarrow> e \<in> set (t_dlq d') \<Longrightarrow> e \<in> set (t_dlq d)"
  shows "ledger cfg d'"
proof -
  have other: "k \<in> set (t_jobs d')" if "k \<in> set (t_jobs d)" "j_id k \<noteq> j_id j" for k
    using that J by auto
  have j': "j' \<in> set (t_jobs d')" using J by simp
  have "job_ok cfg k \<and> backed d' k" if "k \<in> set (t_jobs d')" for k
  proof (cases "k = j'")
    case True
    with ok show ?thesis by simp
  next
    case False
    with that J have k: "k \<in> set (t_jobs d)" "k \<noteq> j" by auto
    then have "j_id k \<noteq> j_id j" using ids j by (metis distinct_map_eqD)
    with L k(1) Ro show ?thesis unfolding ledger_def backed_def by metis
  qed
  moreover have "\<exists>k \<in> set (t_jobs d'). j_id k = r_job_id r \<and> reservation_ok k r"
    if "r \<in> set (t_reservations d')" for r
    using that R Ro L other j' id unfolding ledger_def by metis
  moreover have "\<exists>k \<in> set (t_jobs d'). j_id k = a_job_id a \<and> attempt_ok k a"
    if "a \<in> set (t_attempts d')" for a
    using that A Ao L other j' id unfolding ledger_def by metis
  moreover have "\<exists>k \<in> set (t_jobs d'). j_id k = d_job_id e \<and> j_status k = FAILED"
    if "e \<in> set (t_dlq d')" for e
    using that D Do L other j' id unfolding ledger_def by metis
  ultimately show ?thesis unfolding ledger_def by blast
qed

subsection \<open>Every transaction keeps it\<close>

lemma set_jobs_one:
  assumes "distinct (map j_id (t_jobs d))" and "j \<in> set (t_jobs d)" and "p j"
    and "\<And>k. p k \<Longrightarrow> j_id k = j_id j"
  shows "set (t_jobs (set_jobs p f d)) = insert (f j) (set (t_jobs d) - {j})"
  unfolding set_jobs_tables by (rule set_sql_update_one [where k = j_id]) (use assms in blast)+

lemma ledger_set_jobs:
  assumes L: "ledger cfg d" and ids: "distinct (map j_id (t_jobs d))"
    and key: "\<And>k. p k \<Longrightarrow> j_id k = jid"
    and step: "\<And>j. j \<in> set (t_jobs d) \<Longrightarrow> p j \<Longrightarrow> job_ok cfg j \<Longrightarrow> backed d j \<Longrightarrow>
        j_id (f j) = j_id j \<and> job_ok cfg (f j) \<and> backed d (f j)
      \<and> (\<forall>r. reservation_ok j r \<longrightarrow> reservation_ok (f j) r)
      \<and> (\<forall>a. attempt_ok j a \<longrightarrow> attempt_ok (f j) a) \<and> (j_status j = FAILED \<longrightarrow> j_status (f j) = FAILED)"
  shows "ledger cfg (set_jobs p f d)"
proof (cases "\<exists>j \<in> set (t_jobs d). p j")
  case False
  then have "sql_update p f (t_jobs d) = t_jobs d" by (simp add: sql_update_unmatched)
  with L show ?thesis by (simp add: set_jobs_def)
next
  case True
  then obtain j where j: "j \<in> set (t_jobs d)" "p j" by blast
  note rows = ledger_rows [OF L ids j(1)]
  note st = step [OF j rows(1,2)]
  have J: "set (t_jobs (set_jobs p f d)) = insert (f j) (set (t_jobs d) - {j})"
    by (rule set_jobs_one [where p = p, OF ids j(1) j(2)]) (simp add: key j(2))
  show ?thesis
    by (rule ledger_step [OF L ids j(1) J]) (use st rows in \<open>auto simp: backed_def\<close>)
qed

lemma release_rows:
  "r_job_id r \<noteq> jid \<Longrightarrow> r \<in> set (sql_update (release_where jid n) (release_set now) t) \<longleftrightarrow> r \<in> set t"
  "r \<in> set (sql_update (release_where jid n) (release_set now) t) \<Longrightarrow>
   \<exists>r0 \<in> set t. r_job_id r = r_job_id r0 \<and> r_attempt_number r = r_attempt_number r0
     \<and> r_status r = (if r_job_id r0 = jid \<and> r_attempt_number r0 = n then RELEASED else r_status r0)"
proof -
  show "r \<in> set (sql_update (release_where jid n) (release_set now) t) \<longleftrightarrow> r \<in> set t" if "r_job_id r \<noteq> jid"
    using that unfolding in_sql_update_iff by (auto simp: release_where_def release_set_def)
  assume "r \<in> set (sql_update (release_where jid n) (release_set now) t)"
  then obtain r0 where r0: "r0 \<in> set t" "r = (if release_where jid n r0 then release_set now r0 else r0)"
    unfolding in_sql_update_iff by blast
  show "\<exists>r0 \<in> set t. r_job_id r = r_job_id r0 \<and> r_attempt_number r = r_attempt_number r0
     \<and> r_status r = (if r_job_id r0 = jid \<and> r_attempt_number r0 = n then RELEASED else r_status r0)"
    by (rule bexI [OF _ r0(1)], cases "r_status r0") (use r0(2) in \<open>auto simp: release_where_def release_set_def\<close>)
qed

lemmas ledger_row_defs = job_ok_def backed_def reservation_ok_def attempt_ok_def holds_reservation_def terminal_def

text \<open>Updates of columns the invariant does not mention.\<close>

lemma ledger_quiet:
  assumes "ledger cfg d" and "distinct (map j_id (t_jobs d))"
  shows "ledger cfg (set_jobs (\<lambda>r. j_id r = i) (\<lambda>r. r\<lparr>j_config := Some c\<rparr>) d)"
    and "ledger cfg (set_jobs (\<lambda>k. j_id k = i) (\<lambda>k. k\<lparr>j_next_retry_at := None\<rparr>) d)"
    and "ledger cfg (set_jobs (\<lambda>k. j_id k = i \<and> j_status k = RUNNING \<and> j_deleted_at k = None)
           (\<lambda>k. k\<lparr>j_cancel_requested := True\<rparr>) d)"
    and "ledger cfg (set_jobs (holds_lease i w n) (\<lambda>k. k\<lparr>j_lease_expires_at := Some t\<rparr>) d)"
  by (rule ledger_set_jobs [OF assms, where jid = i]; simp add: ledger_row_defs holds_lease_def)+

lemma ledger_claim:
  assumes "ledger cfg d" and "distinct (map j_id (t_jobs d))"
  shows "ledger cfg (set_jobs (claim_where now jid d) (claim_set now w ls) d)"
proof (rule ledger_set_jobs [OF assms, where jid = jid])
  fix j assume j: "j \<in> set (t_jobs d)" "claim_where now jid d j" "job_ok cfg j"
  have "backed d (claim_set now w ls j)"
    using j(2) by (auto simp: backed_def claim_where_def claim_set_def sql_exists_iff)
  then show "j_id (claim_set now w ls j) = j_id j \<and> job_ok cfg (claim_set now w ls j)
      \<and> backed d (claim_set now w ls j)
      \<and> (\<forall>r. reservation_ok j r \<longrightarrow> reservation_ok (claim_set now w ls j) r)
      \<and> (\<forall>a. attempt_ok j a \<longrightarrow> attempt_ok (claim_set now w ls j) a)
      \<and> (j_status j = FAILED \<longrightarrow> j_status (claim_set now w ls j) = FAILED)"
    using j(2,3) by (auto simp: claim_where_def claim_set_def job_ok_def reservation_ok_def
        attempt_ok_def holds_reservation_def terminal_def split: if_splits)
qed (simp add: claim_where_def)

text \<open>A transaction that takes a job out of RUNNING or QUEUED and releases what it held.\<close>

lemma ledger_release:
  assumes L: "ledger cfg d" and ids: "distinct (map j_id (t_jobs d))" and j: "j \<in> set (t_jobs d)" "p j"
    and key: "\<And>k. p k \<Longrightarrow> j_id k = j_id j"
    and f: "j_id (f j) = j_id j" "j_attempt_number (f j) = j_attempt_number j" "job_ok cfg (f j)"
      "j_status (f j) \<noteq> RUNNING" "j_status (f j) = QUEUED \<longrightarrow> j_status j = RUNNING"
    and n: "j_status j = RUNNING \<and> n = j_attempt_number j
          \<or> j_status j = QUEUED \<and> n = j_attempt_number j + 1 \<and> terminal (j_status (f j))"
    and A: "\<And>a. a \<in> set ats \<Longrightarrow> a_job_id a = j_id j \<Longrightarrow> attempt_ok (f j) a"
    and Ao: "\<And>a. a_job_id a \<noteq> j_id j \<Longrightarrow> a \<in> set ats \<Longrightarrow> a \<in> set (t_attempts d)"
    and D: "\<And>e. e \<in> set ls \<Longrightarrow> d_job_id e = j_id j \<and> j_status (f j) = FAILED"
  shows "ledger cfg (release_db now (j_id j) n ((set_jobs p f d)\<lparr>t_attempts := ats, t_dlq := t_dlq d @ ls\<rparr>))"
    (is "ledger cfg ?d'")
proof (rule ledger_step [OF L ids j(1), where j' = "f j"])
  note rows = ledger_rows [OF L ids j(1)]
  show "set (t_jobs ?d') = insert (f j) (set (t_jobs d) - {j})"
    using set_jobs_one [where p = p, OF ids j(1,2) key] by simp
  show "backed ?d' (f j)" using f(4) by (simp add: backed_def)
  have T: "t_reservations ?d' = sql_update (release_where (j_id j) n) (release_set now) (t_reservations d)"
    by (simp add: release_db_reservations)
  show "r \<in> set (t_reservations ?d') \<longleftrightarrow> r \<in> set (t_reservations d)" if "r_job_id r \<noteq> j_id j" for r
    unfolding T by (rule release_rows(1) [OF that])
  show "reservation_ok (f j) r" if r: "r \<in> set (t_reservations ?d')" "r_job_id r = j_id j" for r
  proof -
    obtain r0 where r0: "r0 \<in> set (t_reservations d)" "r_job_id r = r_job_id r0"
      "r_attempt_number r = r_attempt_number r0"
      "r_status r = (if r_job_id r0 = j_id j \<and> r_attempt_number r0 = n then RELEASED else r_status r0)"
      using release_rows(2) r(1) unfolding T by blast
    then have "reservation_ok j r0" using rows(3) r(2) by simp
    with r0 r(2) n f(2,4,5) show ?thesis
      by (auto simp: reservation_ok_def holds_reservation_def terminal_def split: if_splits)
  qed
  show "j_status (f j) = FAILED" if "e \<in> set (t_dlq ?d')" "d_job_id e = j_id j" for e
  proof -
    have "e \<notin> set (t_dlq d)" using rows(5) [of e] that(2) n by auto
    with that(1) D show ?thesis by auto
  qed
  show "e \<in> set (t_dlq d)" if "d_job_id e \<noteq> j_id j" "e \<in> set (t_dlq ?d')" for e
    using that D by auto
qed (use f A Ao in auto)

lemma ledger_finish:
  assumes L: "ledger cfg d" and ids: "distinct (map j_id (t_jobs d))"
    and j: "j \<in> set (t_jobs d)" "holds_lease jid w n j"
    and ls: "letters_ok jid (st = FAILED) d ls" and e: "ending_ok cfg n st ex ast"
  shows "ledger cfg (finished_db now jid w n st ex (finish_attempt_row t ast em cl fd) ls d)"
proof -
  note rows = ledger_rows [OF L ids j(1)]
  have jid: "jid = j_id j" "j_status j = RUNNING" "n = j_attempt_number j"
    using j(2) by (auto simp: holds_lease_def)
  have f: "j_id (finalize_set st ex j) = j_id j" "j_attempt_number (finalize_set st ex j) = n"
    "j_status (finalize_set st ex j) = st" "st \<noteq> RUNNING" "ast \<noteq> ARunning"
    "job_ok cfg (finalize_set st ex j)"
    using e rows(1) jid by (auto simp: ending_ok_def finalize_set_def job_ok_def)
  show ?thesis
    unfolding finished_db_def jid(1)
  proof (rule ledger_release [OF L ids j(1)])
    show "holds_lease (j_id j) w n j" using j(2) jid by simp
    fix a
    assume a: "a \<in> set (sql_update (attempt_where (j_id j) n) (finish_attempt_row t ast em cl fd) (t_attempts d))"
    then obtain a0 where a0: "a0 \<in> set (t_attempts d)"
      "a = (if attempt_where (j_id j) n a0 then finish_attempt_row t ast em cl fd a0 else a0)"
      unfolding in_sql_update_iff by blast
    then show "a_job_id a \<noteq> j_id j \<Longrightarrow> a \<in> set (t_attempts d)"
      by (auto simp: attempt_where_def finish_attempt_row_def split: if_splits)
    show "attempt_ok (finalize_set st ex j) a" if "a_job_id a = j_id j"
    proof -
      have "a_job_id a0 = j_id j" using that a0(2) by (auto simp: finish_attempt_row_def split: if_splits)
      then have "attempt_ok j a0" using rows(4) a0(1) by blast
      with a0(2) f jid \<open>a_job_id a0 = j_id j\<close> show ?thesis
        by (auto simp: attempt_ok_def attempt_where_def finish_attempt_row_def)
    qed
  qed (use f jid e ls in \<open>auto simp: holds_lease_def letters_ok_def split: if_splits\<close>)
qed

lemma ledger_reclaim:
  assumes L: "ledger cfg d" and ids: "distinct (map j_id (t_jobs d))"
    and j: "j \<in> set (t_jobs d)" "stale_where now jid j"
  shows "ledger cfg (reclaimed_db cfg now t jid (j_attempt_number j) w d)"
proof -
  note rows = ledger_rows [OF L ids j(1)]
  define n where "n = j_attempt_number j"
  let ?f = "reclaim_set (max_attempts cfg) t"
  have jid: "jid = j_id j" "j_status j = RUNNING" using j(2) by (auto simp: stale_where_def)
  have f: "j_id (?f j) = j_id j" "j_attempt_number (?f j) = n" "j_status (?f j) \<noteq> RUNNING" "job_ok cfg (?f j)"
    using rows(1) jid by (auto simp: reclaim_set_def job_ok_def n_def)
  let ?ats = "if find_attempt (j_id j) n d = None then t_attempts d @ [lost_row now (j_id j) n w]
         else sql_update (attempt_where (j_id j) n) (lost_set now) (t_attempts d)"
  have "ledger cfg (release_db now (j_id j) n ((set_jobs (stale_where now (j_id j)) ?f d)\<lparr>
          t_attempts := ?ats, t_dlq := t_dlq d @ []\<rparr>))"
  proof (rule ledger_release [OF L ids j(1)])
    show "stale_where now (j_id j) j" using j(2) jid by simp
    fix a assume a: "a \<in> set ?ats"
    have cases: "a \<in> set (t_attempts d) \<and> \<not> attempt_where (j_id j) n a
        \<or> a = lost_row now (j_id j) n w \<or> (\<exists>a0 \<in> set (t_attempts d). attempt_where (j_id j) n a0 \<and> a = lost_set now a0)"
      using a by (auto simp: find_attempt_def sql_one_None_iff in_sql_update_iff split: if_splits)
    then show "a_job_id a \<noteq> j_id j \<Longrightarrow> a \<in> set (t_attempts d)"
      by (auto simp: attempt_where_def lost_row_def lost_set_def)
    show "attempt_ok (?f j) a" if "a_job_id a = j_id j"
      using cases that rows(1) rows(4) f jid
      by (auto simp: attempt_ok_def attempt_where_def lost_row_def lost_set_def n_def job_ok_def)
  qed (use f jid in \<open>auto simp: stale_where_def n_def\<close>)
  then show ?thesis unfolding n_def by (simp add: reclaimed_db_def jid(1) set_jobs_def)
qed

lemma ledger_cancel:
  assumes L: "ledger cfg d" and ids: "distinct (map j_id (t_jobs d))"
    and j: "find_job jid d = Some j" "j_status j = QUEUED"
  shows "ledger cfg (release_db now jid (j_attempt_number j + 1)
     (set_jobs (\<lambda>k. j_id k = jid \<and> j_status k \<in> {QUEUED, RUNNING} \<and> j_deleted_at k = None)
       (\<lambda>k. k\<lparr>j_status := CANCELLED\<rparr>) d))"
proof -
  have m: "j \<in> set (t_jobs d)" "j_id j = jid" "j_deleted_at j = None"
    using j(1) by (auto simp: find_job_def dest: sql_one_SomeD)
  note rows = ledger_rows [OF L ids m(1)]
  let ?p = "\<lambda>k. j_id k = j_id j \<and> j_status k \<in> {QUEUED, RUNNING} \<and> j_deleted_at k = None"
  have "ledger cfg (release_db now (j_id j) (j_attempt_number j + 1)
     ((set_jobs ?p (\<lambda>k. k\<lparr>j_status := CANCELLED\<rparr>) d)\<lparr>t_attempts := t_attempts d, t_dlq := t_dlq d @ []\<rparr>))"
    by (rule ledger_release [where p = ?p, OF L ids m(1)])
      (use rows j m in \<open>auto simp: job_ok_def attempt_ok_def terminal_def\<close>)
  then show ?thesis by (simp add: set_jobs_def m(2))
qed

lemma ledger_admit:
  assumes L: "ledger cfg d" and ids: "distinct (map j_id (t_jobs d))"
    and j: "find_job (j_id j) d = Some j" and a: "admissible now j cpu mem gpu c d"
  shows "ledger cfg (reserved_db now j cpu mem gpu c d)" (is "ledger cfg ?d'")
proof -
  have m: "j \<in> set (t_jobs d)" "j_status j = QUEUED"
    using j a by (auto simp: find_job_def admissible_def dest: sql_one_SomeD)
  note rows = ledger_rows [OF L ids m(1)]
  have J: "set (t_jobs ?d') = insert j (set (t_jobs d) - {j})" using m by (auto simp: reserved_db_def)
  show ?thesis
  proof (rule ledger_step [OF L ids m(1) J])
    show "backed ?d' j" using m by (simp add: backed_def)
    show "reservation_ok j r" if r: "r \<in> set (t_reservations ?d')" "r_job_id r = j_id j" for r
    proof (cases "r \<in> set (t_reservations d)")
      case True
      with rows(3) r(2) show ?thesis by blast
    next
      case False
      with r(1) m rows(1) show ?thesis
        by (auto simp: reserved_db_def reservation_ok_def holds_reservation_def job_ok_def)
    qed
  qed (use rows in \<open>auto simp: reserved_db_def\<close>)
qed

lemma ledger_attempt:
  assumes L: "ledger cfg d" and ids: "distinct (map j_id (t_jobs d))"
    and j: "j \<in> set (t_jobs d)" "holds_lease jid w n j"
    and a: "a_job_id a = jid" "a_attempt_number a = n"
  shows "ledger cfg (d\<lparr>t_attempts := t_attempts d @ [a]\<rparr>)" (is "ledger cfg ?d'")
proof -
  note rows = ledger_rows [OF L ids j(1)]
  have J: "set (t_jobs ?d') = insert j (set (t_jobs d) - {j})" using j by auto
  show ?thesis
    by (rule ledger_step [OF L ids j(1) J])
      (use rows j a in \<open>auto simp: attempt_ok_def job_ok_def holds_lease_def backed_def\<close>)
qed

lemma ledger_create:
  assumes "ledger cfg d" and "0 < max_attempts cfg"
  shows "ledger cfg (d\<lparr>t_jobs := t_jobs d @ [(new_job now i p)\<lparr>j_status := QUEUED\<rparr>]\<rparr>)"
  using assms by (fastforce simp: ledger_def job_ok_def backed_def new_job_def)

lemma ledger_core:
  assumes t: "core_txn cfg d d'" and L: "ledger cfg d" and acc: "accounting d" and ids: "job_ids_ok d"
    and pos: "0 < max_attempts cfg"
  shows "ledger cfg d'"
proof -
  have di: "distinct (map j_id (t_jobs d))" using ids by (simp add: job_ids_ok_def)
  have k: "reservation_keys_ok d" using acc by (simp add: accounting_def)
  from t show ?thesis
  proof cases
    case (c_create now p)
    with create_commits ledger_create [OF L pos] L show ?thesis by metis
  next
    case (c_config j c)
    with config_commits ledger_quiet(1) [OF L di] L show ?thesis by metis
  next
    case (c_cancel now jid)
    from cancel_commits [OF k ids c_cancel] show ?thesis
      using ledger_cancel [OF L di] ledger_quiet(3) [OF L di] L by blast
  next
    case (c_admit j now)
    from admit_commits [OF c_admit(2)] show ?thesis
    proof (elim disjE exE conjE)
      assume "same_ledger d d'"
      with L ledger_same show ?thesis by blast
    next
      fix cpu mem gpu c
      assume "admissible now j cpu mem gpu c d" "same_ledger (reserved_db now j cpu mem gpu c d) d'"
      with ledger_admit [OF L di c_admit(1)] ledger_same show ?thesis by blast
    qed
  next
    case (c_decision row)
    with frame_commits(1) L ledger_same show ?thesis by blast
  next
    case (c_claim now jid w)
    with claim_commits ledger_claim [OF L di] L show ?thesis by metis
  next
    case (c_attempt jid w n now)
    from attempt_commits [OF c_attempt(2)] show ?thesis
    proof (elim disjE conjE)
      assume "find_attempt jid n d = None"
      then obtain j where j: "j \<in> set (t_jobs d)" "holds_lease jid w n j" using c_attempt(1) by blast
      assume "d' = d\<lparr>t_attempts := t_attempts d @ [\<lparr>a_job_id = jid, a_attempt_number = n, a_worker_id = w,
        a_status = ARunning, a_started_at = now, a_finished_at = None, a_error_message = None,
        a_error_classification = None, a_failure_domain = None\<rparr>]\<rparr>"
      with ledger_attempt [OF L di j] show ?thesis by simp
    qed (simp add: L)
  next
    case (c_heartbeat now jid w n)
    from heartbeat_commits [OF c_heartbeat] show ?thesis
      using ledger_quiet(4) [OF L di] L by blast
  next
    case (c_finish now u jid w n out b)
    from finish_commits [OF k c_finish] show ?thesis
      using ledger_finish [OF L di] L by blast
  next
    case (c_reclaim now u j)
    from reclaim_commits [OF k c_reclaim] show ?thesis
      using ledger_reclaim [OF L di] L by blast
  next
    case (c_dispatch now j)
    from dispatch_commits [OF c_dispatch] show ?thesis
      using ledger_quiet(2) [OF L di] L ledger_same by blast
  next
    case (c_clear jid)
    from clear_commits [OF c_clear] show ?thesis
      using ledger_quiet(2) [OF L di] L by blast
  next
    case (c_relay now send)
    with relay_commits L ledger_same show ?thesis by blast
  qed
qed

text \<open>An invariant of every step is one of every run: the interface of the reachability
  arguments, and its instance for the disciplined system.\<close>

locale step_invariant =
  fixes step :: "'s \<Rightarrow> 's \<Rightarrow> bool" and inv :: "'s \<Rightarrow> bool"
  assumes step_inv: "step s s' \<Longrightarrow> inv s \<Longrightarrow> inv s'"
begin

lemma run_inv: "step\<^sup>*\<^sup>* s s' \<Longrightarrow> inv s \<Longrightarrow> inv s'"
  by (induction rule: rtranclp_induct) (auto intro: step_inv)

end

definition sound :: "settings \<Rightarrow> db \<Rightarrow> bool" where
  "sound cfg d \<longleftrightarrow> 0 < max_attempts cfg \<and> ledger cfg d \<and> accounting d \<and> job_ids_ok d \<and> history_keys_ok d"

interpretation core: step_invariant "core_txn cfg" "sound cfg" for cfg
proof unfold_locales
  fix d d' assume t: "core_txn cfg d d'" and s: "sound cfg d"
  have "txn cfg d d'" by (rule core_txn_txn [OF t])
  then have "accounting d'" "history_keys_ok d'" "job_ids_ok d'"
    using s acc.txn_keeps hist.txn_keeps evo.txn_keeps [of cfg d d' d] evolves_refl evolves_ids
    by (auto simp: sound_def)
  with s ledger_core [OF t] show "sound cfg d'" by (simp add: sound_def)
qed

lemma sound_initial: "0 < max_attempts cfg \<Longrightarrow> sound cfg (initial_db cpu mem gpu)"
proof -
  have "ledger cfg (initial_db cpu mem gpu)" "history_keys_ok (initial_db cpu mem gpu)"
    by (simp_all add: ledger_def history_keys_ok_def initial_db_def empty_db_def)
  then show "0 < max_attempts cfg \<Longrightarrow> sound cfg (initial_db cpu mem gpu)"
    by (simp add: sound_def accounting_initial job_ids_ok_initial)
qed

lemma sound_reachable:
  "(core_txn cfg)\<^sup>*\<^sup>* (initial_db cpu mem gpu) d \<Longrightarrow> 0 < max_attempts cfg \<Longrightarrow> sound cfg d"
  by (rule core.run_inv [OF _ sound_initial])

end
