(* ===== verification/Guarantees.thy ===== *)
theory Guarantees
  imports Ledger
begin

text \<open>
  What the invariants of \<open>Ledger\<close> mean for the operator of the platform, and where the
  code outside the disciplined system loses it: properties of every reachable state, the
  primary keys that are never violated, and the leak a client can cause.
\<close>

subsection \<open>The shared run, as a disciplined one\<close>

lemma sample_core_txns:
  "core_txn default_settings (initial_db 4 4096 0) sample_created"
  "core_txn default_settings sample_created sample_admitted"
  "core_txn default_settings sample_admitted sample_claimed"
  "core_txn default_settings sample_claimed sample_started"
  "core_txn default_settings sample_started sample_finished"
  "core_txn default_settings sample_started sample_reclaimed"
proof -
  show "core_txn default_settings (initial_db 4 4096 0) sample_created"
    using sample_created_run(2) by (rule c_create)
  have f: "find_job (j_id sample_job) sample_created = Some sample_job"
    by (simp add: find_job_def sample_defs)
  have "sample_admitted \<in> set (commits (try_admit default_settings 9 sample_job) sample_created)"
    unfolding sample_admitted_def by (simp add: service_eval sample_defs)
  with f show "core_txn default_settings sample_created sample_admitted" by (rule c_admit)
  show "core_txn default_settings sample_admitted sample_claimed"
    using sample_claimed_tables(5) by (intro c_claim [where w = "''w1''"]) (simp add: default_settings_def)
  have "\<exists>j \<in> set (t_jobs sample_claimed). holds_lease 1 ''w1'' 1 j"
    by (simp add: sample_claimed_tables holds_lease_def sample_running_def sample_job_def new_job_def)
  then show "core_txn default_settings sample_claimed sample_started"
    using sample_started_tables(5) c_attempt by blast
  show "core_txn default_settings sample_started sample_finished"
    using sample_finished_tables(5) by (rule c_finish)
  show "core_txn default_settings sample_started sample_reclaimed"
    using sample_reclaimed_tables(5) by (rule c_reclaim)
qed

lemma sample_core_run:
  "(core_txn default_settings)\<^sup>*\<^sup>* (initial_db 4 4096 0) sample_started"
  "(core_txn default_settings)\<^sup>*\<^sup>* (initial_db 4 4096 0) sample_finished"
  "(core_txn default_settings)\<^sup>*\<^sup>* (initial_db 4 4096 0) sample_reclaimed"
  using sample_core_txns by (meson rtranclp.rtrancl_into_rtrancl rtranclp.rtrancl_refl)+

lemma default_max [simp]: "max_attempts default_settings = 3"
  by (simp add: default_settings_def)

subsection \<open>No leak\<close>



text \<open>When the work is done the cluster is free: if every job is in a terminal state, no
  counter of the capacity row is above zero.\<close>

theorem finished_cluster_is_free:
  assumes "(core_txn cfg)\<^sup>*\<^sup>* (initial_db cpu mem gpu) d" and "0 < max_attempts cfg"
    and "\<forall>j \<in> set (t_jobs d). terminal (j_status j)"
  shows "\<exists>c. t_capacity d = Some c \<and> allocated_cpu c = 0 \<and> allocated_memory_mb c = 0 \<and> allocated_gpu c = 0"
proof -
  have s: "sound cfg d" by (rule sound_reachable [OF assms(1,2)])
  have t: "\<not> holds_reservation j r" if "terminal (j_status j)" for j r
    using that by (auto simp: holds_reservation_def terminal_def)
  have "ledger cfg d" using s by (simp add: sound_def)
  then have "\<not> is_active r" if "r \<in> set (t_reservations d)" for r
    using that assms(3) t unfolding ledger_def reservation_ok_def is_active_def by metis
  then have "filter is_active (t_reservations d) = []" by (simp add: filter_empty_conv)
  then show ?thesis
    using s by (auto simp: sound_def accounting_def conserved_def reservations_sum_active_def sum_rows_def)
qed

theorem finished_cluster_is_free_witness:
  "\<exists>c. t_capacity sample_finished = Some c \<and> allocated_cpu c = 0 \<and> allocated_memory_mb c = 0 \<and> allocated_gpu c = 0"
proof -
  have "\<forall>j \<in> set (t_jobs sample_finished). terminal (j_status j)"
    using sample_finished_tables(1) by (auto simp: terminal_def)
  then show ?thesis using finished_cluster_is_free [OF sample_core_run(2)] by simp
qed



subsection \<open>Attempts\<close>



subsection \<open>Primary keys\<close>

lemma json_get_err: "json_get x k y \<noteq> Inl IntegrityError"
  by (cases x) (auto split: option.splits)

lemma as_int_err: "as_int x \<noteq> Inl IntegrityError"
  by (cases x) auto

lemma sum_bind_err: "x \<noteq> Inl e \<Longrightarrow> (\<And>a. f a \<noteq> Inl e) \<Longrightarrow> sum_bind x f \<noteq> Inl e"
  by (cases x) (auto simp: sum_bind_def)

lemma resource_request_err: "resource_request cfg j \<noteq> Inl IntegrityError"
  unfolding resource_request_def
  by (intro sum_bind_err json_get_err as_int_err) (auto simp: json_get_err split: option.split)

lemma admit_body_err:
  "fst (admit_body cfg now j cpu mem gpu s) = Inl IntegrityError \<Longrightarrow>
   (\<exists>k. find_job (j_id j) (work s) = Some k \<and> j_status k = QUEUED)
   \<and> find_reservation (j_id j) (j_attempt_number j + 1) (work s) \<noteq> None
   \<and> \<not> sql_exists (\<lambda>r. r_job_id r = j_id j \<and> r_attempt_number r = j_attempt_number j + 1 \<and> r_status r = ACTIVE)
         (t_reservations (work s))"
  by (auto simp: admit_body_def bind_def eligible_run reserve_run reservations_insert_run Let_def
      find_reservation_def outbox_insert_event_def capacity_get_def decisions_insert_def query_def
      execute_def commit_def ret_def split: option.splits if_splits)

lemma try_admit_err:
  "result (try_admit cfg now j) d = Inl IntegrityError \<Longrightarrow>
   \<exists>cpu mem gpu. fst (admit_body cfg now j cpu mem gpu (begin_session d)) = Inl IntegrityError"
proof -
  assume r: "result (try_admit cfg now j) d = Inl IntegrityError"
  obtain cpu mem gpu where q: "resource_request cfg j = Inr (cpu, mem, gpu)"
    using r resource_request_err by (cases "resource_request cfg j") (auto simp: run_defs try_admit_def raise_def)
  have w: "fst (record_waiting cfg now j cpu mem gpu reason snap s) \<noteq> Inl IntegrityError" for reason snap s
    by (auto simp: record_waiting_def prog_defs split: option.splits)
  obtain x s' where b: "admit_body cfg now j cpu mem gpu (begin_session d) = (x, s')" by fastforce
  have "x = Inl IntegrityError"
  proof (cases x)
    case (Inl e)
    with r q b w show ?thesis by (cases e) (auto simp: result_def try_admit_def try_except_def raise_def)
  next
    case (Inr y)
    with r q b show ?thesis by (simp add: result_def try_admit_def try_except_def)
  qed
  with b show ?thesis by (metis fst_conv)
qed

lemma finish_decided_form:
  "finish_decided cfg now u jid w n out b = raise PyOverflowError \<or>
   (\<exists>st ex ast em cl fd bb. finish_decided cfg now u jid w n out b = finish_with now jid w n st ex ast em cl fd bb
      \<and> (bb = ret () \<or> (\<exists>em' cls. bb = bind (dlq_insert now jid n em' cls n False) (\<lambda>_. ret ()))))"
proof -
  let ?cls = "case out_error_classification out of None \<Rightarrow> UNKNOWN | Some c \<Rightarrow> if c = [] then UNKNOWN else c"
  let ?next = "compute_next_retry_at now u n (base_delay_seconds cfg) (max_delay_seconds cfg) (jitter_ratio cfg)"
  consider "b" | "\<not> b" "out_status out = SUCCEEDED"
    | t where "\<not> b" "out_status out \<noteq> SUCCEEDED" "is_retryable ?cls n (max_attempts cfg)" "?next = Some t"
    | "\<not> b" "out_status out \<noteq> SUCCEEDED" "is_retryable ?cls n (max_attempts cfg)" "?next = None"
    | "\<not> b" "out_status out \<noteq> SUCCEEDED" "\<not> is_retryable ?cls n (max_attempts cfg)"
    by (cases ?next) blast+
  then show ?thesis
    by cases (simp_all add: finish_decided_def Let_def, blast+)
qed

lemma finish_with_err:
  assumes "fst (finish_with now jid w n st ex ast em cl fd b (begin_session d)) = Inl IntegrityError"
    and b: "\<And>s. fst (b s) = Inl IntegrityError \<Longrightarrow> jid \<in> d_job_id ` set (t_dlq (work s))"
    and k: "reservation_keys_ok d" and w: "\<And>s. t_reservations (work (snd (b s))) = t_reservations (work s)"
  shows "(\<exists>j \<in> set (t_jobs d). holds_lease jid w n j) \<and> jid \<in> d_job_id ` set (t_dlq d)"
proof (cases "\<exists>j \<in> set (t_jobs d). holds_lease jid w n j")
  case False
  then have "\<forall>j \<in> set (t_jobs (work (begin_session d))). \<not> holds_lease jid w n j" by (simp add: begin_session_def)
  with assms(1) show ?thesis by (simp add: fenced_finish_with)
next
  case True
  let ?s = "\<lparr>work = (set_jobs (holds_lease jid w n) (finalize_set st ex) d)\<lparr>t_attempts :=
      sql_update (attempt_where jid n) (finish_attempt_row now ast em cl fd) (t_attempts d)\<rparr>, durable = [d]\<rparr>"
  have "fst (b ?s) = Inl IntegrityError"
  proof (cases "b ?s")
    case (Pair x s')
    moreover have "t_reservations (work s') = t_reservations d" using w [of ?s] Pair by simp
    ultimately show ?thesis
      using assms(1)
      by (auto simp: finish_with_def bind_def finalize_run attempts_finalize_run begin_session_def
          rollback_def ret_def commit_def release_run [OF k] split: if_splits sum.splits)
  qed
  with b [of ?s] True show ?thesis by simp
qed

text \<open>In the disciplined system no primary key is ever violated where the services insert
  without looking: admitting the row that was read, and dead-lettering a job.\<close>

theorem inserts_never_collide:
  assumes "(core_txn cfg)\<^sup>*\<^sup>* (initial_db cpu mem gpu) d" and "0 < max_attempts cfg"
    and "find_job (j_id j) d = Some j"
  shows "result (try_admit cfg now j) d \<noteq> Inl IntegrityError
    \<and> result (finish_decided cfg now u jid w n out b) d \<noteq> Inl IntegrityError"
proof (intro conjI notI)
  have s: "sound cfg d" by (rule sound_reachable [OF assms(1,2)])
  then have L: "ledger cfg d" and ids: "distinct (map j_id (t_jobs d))" and k: "reservation_keys_ok d"
    by (auto simp: sound_def job_ids_ok_def accounting_def)
  have j: "j \<in> set (t_jobs d)" using assms(3) by (auto simp: find_job_def dest: sql_one_SomeD)
  {
    assume "result (try_admit cfg now j) d = Inl IntegrityError"
    from try_admit_err [OF this] obtain c m g where
      "fst (admit_body cfg now j c m g (begin_session d)) = Inl IntegrityError" by blast
    note e = admit_body_err [OF this]
    then obtain r where r: "r \<in> set (t_reservations d)" "r_job_id r = j_id j"
        "r_attempt_number r = j_attempt_number j + 1"
      by (auto simp: begin_session_def find_reservation_def dest: sql_one_SomeD)
    have "r_status r \<noteq> ACTIVE" using e r by (auto simp: begin_session_def sql_exists_iff)
    moreover have "j_status j = QUEUED" using e assms(3) by (auto simp: begin_session_def)
    ultimately show False
      using ledger_rows(3) [OF L ids j r(1,2)] r(3) by (simp add: reservation_ok_def holds_reservation_def)
  next
    assume "result (finish_decided cfg now u jid w n out b) d = Inl IntegrityError"
    then have err: "fst (finish_decided cfg now u jid w n out b (begin_session d)) = Inl IntegrityError"
      by (simp add: result_def)
    then have "finish_decided cfg now u jid w n out b \<noteq> raise PyOverflowError" by (auto simp: raise_def)
    then obtain st ex ast em cl fd bb where
      form: "finish_decided cfg now u jid w n out b = finish_with now jid w n st ex ast em cl fd bb"
      and bb: "bb = ret () \<or> (\<exists>em' cls. bb = bind (dlq_insert now jid n em' cls n False) (\<lambda>_. ret ()))"
      using finish_decided_form [of cfg now u jid w n out b]
      by (elim disjE exE conjE) (simp, metis+)
    note f = err [unfolded form] bb
    have "(\<exists>j \<in> set (t_jobs d). holds_lease jid w n j) \<and> jid \<in> d_job_id ` set (t_dlq d)"
    proof (rule finish_with_err [OF f(1) _ k])
      show "jid \<in> d_job_id ` set (t_dlq (work s))" if "fst (bb s) = Inl IntegrityError" for s
        using f(2) that by (auto simp: prog_defs Let_def sql_exists_iff split: if_splits)
      show "t_reservations (work (snd (bb s))) = t_reservations (work s)" for s
        using f(2) by (auto simp: prog_defs Let_def)
    qed
    then obtain k e where "k \<in> set (t_jobs d)" "holds_lease jid w n k" "e \<in> set (t_dlq d)" "d_job_id e = jid"
      by auto
    with ledger_rows(5) [OF L ids] show False by (force simp: holds_lease_def)
  }
qed

theorem inserts_never_collide_witness:
  "result (try_admit default_settings 50000000 (hd (t_jobs sample_reclaimed))) sample_reclaimed \<noteq> Inl IntegrityError"
proof -
  have "find_job (j_id (hd (t_jobs sample_reclaimed))) sample_reclaimed = Some (hd (t_jobs sample_reclaimed))"
    by (simp add: find_job_def sample_reclaimed_tables sample_running_def sample_job_def new_job_def)
  then show ?thesis using inserts_never_collide [OF sample_core_run(3)] by simp
qed

subsection \<open>What a client can break\<close>

text \<open>Only an unfinished job's reservation is ever released.\<close>

lemma release_needs_unfinished:
  assumes t: "core_txn cfg d d'" and k: "reservation_keys_ok d" and ids: "job_ids_ok d"
    and r: "r \<in> set (t_reservations d)"
  shows "r \<in> set (t_reservations d') \<or> (\<exists>j \<in> set (t_jobs d). j_id j = r_job_id r \<and> \<not> terminal (j_status j))"
proof -
  have rel: "r \<in> set (t_reservations (release_db now jid n d0)) \<or> r_job_id r = jid"
    if "t_reservations d0 = t_reservations d" for now jid n d0
    using that r release_rows(1) by (auto simp: release_db_reservations)
  from t show ?thesis
  proof cases
    case (c_create now p)
    with create_commits r show ?thesis by fastforce
  next
    case (c_config j c)
    with config_commits r show ?thesis by fastforce
  next
    case (c_cancel now jid)
    from cancel_commits [OF k ids c_cancel] show ?thesis
    proof (elim disjE exE conjE)
      fix j assume j: "find_job jid d = Some j" "j_status j = QUEUED"
        and d': "d' = release_db now jid (j_attempt_number j + 1)
               (set_jobs (\<lambda>k. j_id k = jid \<and> j_status k \<in> {QUEUED, RUNNING} \<and> j_deleted_at k = None)
                 (\<lambda>k. k\<lparr>j_status := CANCELLED\<rparr>) d)"
      have "j \<in> set (t_jobs d)" "j_id j = jid" using j(1) by (auto simp: find_job_def dest: sql_one_SomeD)
      moreover have "r \<in> set (t_reservations d') \<or> r_job_id r = jid" unfolding d' by (rule rel) simp
      moreover have "\<not> terminal (j_status j)" using j(2) by (simp add: terminal_def)
      ultimately show ?thesis by metis
    qed (use r in auto)
  next
    case (c_admit j now)
    from admit_commits [OF c_admit(2)] r show ?thesis
      by (auto simp: same_ledger_def reserved_db_def)
  next
    case (c_decision row)
    with frame_commits(1) r show ?thesis by (fastforce simp: same_ledger_def)
  next
    case (c_claim now jid w)
    with claim_commits r show ?thesis by fastforce
  next
    case (c_attempt jid w n now)
    with attempt_commits r show ?thesis by fastforce
  next
    case (c_heartbeat now jid w n)
    with heartbeat_commits r show ?thesis by fastforce
  next
    case (c_finish now u jid w n out b)
    have "r \<in> set (t_reservations (finished_db now jid w n st ex f ls d)) \<or> r_job_id r = jid" for st ex f ls
      unfolding finished_db_def by (rule rel) simp
    moreover have "j_id j = jid \<and> \<not> terminal (j_status j)" if "holds_lease jid w n j" for j
      using that by (simp add: holds_lease_def terminal_def)
    ultimately show ?thesis using finish_commits [OF k c_finish] r by metis
  next
    case (c_reclaim now u j)
    have "r \<in> set (t_reservations (reclaimed_db cfg now t (j_id j) n w d)) \<or> r_job_id r = j_id j" for t n w
      unfolding reclaimed_db_def by (rule rel) simp
    moreover have "j_id k = j_id j \<and> \<not> terminal (j_status k)" if "stale_where now (j_id j) k" for k
      using that by (simp add: stale_where_def terminal_def)
    ultimately show ?thesis using reclaim_commits [OF k c_reclaim] r by metis
  next
    case (c_dispatch now j)
    from dispatch_commits [OF c_dispatch] r show ?thesis by (auto simp: same_ledger_def)
  next
    case (c_clear jid)
    with clear_commits r show ?thesis by fastforce
  next
    case (c_relay now send)
    with relay_commits r show ?thesis by (fastforce simp: same_ledger_def)
  qed
qed

definition leaked :: "uuid \<Rightarrow> reservation \<Rightarrow> db \<Rightarrow> bool" where
  "leaked jid r d \<longleftrightarrow> reservation_keys_ok d \<and> job_ids_ok d \<and> r \<in> set (t_reservations d) \<and> r_job_id r = jid
   \<and> (\<exists>j \<in> set (t_jobs d). j_id j = jid \<and> terminal (j_status j))"

interpretation leak: step_invariant "core_txn cfg" "\<lambda>d. accounting d \<and> leaked jid r d" for cfg jid r
proof unfold_locales
  fix d d' assume t: "core_txn cfg d d'" and l: "accounting d \<and> leaked jid r d"
  have tx: "txn cfg d d'" by (rule core_txn_txn [OF t])
  have acc: "accounting d'" using acc.txn_keeps [OF tx] l by blast
  have ids: "job_ids_ok d" using l by (simp add: leaked_def)
  obtain j where j: "j \<in> set (t_jobs d)" "j_id j = jid" "terminal (j_status j)"
    using l by (auto simp: leaked_def)
  have ev: "evolves d d'" using evo.txn_keeps [OF tx] evolves_refl [OF ids] by blast
  then obtain j' where "j' \<in> set (t_jobs d')" "job_evolves j j'" using j(1) by (auto simp: evolves_def)
  then have "\<exists>k \<in> set (t_jobs d'). j_id k = jid \<and> terminal (j_status k)"
    using j by (auto simp: job_evolves_def)
  moreover have "r \<in> set (t_reservations d')"
  proof -
    have "r \<in> set (t_reservations d)" "r_job_id r = jid" "reservation_keys_ok d" using l by (auto simp: leaked_def)
    moreover have "k = j" if "k \<in> set (t_jobs d)" "j_id k = jid" for k
      using that j ids by (auto simp: job_ids_ok_def intro: distinct_map_eqD)
    ultimately show ?thesis using release_needs_unfinished [OF t _ ids] j(3) by blast
  qed
  ultimately show "accounting d' \<and> leaked jid r d'"
    using acc l evolves_ids [OF ev] by (simp add: leaked_def accounting_def)
qed


text \<open>A client's PATCH that marks the running job of the shared run as SUCCEEDED.\<close>

definition sample_patched :: db where
  "sample_patched = final_db (update_job 1 \<lparr>ju_status = Some ''SUCCEEDED'', ju_config = None\<rparr>) sample_started"

lemma sample_patched_tables:
  "t_jobs sample_patched = [sample_running\<lparr>j_status := SUCCEEDED\<rparr>]"
  "t_reservations sample_patched = [sample_reservation]"
  "sample_patched \<in> set (commits (update_job 1 \<lparr>ju_status = Some ''SUCCEEDED'', ju_config = None\<rparr>) sample_started)"
proof -
  have st: "status_of_string ''SUCCEEDED'' = Some SUCCEEDED" "sources_for ''SUCCEEDED'' = [RUNNING]"
    using status_of_string_value [of SUCCEEDED] sources_for_values(4) by simp_all
  note e = service_eval sample_started_tables st sample_running_def sample_job_def new_job_def
  show "t_jobs sample_patched = [sample_running\<lparr>j_status := SUCCEEDED\<rparr>]"
    "t_reservations sample_patched = [sample_reservation]"
    "sample_patched \<in> set (commits (update_job 1 \<lparr>ju_status = Some ''SUCCEEDED'', ju_config = None\<rparr>) sample_started)"
    unfolding sample_patched_def by (simp_all add: e)
qed


end
