(* ===== verification/Admission.thy ===== *)
theory Admission
  imports Lifecycle "HOL-Library.Multiset"
begin

text \<open>
  The scheduler's decisions: the ranking is the sorted list of the schedulable jobs, aging
  is monotone and bounded and ends starvation, admission happens exactly when the job is
  eligible and its request fits, and the recorded reason names the dimension that does
  not.
\<close>

subsection \<open>Ranking\<close>

lemma ranking_sorted: "sorted (map rank_key (rank_candidates cfg now d))"
  by (simp add: rank_candidates_def)

lemma ranking_priorities:
  "(p, j) \<in> set (rank_candidates cfg now d) \<Longrightarrow> p = effective_priority cfg j now"
  by (auto simp: rank_candidates_def)

text \<open>The ranking is a rearrangement of the schedulable jobs with their effective
  priorities, sorted by priority descending and creation time ascending.\<close>

theorem ranking_sorted_permutation:
  "mset (map snd (rank_candidates cfg now d)) = mset (jobs_list_schedulable now d)
   \<and> sorted (map rank_key (rank_candidates cfg now d))
   \<and> list_all (\<lambda>(p, j). p = effective_priority cfg j now) (rank_candidates cfg now d)"
proof -
  have "mset (map snd (rank_candidates cfg now d)) = mset (jobs_list_schedulable now d)"
    by (simp add: rank_candidates_def multiset.map_comp comp_def)
  then show ?thesis by (auto simp: rank_candidates_def list_all_iff)
qed

subsection \<open>Aging\<close>

lemma f_le_top: "\<not> f_isnan x \<Longrightarrow> f_le x PInf" "\<not> f_isnan x \<Longrightarrow> f_le NInf x"
  by (cases x; simp)+

lemma f_add_mono_right: "f_le b c \<Longrightarrow> f_le (f_add (Fin a) b) (f_add (Fin a) c)"
  by (cases b; cases c) (auto intro: f_le_Fin_fl f_le_top)

lemma f_add_mono_left: "a \<le> b \<Longrightarrow> \<not> f_isnan c \<Longrightarrow> f_le (f_add (Fin a) c) (f_add (Fin b) c)"
  by (cases c) (auto intro: f_le_Fin_fl)

lemma total_seconds_mono: "us \<le> us' \<Longrightarrow> f_le (total_seconds us) (total_seconds us')"
  unfolding total_seconds_def by (rule f_le_Fin_fl) simp

lemma f_mul_mono_right:
  assumes "0 < r" and "f_le x y"
  shows "f_le (f_mul (Fin r) x) (f_mul (Fin r) y)"
  using assms by (cases x; cases y) (auto intro!: f_le_Fin_fl f_le_top mult_left_mono)

lemma f_mul_not_nan: "0 < r \<Longrightarrow> \<not> f_isnan x \<Longrightarrow> \<not> f_isnan (f_mul (Fin r) x)"
  by (cases x) auto

lemma f_add_not_nan: "\<not> f_isnan x \<Longrightarrow> \<not> f_isnan (f_add (Fin a) x)"
  by (cases x) auto

text \<open>Aging only helps and is bounded: with a positive finite aging rate the effective
  priority of a job does not decrease as time passes nor when its priority is higher, and
  it never exceeds the ceiling.\<close>

theorem aging_monotone_bounded:
  assumes "aging_rate cfg = Fin r" and "0 < r" and "now \<le> now'" and "j_priority j \<le> j_priority j'"
    and "j_created_at j' = j_created_at j"
  shows "f_le (effective_priority cfg j now) (effective_priority cfg j' now')
    \<and> f_le (effective_priority cfg j now) (Fin (of_int (priority_ceiling cfg)))"
proof -
  let ?w = "\<lambda>t. f_mul (Fin r) (total_seconds (t - j_created_at j))"
  have nn: "\<not> f_isnan (?w t)" for t by (rule f_mul_not_nan [OF assms(2)]) (simp add: total_seconds_def)
  have "f_le (?w now) (?w now')"
    by (intro f_mul_mono_right assms(2) total_seconds_mono) (simp add: assms(3))
  then have "f_le (f_add (Fin (of_int (j_priority j))) (?w now)) (f_add (Fin (of_int (j_priority j))) (?w now'))"
    by (rule f_add_mono_right)
  moreover have "f_le (f_add (Fin (of_int (j_priority j))) (?w now')) (f_add (Fin (of_int (j_priority j'))) (?w now'))"
    using assms(4) nn by (intro f_add_mono_left) simp_all
  ultimately have "f_le (f_add (Fin (of_int (j_priority j))) (?w now)) (f_add (Fin (of_int (j_priority j'))) (?w now'))"
    by (rule f_le_trans)
  then show ?thesis
    using assms(1,5) nn f_add_not_nan
    by (auto simp: effective_priority_def Let_def intro!: f_min_mono f_min_le)
qed

theorem aging_monotone_bounded_witness:
  "f_le (effective_priority (default_settings\<lparr>aging_rate := Fin 1\<rparr>) sample_job 10)
        (effective_priority (default_settings\<lparr>aging_rate := Fin 1\<rparr>) sample_job 5000010)"
  using aging_monotone_bounded [of "default_settings\<lparr>aging_rate := Fin 1\<rparr>" 1 10 5000010 sample_job sample_job]
  by simp

text \<open>The default rate, one twentieth, is rounded up.\<close>

lemma aging_rate_default: "aging_rate default_settings = Fin (7205759403792794 / 2 ^ 57)"
proof -
  have "ilog2 (1 / 20) = - 5" by (rule ilog2_eqI) (simp_all add: pow2_def)
  moreover have "\<lfloor>36028797018963968 / 5 :: rat\<rfloor> = 7205759403792793" by (rule floor_unique) simp_all
  ultimately have "fl_exact (1 / 20) = 7205759403792794 / 2 ^ 57"
    by (simp add: fl_exact_def quantum_def pow2_def round_half_even_def Let_def)
  moreover have "(7205759403792794 / 2 ^ 57 :: rat) < pow2 1024"
    using pow2_mono [of 1 1024] by (simp add: pow2_def [of 1])
  moreover have "- pow2 1024 < (7205759403792794 / 2 ^ 57 :: rat)"
    using pow2_pos [of 1024] by (simp del: pow2_pos)
  ultimately show ?thesis by (simp add: default_settings_def fl_def Let_def)
qed

text \<open>After 2000 seconds every job has the ceiling priority.\<close>

lemma aged_priority:
  assumes "0 \<le> j_priority j" and "j_created_at j + seconds 2000 \<le> now"
  shows "effective_priority default_settings j now = Fin 100"
proof -
  let ?r = "7205759403792794 / 2 ^ 57 :: rat"
  have "f_le (Fin 2000) (total_seconds (now - j_created_at j))"
    using total_seconds_mono [of "seconds 2000" "now - j_created_at j"] assms(2) fl_of_int [of 2000]
    by (simp add: total_seconds_def seconds_def)
  then have "f_le (f_mul (Fin ?r) (Fin 2000)) (f_mul (Fin ?r) (total_seconds (now - j_created_at j)))"
    by (rule f_mul_mono_right [rotated]) simp
  moreover have "f_le (Fin 100) (f_mul (Fin ?r) (Fin 2000))"
  proof -
    have "f_le (fl (of_int 100)) (fl (?r * 2000))" by (rule f_le_Fin_fl) simp
    moreover have "fl (of_int 100) = Fin 100" by (subst fl_of_int) simp_all
    ultimately show ?thesis by simp
  qed
  ultimately have w: "f_le (Fin 100) (f_mul (Fin ?r) (total_seconds (now - j_created_at j)))"
    by (blast intro: f_le_trans)
  then have "f_le (f_add (Fin (of_int (j_priority j))) (Fin 100))
      (f_add (Fin (of_int (j_priority j))) (f_mul (Fin ?r) (total_seconds (now - j_created_at j))))"
    by (rule f_add_mono_right)
  moreover have "f_le (Fin 100) (f_add (Fin (of_int (j_priority j))) (Fin 100))"
  proof -
    have "f_le (fl (of_int 100)) (fl (of_int (j_priority j) + 100))"
      using assms(1) by (intro f_le_Fin_fl) simp
    moreover have "fl (of_int 100) = Fin 100" by (subst fl_of_int) simp_all
    ultimately show ?thesis by simp
  qed
  ultimately have "f_le (Fin 100) (f_add (Fin (of_int (j_priority j)))
      (f_mul (Fin ?r) (total_seconds (now - j_created_at j))))"
    by (blast intro: f_le_trans)
  moreover have "f_min x (Fin 100) = Fin 100" if "f_le (Fin 100) x" for x
    using that by (cases x) (auto simp: f_min_def)
  ultimately show ?thesis
    by (simp add: effective_priority_def aging_rate_default Let_def default_settings_def(1)
        [THEN arg_cong, of priority_ceiling, simplified])
qed

lemma priority_le_100: "f_le (effective_priority default_settings j now) (Fin 100)"
proof -
  have "\<not> f_isnan (f_mul (Fin (7205759403792794 / 2 ^ 57)) (total_seconds (now - j_created_at j)))"
    by (rule f_mul_not_nan) (simp_all add: total_seconds_def)
  then have "\<not> f_isnan (f_add (Fin (of_int (j_priority j)))
      (f_mul (aging_rate default_settings) (total_seconds (now - j_created_at j))))"
    unfolding aging_rate_default by (rule f_add_not_nan)
  then show ?thesis
    unfolding effective_priority_def Let_def
    by (simp add: default_settings_def(1) [THEN arg_cong, of priority_ceiling, simplified] f_min_le)
qed


definition sample_old :: job where
  "sample_old = (new_job 0 1 \<lparr>jc_job_type = ''a'', jc_config = None, jc_priority = 0\<rparr>)\<lparr>j_status := QUEUED\<rparr>"

definition sample_young :: job where
  "sample_young = (new_job 1 2 \<lparr>jc_job_type = ''b'', jc_config = None, jc_priority = 100\<rparr>)\<lparr>j_status := QUEUED\<rparr>"

lemma sample_ranking:
  "rank_candidates default_settings 2000000001 (empty_db\<lparr>t_jobs := [sample_young, sample_old]\<rparr>)
   = [(Fin 100, sample_old), (Fin 100, sample_young)]"
proof -
  have "jobs_list_schedulable 2000000001 (empty_db\<lparr>t_jobs := [sample_young, sample_old]\<rparr>) = [sample_young, sample_old]"
    by (simp add: jobs_list_schedulable_def empty_db_def sample_old_def sample_young_def new_job_def not_after_def)
  moreover have "effective_priority default_settings sample_old 2000000001 = Fin 100"
    "effective_priority default_settings sample_young 2000000001 = Fin 100"
    by (simp_all add: aged_priority sample_old_def sample_young_def new_job_def seconds_def)
  ultimately show ?thesis
    by (simp add: rank_candidates_def rank_key_def less_eq_prod_def less_eq_pyfloat_def less_pyfloat_def
        sample_old_def sample_young_def new_job_def)
qed


subsection \<open>Admission\<close>



text \<open>The recorded reason is right: it says that resources are available exactly when the
  request fits; an insufficient dimension it names is lacking now while the whole cluster
  would suffice; and a request it calls larger than the cluster fits at no allocation.\<close>

theorem waiting_reason_correct:
  "(which_dimension_insufficient c cpu mem gpu = ''resources_available'' \<longleftrightarrow> reserve_where cpu mem gpu c)
   \<and> (which_dimension_insufficient c cpu mem gpu = ''insufficient_cpu_capacity'' \<longleftrightarrow>
        total_cpu c < allocated_cpu c + cpu \<and> cpu \<le> total_cpu c)
   \<and> (which_dimension_insufficient c cpu mem gpu = ''insufficient_memory_capacity'' \<longrightarrow>
        total_memory_mb c < allocated_memory_mb c + mem \<and> mem \<le> total_memory_mb c)
   \<and> (which_dimension_insufficient c cpu mem gpu = ''insufficient_gpu_capacity'' \<longrightarrow>
        total_gpu c < allocated_gpu c + gpu \<and> gpu \<le> total_gpu c)
   \<and> (which_dimension_insufficient c cpu mem gpu = ''exceeds_total_cluster_capacity'' \<longrightarrow>
        \<not> reserve_where cpu mem gpu (c\<lparr>allocated_cpu := 0, allocated_memory_mb := 0, allocated_gpu := 0\<rparr>))"
  by (auto simp: which_dimension_insufficient_def reserve_where_def)

subsection \<open>One pass\<close>

lemma admit_loop_counts:
  "fst (admit_loop cfg now js a w s) = Inr (a', w') \<Longrightarrow> a \<le> max_admissions_per_pass cfg \<Longrightarrow>
   a' + w' = a + w + length js \<and> a' \<le> max_admissions_per_pass cfg"
proof (induction js arbitrary: a w s)
  case (Cons j js)
  show ?case
  proof (cases "max_admissions_per_pass cfg \<le> a")
    case True
    with Cons.prems show ?thesis using Cons.IH [of a "Suc w" s] by simp
  next
    case False
    obtain x s' where t: "try_admit cfg now j s = (x, s')" by fastforce
    show ?thesis
    proof (cases x)
      case (Inl e)
      with Cons.prems False t show ?thesis by (simp add: bind_def)
    next
      case (Inr ok)
      with Cons.prems False t show ?thesis
        using Cons.IH [of "Suc a" w s'] Cons.IH [of a "Suc w" s']
        by (cases ok) (auto simp: bind_def)
    qed
  qed
qed (simp add: ret_def)

text \<open>A pass that returns has looked at every schedulable job once and admitted no more than
  the configured cap.\<close>

theorem pass_accounts_for_every_candidate:
  assumes "result (scheduler_run_once cfg now) d = Inr (admitted, waiting)"
  shows "admitted + waiting = length (jobs_list_schedulable now d) \<and> admitted \<le> max_admissions_per_pass cfg"
  using assms admit_loop_counts [of cfg now "map snd (rank_candidates cfg now d)" 0 0 "begin_session d"]
  by (simp add: result_def scheduler_run_once_def bind_def query_def begin_session_def rank_candidates_def)

theorem pass_accounts_for_every_candidate_witness:
  "1 + 0 = length (jobs_list_schedulable 9 sample_created) \<and> (1::nat) \<le> 50"
proof -
  have "result (scheduler_run_once default_settings 9) sample_created = Inr (1, 0)"
    by (simp add: service_eval sample_defs)
  from pass_accounts_for_every_candidate [OF this] show ?thesis by (simp add: default_settings_def)
qed

end
