(* ===== verification/Api.thy ===== *)
theory Api
  imports Lifecycle
begin

text \<open>
  The operations of the API and of the worker's claim, exactly: for each the result and the
  committed state as a function of the row that is found, errors included; and the
  at-least-once delivery of the outbox relay.
\<close>

subsection \<open>Reading back an updated row\<close>

lemma find_job_SomeD: "find_job jid d = Some j \<Longrightarrow> j \<in> set (t_jobs d) \<and> j_id j = jid \<and> j_deleted_at j = None"
  by (auto simp: find_job_def dest: sql_one_SomeD)

lemma find_job_unique:
  "job_ids_ok d \<Longrightarrow> j \<in> set (t_jobs d) \<Longrightarrow> j_deleted_at j = None \<Longrightarrow> find_job (j_id j) d = Some j"
  unfolding find_job_def job_ids_ok_def
  by (rule sql_one_unique [where k = j_id]) auto

lemma find_job_set_jobs:
  "(\<And>r. p r \<Longrightarrow> j_id (f r) = j_id r \<and> j_deleted_at (f r) = j_deleted_at r) \<Longrightarrow>
   find_job jid (set_jobs p f d) = map_option (\<lambda>r. if p r then f r else r) (find_job jid d)"
  unfolding find_job_def set_jobs_tables by (rule sql_one_update) metis

lemma rowcount_unique:
  assumes "job_ids_ok d" and "find_job jid d = Some j" and "\<And>k. p k \<Longrightarrow> j_id k = jid"
  shows "rowcount p (t_jobs d) = 0 \<longleftrightarrow> \<not> p j"
proof -
  have j: "j \<in> set (t_jobs d)" "j_id j = jid" using find_job_SomeD [OF assms(2)] by auto
  have "k = j" if "k \<in> set (t_jobs d)" "p k" for k
    using assms(1,3) j that by (auto simp: job_ids_ok_def intro: distinct_map_eqD)
  with j show ?thesis by auto
qed

subsection \<open>Claim\<close>

text \<open>A claim succeeds exactly on a job that is QUEUED, not cancelled, not deleted, due, and
  holds an ACTIVE reservation for its next attempt; it then commits the worker as the
  owner of the next attempt with a lease of the configured length and returns that row,
  and otherwise it commits nothing and returns None.\<close>

theorem claim_exact:
  assumes "job_ids_ok d"
  shows "case find_job jid d of
      None \<Rightarrow> result (jobs_claim now jid w ls) d = Inr None \<and> final_db (jobs_claim now jid w ls) d = d
    | Some j \<Rightarrow>
        if claim_where now jid d j
        then result (jobs_claim now jid w ls) d = Inr (Some (claim_set now w ls j))
           \<and> final_db (jobs_claim now jid w ls) d = set_jobs (\<lambda>k. k = j) (claim_set now w ls) d
        else result (jobs_claim now jid w ls) d = Inr None \<and> final_db (jobs_claim now jid w ls) d = d"
proof (cases "find_job jid d")
  case None
  then have "\<forall>k \<in> set (t_jobs d). \<not> claim_where now jid d k"
    by (auto simp: find_job_def sql_one_None_iff claim_where_def)
  with None show ?thesis by (simp add: run_defs prog_defs sql_update_unmatched)
next
  case (Some j)
  note j = find_job_SomeD [OF Some]
  have key: "j_id k = jid" if "claim_where now jid d k" for k using that by (simp add: claim_where_def)
  have n: "rowcount (claim_where now jid d) (t_jobs d) = 0 \<longleftrightarrow> \<not> claim_where now jid d j"
    by (rule rowcount_unique [OF assms Some]) (rule key)
  have f: "find_job jid (set_jobs (claim_where now jid d) (claim_set now w ls) d)
      = Some (if claim_where now jid d j then claim_set now w ls j else j)"
    by (subst find_job_set_jobs) (simp_all add: Some claim_set_def)
  have only: "claim_where now jid d k \<longleftrightarrow> k = j" if "claim_where now jid d j" "k \<in> set (t_jobs d)" for k
    using that j key assms by (auto simp: job_ids_ok_def intro: distinct_map_eqD)
  show ?thesis
  proof (cases "claim_where now jid d j")
    case True
    then have "sql_update (claim_where now jid d) (claim_set now w ls) (t_jobs d)
        = sql_update (\<lambda>k. k = j) (claim_set now w ls) (t_jobs d)"
      using only by (auto simp: sql_update_def)
    with True Some n f show ?thesis
      by (simp add: run_defs jobs_claim_def bind_def update_jobs_def commit_def ret_def jobs_get_def
          query_def set_jobs_def)
  next
    case False
    then have "sql_update (claim_where now jid d) (claim_set now w ls) (t_jobs d) = t_jobs d"
      using n False unfolding rowcount_0_iff by (intro sql_update_unmatched) blast
    with False Some n show ?thesis
      by (simp add: run_defs jobs_claim_def bind_def update_jobs_def commit_def ret_def)
  qed
qed

theorem claim_exact_witness:
  "result (jobs_claim 10 1 ''w1'' 30) sample_admitted = Inr (Some sample_running)"
proof -
  have f: "find_job 1 sample_admitted = Some sample_job"
    by (simp add: find_job_def sample_admitted_tables) (simp add: sample_job_def new_job_def)
  have "claim_where 10 1 sample_admitted sample_job"
    by (simp add: claim_where_def sample_admitted_tables sample_reservation_def)
      (simp add: sample_job_def new_job_def not_after_def)
  moreover have "claim_set 10 ''w1'' 30 sample_job = sample_running"
    by (simp add: claim_set_def sample_running_def seconds_def) (simp add: sample_job_def new_job_def)
  ultimately show ?thesis using claim_exact [OF job_ids_ok_admitted, of 10 1 "''w1''" 30] f by simp
qed

subsection \<open>Requests of a client\<close>

lemma conditional_run:
  assumes "job_ids_ok (work s)"
  shows "jobs_conditional_transition jid vf st id c s =
    (let d' = set_jobs (\<lambda>j. j_id j = jid \<and> j_status j \<in> set vf \<and> j_deleted_at j = None)
                (\<lambda>j. j\<lparr>j_status := st\<rparr>) (work s);
         s' = s\<lparr>work := d', durable := (if c then d' # durable s else durable s)\<rparr>
     in case find_job jid (work s) of
          None \<Rightarrow> (Inr None, s')
        | Some j \<Rightarrow> (Inr (if j_status j \<in> set vf then Some (j\<lparr>j_status := st\<rparr>) else None), s'))"
proof -
  let ?p = "\<lambda>j. j_id j = jid \<and> j_status j \<in> set vf \<and> j_deleted_at j = None"
  have f: "find_job jid (set_jobs ?p (\<lambda>j. j\<lparr>j_status := st\<rparr>) (work s))
      = map_option (\<lambda>j. if ?p j then j\<lparr>j_status := st\<rparr> else j) (find_job jid (work s))"
    by (rule find_job_set_jobs) simp
  show ?thesis
  proof (cases "find_job jid (work s)")
    case None
    then have "rowcount ?p (t_jobs (work s)) = 0" by (auto simp: find_job_def sql_one_None_iff)
    with None show ?thesis
      by (auto simp: jobs_conditional_transition_def bind_def update_jobs_def commit_if_def commit_def
          ret_def set_jobs_def Let_def)
  next
    case (Some j)
    note n = rowcount_unique [where p = ?p, OF assms Some]
    from Some f n find_job_SomeD [OF Some] show ?thesis
      by (auto simp: jobs_conditional_transition_def bind_def update_jobs_def commit_if_def commit_def
          ret_def jobs_get_def query_def set_jobs_def Let_def)
  qed
qed

lemma set_jobs_none: "\<forall>k \<in> set (t_jobs d). \<not> p k \<Longrightarrow> set_jobs p f d = d"
  by (simp add: set_jobs_def sql_update_unmatched)

lemma set_jobs_cong:
  "(\<And>k. k \<in> set (t_jobs d) \<Longrightarrow> p k = q k) \<Longrightarrow> set_jobs p f d = set_jobs q f d"
  by (simp add: set_jobs_def sql_update_def)

text \<open>A conditional update of one job addresses the row that a read finds, or none.\<close>

lemma conditional_row:
  assumes "job_ids_ok d"
  shows "set_jobs (\<lambda>k. j_id k = jid \<and> P k \<and> j_deleted_at k = None) f d
    = (case find_job jid d of None \<Rightarrow> d | Some j \<Rightarrow> if P j then set_jobs (\<lambda>k. k = j) f d else d)"
proof (cases "find_job jid d")
  case None
  then have "\<forall>k \<in> set (t_jobs d). \<not> (j_id k = jid \<and> P k \<and> j_deleted_at k = None)"
    by (auto simp: find_job_def sql_one_None_iff)
  with None show ?thesis by (simp add: set_jobs_none)
next
  case (Some j)
  note j = find_job_SomeD [OF Some]
  have u: "k = j" if "k \<in> set (t_jobs d)" "j_id k = jid" for k
    using that j assms by (auto simp: job_ids_ok_def intro: distinct_map_eqD)
  show ?thesis
  proof (cases "P j")
    case True
    with j u have "set_jobs (\<lambda>k. j_id k = jid \<and> P k \<and> j_deleted_at k = None) f d = set_jobs (\<lambda>k. k = j) f d"
      by (intro set_jobs_cong) auto
    with True Some show ?thesis by simp
  next
    case False
    with u have "set_jobs (\<lambda>k. j_id k = jid \<and> P k \<and> j_deleted_at k = None) f d = d"
      by (intro set_jobs_none) auto
    with False Some show ?thesis by simp
  qed
qed

lemma in_sources_for:
  "s \<in> set (sources_for (status_value to)) \<longleftrightarrow> (\<exists>targets. (s, targets) \<in> set VALID_TRANSITIONS \<and> to \<in> set targets)"
  by (cases to; cases s) (auto simp: sources_for_values VALID_TRANSITIONS_def simp del: status_value.simps)

text \<open>The state machine's owner: a requested status is reached exactly from the statuses that
  list it in \<open>VALID_TRANSITIONS\<close>; then only the status of that one row changes.  A missing
  job is a 404, any other request (an unknown status included) a 409, and neither changes
  anything.\<close>

theorem transition_exact:
  assumes "job_ids_ok d"
  shows "(result (transition jid st) d, final_db (transition jid st) d) =
    (case find_job jid d of
       None \<Rightarrow> (Inl (HTTPException 404), d)
     | Some j \<Rightarrow>
         (case status_of_string st of
            None \<Rightarrow> (Inl (HTTPException 409), d)
          | Some to \<Rightarrow>
              if list_ex (\<lambda>(s, targets). s = j_status j \<and> to \<in> set targets) VALID_TRANSITIONS
              then (Inr (j\<lparr>j_status := to\<rparr>), set_jobs (\<lambda>k. k = j) (\<lambda>k. k\<lparr>j_status := to\<rparr>) d)
              else (Inl (HTTPException 409), d)))"
proof (cases "status_of_string st")
  case None
  then show ?thesis
    by (auto simp: run_defs transition_def prog_defs split: option.splits)
next
  case (Some to)
  then have st: "st = status_value to" by simp
  have m: "list_ex (\<lambda>(s, targets). s = j_status j \<and> to \<in> set targets) VALID_TRANSITIONS
      \<longleftrightarrow> j_status j \<in> set (sources_for st)" for j
    unfolding st in_sources_for by (auto simp: list_ex_iff)
  have "job_ids_ok (work (begin_session d))" using assms by (simp add: begin_session_def)
  note run = conditional_run [OF this, of jid "sources_for st" to True]
  note row = conditional_row [OF assms, of jid "\<lambda>k. j_status k \<in> set (sources_for st)" "\<lambda>k. k\<lparr>j_status := to\<rparr>"]
  have after: "find_job jid (set_jobs (\<lambda>k. k = j) (\<lambda>k. k\<lparr>j_status := to\<rparr>) d) \<noteq> None" if "find_job jid d = Some j" for j
    using that by (subst find_job_set_jobs) auto
  show ?thesis
    unfolding m result_def final_db_def transition_def bind_def Some option.case run
    by (auto simp: Let_def begin_session_def row jobs_get_def query_def ret_def raise_def split: option.splits)
qed

theorem transition_exact_witness:
  "result (transition 1 ''SUCCEEDED'') sample_started = Inr (sample_running\<lparr>j_status := SUCCEEDED\<rparr>)
   \<and> result (transition 1 ''PENDING'') sample_started = Inl (HTTPException 409)"
proof -
  have f: "find_job 1 sample_started = Some sample_running"
    by (simp add: find_job_def sample_started_tables) (simp add: sample_running_def sample_job_def new_job_def)
  have r: "j_status sample_running = RUNNING" by (simp add: sample_running_def)
  have "status_of_string ''SUCCEEDED'' = Some SUCCEEDED" "status_of_string ''PENDING'' = Some PENDING"
    using status_of_string_value [of SUCCEEDED] status_of_string_value [of PENDING] by simp_all
  with f r transition_exact [OF job_ids_ok_started, of 1 "''SUCCEEDED''"]
    transition_exact [OF job_ids_ok_started, of 1 "''PENDING''"]
  show ?thesis by (simp add: VALID_TRANSITIONS_def)
qed



text \<open>Creation: the new job has an identifier no job had, is QUEUED with attempt zero, no lease
  and no retry time, carries what the client sent, and is the only change; a configuration that
  is no JSON for the database is an error and changes nothing.\<close>

theorem create_exact:
  "\<exists>jid. jid \<notin> j_id ` set (t_jobs d)
   \<and> (result (create_job now p) d, final_db (create_job now p) d) =
       (if pred_option storable (jc_config p)
        then (Inr ((new_job now jid p)\<lparr>j_status := QUEUED\<rparr>), d\<lparr>t_jobs := t_jobs d @ [(new_job now jid p)\<lparr>j_status := QUEUED\<rparr>]\<rparr>)
        else (Inl DBError, d))"
proof (rule exI, intro conjI)
  let ?i = "fresh_id (map j_id (t_jobs d))"
  show fresh: "?i \<notin> j_id ` set (t_jobs d)" using fresh_id_not_in [of "map j_id (t_jobs d)"] by simp
  then have "sql_update (\<lambda>r. j_id r = ?i) (\<lambda>r. r\<lparr>j_status := QUEUED\<rparr>) (t_jobs d) = t_jobs d"
    by (auto simp: image_iff intro!: sql_update_unmatched)
  then show "(result (create_job now p) d, final_db (create_job now p) d) =
       (if pred_option storable (jc_config p)
        then (Inr ((new_job now ?i p)\<lparr>j_status := QUEUED\<rparr>), d\<lparr>t_jobs := t_jobs d @ [(new_job now ?i p)\<lparr>j_status := QUEUED\<rparr>]\<rparr>)
        else (Inl DBError, d))"
    by (simp_all add: run_defs prog_defs new_job_def)
qed

subsection \<open>The outbox relay\<close>

lemma mark_run:
  "outbox_mark_published now oid s = (if \<exists>e \<in> set (t_outbox (work s)). o_id e = oid
     then let d' = (work s)\<lparr>t_outbox := sql_update (\<lambda>e. o_id e = oid) (\<lambda>e. e\<lparr>o_published_at := Some now\<rparr>) (t_outbox (work s))\<rparr>
          in (Inr (), s\<lparr>work := d', durable := d' # durable s\<rparr>)
     else (Inr (), s))"
  by (auto simp: prog_defs Let_def sql_one_None_iff split: option.splits dest: sql_one_SomeD)

text \<open>What a pass has done when it stops after \<open>k\<close> of the rows.\<close>

definition published_upto :: "time \<Rightarrow> outbox list \<Rightarrow> db \<Rightarrow> db" where
  "published_upto now rows d = d\<lparr>t_outbox :=
     sql_update (\<lambda>e. o_id e \<in> o_id ` set rows) (\<lambda>e. e\<lparr>o_published_at := Some now\<rparr>) (t_outbox d)\<rparr>"

lemma published_upto_Nil [simp]: "published_upto now [] d = d"
  by (simp add: published_upto_def sql_update_unmatched)

lemma published_upto_Cons:
  "o_id row \<in> o_id ` set (t_outbox d) \<Longrightarrow>
   published_upto now rows (d\<lparr>t_outbox := sql_update (\<lambda>e. o_id e = o_id row)
      (\<lambda>e. e\<lparr>o_published_at := Some now\<rparr>) (t_outbox d)\<rparr>) = published_upto now (row # rows) d"
  by (auto simp: published_upto_def sql_update_def)

lemma relay_rows_run:
  assumes "o_id ` set rows \<subseteq> o_id ` set (t_outbox (work s))" and "hd (durable s) = work s" and "durable s \<noteq> []"
  shows "let sent = takeWhile (\<lambda>e. send e = None) rows; r = relay_rows now send rows k s
     in fst r = (if length sent = length rows then Inr (k + length rows) else Inl (the (send (rows ! length sent))))
      \<and> hd (durable (snd r)) = published_upto now sent (work s)"
  using assms
proof (induction rows arbitrary: k s)
  case Nil
  then show ?case by (simp add: ret_def)
next
  case (Cons row rows)
  show ?case
  proof (cases "send row")
    case (Some e)
    with Cons.prems show ?thesis by (simp add: raise_def)
  next
    case None
    let ?d = "(work s)\<lparr>t_outbox := sql_update (\<lambda>e. o_id e = o_id row) (\<lambda>e. e\<lparr>o_published_at := Some now\<rparr>) (t_outbox (work s))\<rparr>"
    let ?s = "s\<lparr>work := ?d, durable := ?d # durable s\<rparr>"
    have ids: "o_id ` set (t_outbox ?d) = o_id ` set (t_outbox (work s))"
      using map_sql_update_key [of "\<lambda>e. o_id e = o_id row" o_id "\<lambda>e. e\<lparr>o_published_at := Some now\<rparr>" "t_outbox (work s)"]
      by (simp flip: set_map)
    have ex: "o_id row \<in> o_id ` set (t_outbox (work s))" using Cons.prems by auto
    then have "relay_rows now send (row # rows) k s = relay_rows now send rows (Suc k) ?s"
      using None by (auto simp: bind_def mark_run Let_def)
    moreover have "o_id ` set rows \<subseteq> o_id ` set (t_outbox (work ?s))" using Cons.prems(1) ids by auto
    ultimately show ?thesis
      using Cons.IH [of ?s "Suc k"] None
        published_upto_Cons [OF ex, of now "takeWhile (\<lambda>e. send e = None) rows"]
      by (simp add: Let_def)
  qed
qed

text \<open>At-least-once delivery: a relay pass takes the oldest unpublished events, at most a
  hundred, in order of creation; it marks exactly those the broker acknowledged before the
  first failure, so an event is never marked without an acknowledgement, and the failure
  is the result of the pass.\<close>

theorem relay_marks_acknowledged:
  "let rows = outbox_list_unpublished 100 d; sent = takeWhile (\<lambda>e. send e = None) rows
   in final_db (relay_once now send) d = published_upto now sent d
    \<and> list_all (\<lambda>e. send e = None \<and> o_published_at e = None) sent
    \<and> result (relay_once now send) d =
        (if length sent = length rows then Inr (length rows) else Inl (the (send (rows ! length sent))))"
proof -
  let ?rows = "outbox_list_unpublished 100 d"
  have sub: "set ?rows \<subseteq> {e \<in> set (t_outbox d). o_published_at e = None}"
    by (auto simp: outbox_list_unpublished_def dest: in_set_takeD)
  have "o_id ` set ?rows \<subseteq> o_id ` set (t_outbox (work (begin_session d)))"
    using sub by (auto simp: begin_session_def)
  from relay_rows_run [OF this, of send now 0]
  have run: "fst (relay_rows now send ?rows 0 (begin_session d)) =
      (let sent = takeWhile (\<lambda>e. send e = None) ?rows
       in if length sent = length ?rows then Inr (length ?rows) else Inl (the (send (?rows ! length sent))))"
    "hd (durable (snd (relay_rows now send ?rows 0 (begin_session d))))
      = published_upto now (takeWhile (\<lambda>e. send e = None) ?rows) d"
    by (simp_all add: begin_session_def Let_def)
  have "list_all (\<lambda>e. send e = None \<and> o_published_at e = None) (takeWhile (\<lambda>e. send e = None) ?rows)"
    using sub by (auto simp: list_all_iff dest: set_takeWhileD)
  with run show ?thesis
    by (simp add: Let_def result_def final_db_def relay_once_def bind_def query_def begin_session_def)
qed

end
