(* ===== verification/Artifacts.thy ===== *)
theory Artifacts
  imports Sessions Worker
begin

text \<open>
  Content-addressed artifacts (app/storage.py, app/repository/artifacts.py,
  app/services/artifacts.py, app/services/reconciler.py).  The object store is outside the
  repository: \<open>put_object key data\<close> is \<open>None\<close> or the exception of the S3 call, and
  \<open>get_object key\<close> the bytes under the key or an exception, \<open>ClientError\<close> when there is no
  such object.  The hash function is an argument too; only that it is a function of the bytes
  is used.  \<open>others\<close> is what other processes commit while the bytes travel.
\<close>

type_synonym bytes = string

subsection \<open>Storage\<close>

definition storage_key_for_hash :: "string \<Rightarrow> string" where
  "storage_key_for_hash content_hash = ''sha256/'' @ content_hash"

definition storage_upload :: "(string \<Rightarrow> bytes \<Rightarrow> exn option) \<Rightarrow> string \<Rightarrow> bytes \<Rightarrow> unit program" where
  "storage_upload put_object storage_key data =
     (case put_object storage_key data of None \<Rightarrow> ret () | Some e \<Rightarrow> raise e)"

definition object_exists_with_hash ::
  "(bytes \<Rightarrow> string) \<Rightarrow> (string \<Rightarrow> exn + bytes) \<Rightarrow> string \<Rightarrow> string \<Rightarrow> bool program" where
  "object_exists_with_hash hash_bytes get_object storage_key expected_hash =
     (case get_object storage_key of
        Inr data \<Rightarrow> ret (hash_bytes data = expected_hash)
      | Inl ClientError \<Rightarrow> ret False
      | Inl e \<Rightarrow> raise e)"

subsection \<open>The artifacts repository\<close>

definition find_artifact :: "uuid \<Rightarrow> db \<Rightarrow> artifact option" where
  "find_artifact aid d = sql_one (\<lambda>a. f_id a = aid) (t_artifacts d)"

definition artifacts_get :: "uuid \<Rightarrow> artifact option program" where
  "artifacts_get aid = query (find_artifact aid)"

definition find_by_hash :: "string \<Rightarrow> db \<Rightarrow> artifact option" where
  "find_by_hash h d = sql_one (\<lambda>a. f_content_hash a = h) (t_artifacts d)"

definition artifacts_get_by_hash :: "string \<Rightarrow> artifact option program" where
  "artifacts_get_by_hash h = query (find_by_hash h)"

text \<open>The hash column is unique and the job column a foreign key; both failures are
  integrity errors.\<close>

definition artifacts_create_pending ::
  "time \<Rightarrow> string \<Rightarrow> string \<Rightarrow> uuid option \<Rightarrow> int option \<Rightarrow> artifact program" where
  "artifacts_create_pending now content_hash artifact_type job_id attempt_number =
     bind (query (\<lambda>d. find_by_hash content_hash d \<noteq> None
             \<or> (case job_id of None \<Rightarrow> False
                  | Some jid \<Rightarrow> \<not> sql_exists (\<lambda>j. j_id j = jid) (t_jobs d)))) (\<lambda>bad.
     if bad then raise IntegrityError
     else bind (query (\<lambda>d. \<lparr>f_id = fresh_id (map f_id (t_artifacts d)), f_content_hash = content_hash,
               f_storage_key = storage_key_for_hash content_hash, f_artifact_type = artifact_type,
               f_size_bytes = None, f_attempt_number = attempt_number, f_job_id = job_id,
               f_status = APending, f_uploader_id = None, f_upload_lease_expires_at = None,
               f_created_at = now, f_uploaded_at = None\<rparr>)) (\<lambda>a.
          bind (execute (\<lambda>d. d\<lparr>t_artifacts := t_artifacts d @ [a]\<rparr>)) (\<lambda>_.
          bind commit (\<lambda>_. ret a))))"

definition update_artifacts :: "(artifact \<Rightarrow> bool) \<Rightarrow> (artifact \<Rightarrow> artifact) \<Rightarrow> nat program" where
  "update_artifacts p f s =
     (Inr (rowcount p (t_artifacts (work s))),
      s\<lparr>work := (work s)\<lparr>t_artifacts := sql_update p f (t_artifacts (work s))\<rparr>\<rparr>)"

text \<open>Every write below is a conditional update of a PENDING row, committed at once.\<close>

definition artifact_update :: "uuid \<Rightarrow> (artifact \<Rightarrow> bool) \<Rightarrow> (artifact \<Rightarrow> artifact) \<Rightarrow> artifact option program" where
  "artifact_update aid p f =
     bind (update_artifacts p f) (\<lambda>n.
     bind commit (\<lambda>_.
     if n = 0 then ret None else artifacts_get aid))"

definition upload_claim_where :: "time \<Rightarrow> uuid \<Rightarrow> artifact \<Rightarrow> bool" where
  "upload_claim_where now aid a \<longleftrightarrow> f_id a = aid \<and> f_status a = APending
   \<and> (f_upload_lease_expires_at a = None \<or> expired (f_upload_lease_expires_at a) now)"

definition upload_claim_set :: "time \<Rightarrow> string \<Rightarrow> int \<Rightarrow> artifact \<Rightarrow> artifact" where
  "upload_claim_set now uploader_id lease_seconds a =
     a\<lparr>f_uploader_id := Some uploader_id, f_upload_lease_expires_at := Some (now + seconds lease_seconds)\<rparr>"

definition claim_upload_lease :: "time \<Rightarrow> uuid \<Rightarrow> string \<Rightarrow> int \<Rightarrow> artifact option program" where
  "claim_upload_lease now aid uploader_id lease_seconds =
     artifact_update aid (upload_claim_where now aid) (upload_claim_set now uploader_id lease_seconds)"

definition holds_upload :: "uuid \<Rightarrow> string \<Rightarrow> artifact \<Rightarrow> bool" where
  "holds_upload aid uploader_id a \<longleftrightarrow>
     f_id a = aid \<and> f_status a = APending \<and> f_uploader_id a = Some uploader_id"

definition renew_upload_lease :: "time \<Rightarrow> uuid \<Rightarrow> string \<Rightarrow> int \<Rightarrow> bool program" where
  "renew_upload_lease now aid uploader_id lease_seconds =
     bind (update_artifacts (holds_upload aid uploader_id)
             (\<lambda>a. a\<lparr>f_upload_lease_expires_at := Some (now + seconds lease_seconds)\<rparr>)) (\<lambda>n.
     bind commit (\<lambda>_. ret (0 < n)))"

definition uploaded_set :: "time \<Rightarrow> int \<Rightarrow> artifact \<Rightarrow> artifact" where
  "uploaded_set now size_bytes a =
     a\<lparr>f_status := AUploaded, f_size_bytes := Some size_bytes, f_uploaded_at := Some now,
       f_upload_lease_expires_at := None\<rparr>"

definition mark_uploaded :: "time \<Rightarrow> uuid \<Rightarrow> string \<Rightarrow> int \<Rightarrow> artifact option program" where
  "mark_uploaded now aid uploader_id size_bytes =
     artifact_update aid (holds_upload aid uploader_id) (uploaded_set now size_bytes)"

definition list_reconcilable :: "time \<Rightarrow> int \<Rightarrow> db \<Rightarrow> artifact list" where
  "list_reconcilable now grace_period_seconds d =
     (let grace_cutoff = now - seconds grace_period_seconds
      in sql_select (\<lambda>a. f_status a = APending \<and>
           (f_upload_lease_expires_at a = None \<and> f_created_at a < grace_cutoff
          \<or> expired (f_upload_lease_expires_at a) now)) (t_artifacts d))"

definition reconcile_where :: "uuid \<Rightarrow> artifact \<Rightarrow> bool" where
  "reconcile_where aid a \<longleftrightarrow> f_id a = aid \<and> f_status a = APending"

definition reconcile_to_uploaded :: "time \<Rightarrow> uuid \<Rightarrow> int \<Rightarrow> artifact option program" where
  "reconcile_to_uploaded now aid size_bytes =
     artifact_update aid (reconcile_where aid) (uploaded_set now size_bytes)"

definition failed_set :: "artifact \<Rightarrow> artifact" where
  "failed_set a = a\<lparr>f_status := AUploadFailed, f_upload_lease_expires_at := None\<rparr>"

definition reconcile_to_failed :: "uuid \<Rightarrow> artifact option program" where
  "reconcile_to_failed aid = artifact_update aid (reconcile_where aid) failed_set"

text \<open>The filter compares the status column with a string of the client.\<close>

fun artifact_status_value :: "artifact_status \<Rightarrow> string" where
  "artifact_status_value APending = ''PENDING''"
| "artifact_status_value AUploaded = ''UPLOADED''"
| "artifact_status_value AUploadFailed = ''FAILED''"

definition artifacts_list :: "string option \<Rightarrow> nat \<Rightarrow> nat \<Rightarrow> db \<Rightarrow> artifact list \<times> nat" where
  "artifacts_list status limit offset d =
     (let base = (case status of None \<Rightarrow> t_artifacts d
                    | Some st \<Rightarrow> sql_select (\<lambda>a. artifact_status_value (f_status a) = st) (t_artifacts d))
      in (take limit (drop offset (sort_key (\<lambda>a. - f_created_at a) base)), length base))"

definition list_all_storage_keys_referenced :: "db \<Rightarrow> string set" where
  "list_all_storage_keys_referenced d =
     f_storage_key ` set (sql_select (\<lambda>a. f_status a \<noteq> AUploadFailed) (t_artifacts d))"

subsection \<open>Uploading\<close>

definition finish_upload ::
  "(bytes \<Rightarrow> string) \<Rightarrow> (string \<Rightarrow> exn + bytes) \<Rightarrow> time \<Rightarrow> bytes \<Rightarrow> string \<Rightarrow> artifact \<Rightarrow> artifact program" where
  "finish_upload hash_bytes get_object now data uploader_id claimed =
     bind (object_exists_with_hash hash_bytes get_object (f_storage_key claimed) (hash_bytes data)) (\<lambda>ok.
     if \<not> ok then raise (HTTPException 502)
     else bind (mark_uploaded now (f_id claimed) uploader_id (int (length data))) (\<lambda>finalized.
          case finalized of None \<Rightarrow> raise (HTTPException 409) | Some a \<Rightarrow> ret a))"

definition upload_artifact ::
  "settings \<Rightarrow> (bytes \<Rightarrow> string) \<Rightarrow> (string \<Rightarrow> bytes \<Rightarrow> exn option) \<Rightarrow> (string \<Rightarrow> exn + bytes) \<Rightarrow> (db \<Rightarrow> db)
   \<Rightarrow> time \<Rightarrow> time \<Rightarrow> bytes \<Rightarrow> string \<Rightarrow> string \<Rightarrow> uuid option \<Rightarrow> int option \<Rightarrow> artifact program" where
  "upload_artifact cfg hash_bytes put_object get_object others now later data artifact_type uploader_id
       job_id attempt_number =
     bind (artifacts_get_by_hash (hash_bytes data)) (\<lambda>existing.
     if (case existing of None \<Rightarrow> False | Some a \<Rightarrow> f_status a = AUploaded) then ret (the existing)
     else bind (case existing of
                  Some a \<Rightarrow> ret a
                | None \<Rightarrow> artifacts_create_pending now (hash_bytes data) artifact_type job_id attempt_number)
            (\<lambda>artifact.
          bind (claim_upload_lease now (f_id artifact) uploader_id (upload_lease_duration_seconds cfg)) (\<lambda>claimed.
          case claimed of
            None \<Rightarrow> raise (HTTPException 409)
          | Some c \<Rightarrow>
              bind (storage_upload put_object (f_storage_key c) data) (\<lambda>_.
              bind (interfere others) (\<lambda>_.
              finish_upload hash_bytes get_object later data uploader_id c)))))"

definition get_uploaded_or_404 :: "uuid \<Rightarrow> artifact program" where
  "get_uploaded_or_404 aid =
     bind (artifacts_get aid) (\<lambda>found.
     case found of
       None \<Rightarrow> raise (HTTPException 404)
     | Some a \<Rightarrow> if f_status a \<noteq> AUploaded then raise (HTTPException 409) else ret a)"

subsection \<open>The reconciler\<close>

definition object_size :: "(string \<Rightarrow> exn + bytes) \<Rightarrow> string \<Rightarrow> int program" where
  "object_size get_object storage_key =
     (case get_object storage_key of Inl e \<Rightarrow> raise e | Inr data \<Rightarrow> ret (int (length data)))"

definition reconcile_one ::
  "(bytes \<Rightarrow> string) \<Rightarrow> (string \<Rightarrow> exn + bytes) \<Rightarrow> time \<Rightarrow> artifact \<Rightarrow> (nat \<times> nat) program" where
  "reconcile_one hash_bytes get_object now a =
     bind (object_exists_with_hash hash_bytes get_object (f_storage_key a) (f_content_hash a)) (\<lambda>ok.
     if ok
     then bind (object_size get_object (f_storage_key a)) (\<lambda>size.
          bind (reconcile_to_uploaded now (f_id a) size) (\<lambda>r.
          ret (if r = None then 0 else 1, 0)))
     else bind (reconcile_to_failed (f_id a)) (\<lambda>r.
          ret (0, if r = None then 0 else 1)))"

fun reconcile_loop ::
  "(bytes \<Rightarrow> string) \<Rightarrow> (string \<Rightarrow> exn + bytes) \<Rightarrow> time \<Rightarrow> artifact list \<Rightarrow> nat \<Rightarrow> nat \<Rightarrow> (nat \<times> nat) program" where
  "reconcile_loop hash_bytes get_object now [] healed failed = ret (healed, failed)"
| "reconcile_loop hash_bytes get_object now (a # as) healed failed =
     bind (reconcile_one hash_bytes get_object now a) (\<lambda>(h, f).
     reconcile_loop hash_bytes get_object now as (healed + h) (failed + f))"

definition reconcile_pending_artifacts ::
  "settings \<Rightarrow> (bytes \<Rightarrow> string) \<Rightarrow> (string \<Rightarrow> exn + bytes) \<Rightarrow> time \<Rightarrow> (nat \<times> nat) program" where
  "reconcile_pending_artifacts cfg hash_bytes get_object now =
     bind (query (list_reconcilable now (artifact_pending_grace_period_seconds cfg))) (\<lambda>as.
     reconcile_loop hash_bytes get_object now as 0 0)"

text \<open>\<open>stored_keys\<close> are the keys of the bucket, in the order of its pages.\<close>

definition detect_orphans :: "string list \<Rightarrow> db \<Rightarrow> string list" where
  "detect_orphans stored_keys d = filter (\<lambda>k. k \<notin> list_all_storage_keys_referenced d) stored_keys"

end
