(* ===== verification/ArtifactLaws.thy ===== *)
theory ArtifactLaws
  imports Artifacts
begin

text \<open>
  What the artifact subsystem guarantees: a row never changes its content hash, its storage key
  or its origin, and once it has left PENDING it never changes again; no two rows share a hash;
  and an UPLOADED row names an object whose bytes hash to the row's content hash.  All of it
  holds at every commit of an upload or of a reconciler pass, whatever the object store answers
  and whatever other processes commit while the bytes travel.
\<close>

subsection \<open>The invariant\<close>

definition same_artifact :: "artifact \<Rightarrow> artifact \<Rightarrow> bool" where
  "same_artifact a b \<longleftrightarrow> f_id b = f_id a \<and> f_content_hash b = f_content_hash a
   \<and> f_storage_key b = f_storage_key a \<and> f_artifact_type b = f_artifact_type a
   \<and> f_job_id b = f_job_id a \<and> f_attempt_number b = f_attempt_number a
   \<and> f_created_at b = f_created_at a"

text \<open>One row, later: the same artifact, and the same row unless it was PENDING.\<close>

definition artifact_later :: "artifact \<Rightarrow> artifact \<Rightarrow> bool" where
  "artifact_later a b \<longleftrightarrow> same_artifact a b \<and> (f_status a \<noteq> APending \<longrightarrow> b = a)"

definition artifacts_later :: "db \<Rightarrow> db \<Rightarrow> bool" where
  "artifacts_later d0 d \<longleftrightarrow> (\<forall>a \<in> set (t_artifacts d0). \<exists>b \<in> set (t_artifacts d). artifact_later a b)"

text \<open>\<open>verified\<close>: the store holds bytes under the row's key that hash to the row's hash.\<close>

definition verified :: "(bytes \<Rightarrow> string) \<Rightarrow> (string \<Rightarrow> exn + bytes) \<Rightarrow> artifact \<Rightarrow> bool" where
  "verified hash_bytes get_object a \<longleftrightarrow>
     (case get_object (f_storage_key a) of Inl e \<Rightarrow> False | Inr data \<Rightarrow> hash_bytes data = f_content_hash a)"

definition artifact_ok :: "(bytes \<Rightarrow> string) \<Rightarrow> (string \<Rightarrow> exn + bytes) \<Rightarrow> artifact \<Rightarrow> bool" where
  "artifact_ok hash_bytes get_object a \<longleftrightarrow>
     f_storage_key a = storage_key_for_hash (f_content_hash a)
   \<and> (f_status a \<noteq> APending \<longrightarrow> f_upload_lease_expires_at a = None)
   \<and> (f_status a = AUploaded \<longrightarrow> f_size_bytes a \<noteq> None \<and> f_uploaded_at a \<noteq> None
        \<and> verified hash_bytes get_object a)"

definition artifacts_ok :: "(bytes \<Rightarrow> string) \<Rightarrow> (string \<Rightarrow> exn + bytes) \<Rightarrow> db \<Rightarrow> bool" where
  "artifacts_ok hash_bytes get_object d \<longleftrightarrow>
     distinct (map f_id (t_artifacts d)) \<and> distinct (map f_content_hash (t_artifacts d))
   \<and> (\<forall>a \<in> set (t_artifacts d). artifact_ok hash_bytes get_object a)"

text \<open>The invariant of a history that started in \<open>d0\<close>.\<close>

definition artifacts_inv :: "(bytes \<Rightarrow> string) \<Rightarrow> (string \<Rightarrow> exn + bytes) \<Rightarrow> db \<Rightarrow> db \<Rightarrow> bool" where
  "artifacts_inv hash_bytes get_object d0 d \<longleftrightarrow>
     artifacts_ok hash_bytes get_object d \<and> artifacts_later d0 d"

text \<open>Another process is well behaved when it keeps the same invariant; both operations of this
  component are, as is any statement that leaves the table alone.\<close>

definition keeps_artifacts :: "(bytes \<Rightarrow> string) \<Rightarrow> (string \<Rightarrow> exn + bytes) \<Rightarrow> (db \<Rightarrow> db) \<Rightarrow> bool" where
  "keeps_artifacts hash_bytes get_object others \<longleftrightarrow>
     (\<forall>d. artifacts_ok hash_bytes get_object d \<longrightarrow> artifacts_inv hash_bytes get_object d (others d))"

lemma same_artifact_refl [simp]: "same_artifact a a"
  by (simp add: same_artifact_def)

lemma artifacts_later_refl [simp]: "artifacts_later d d"
  unfolding artifacts_later_def artifact_later_def by (blast intro: same_artifact_refl)

lemma artifact_later_trans: "artifact_later a b \<Longrightarrow> artifact_later b c \<Longrightarrow> artifact_later a c"
  by (auto simp: artifact_later_def same_artifact_def)

lemma artifacts_later_trans: "artifacts_later d d' \<Longrightarrow> artifacts_later d' d'' \<Longrightarrow> artifacts_later d d''"
  unfolding artifacts_later_def by (meson artifact_later_trans)

lemma inv_others:
  "keeps_artifacts hb go others \<Longrightarrow> artifacts_inv hb go d0 d \<Longrightarrow> artifacts_inv hb go d0 (others d)"
  by (auto simp: keeps_artifacts_def artifacts_inv_def intro: artifacts_later_trans)

lemma artifact_id_unique:
  "artifacts_ok hb go d \<Longrightarrow> a \<in> set (t_artifacts d) \<Longrightarrow> b \<in> set (t_artifacts d) \<Longrightarrow> f_id a = f_id b \<Longrightarrow> a = b"
  by (auto simp: artifacts_ok_def dest: distinct_map_eqD)

text \<open>\<open>has_row\<close> is what a service remembers of the row it read.\<close>

definition has_row :: "artifact \<Rightarrow> db \<Rightarrow> bool" where
  "has_row a d \<longleftrightarrow> (\<exists>b \<in> set (t_artifacts d). same_artifact a b)"

lemma has_row_later: "artifacts_later d d' \<Longrightarrow> has_row a d \<Longrightarrow> has_row a d'"
  by (fastforce simp: has_row_def artifacts_later_def artifact_later_def same_artifact_def)

lemma has_row_others:
  "keeps_artifacts hb go others \<Longrightarrow> artifacts_ok hb go d \<Longrightarrow> has_row a d \<Longrightarrow> has_row a (others d)"
  by (auto simp: keeps_artifacts_def artifacts_inv_def intro: has_row_later)

lemma has_row_same:
  "artifacts_ok hb go d \<Longrightarrow> has_row a d \<Longrightarrow> b \<in> set (t_artifacts d) \<Longrightarrow> f_id b = f_id a \<Longrightarrow> same_artifact a b"
  unfolding has_row_def by (metis artifact_id_unique same_artifact_def)

subsection \<open>The statements keep it\<close>

abbreviation put_rows :: "(artifact \<Rightarrow> bool) \<Rightarrow> (artifact \<Rightarrow> artifact) \<Rightarrow> db \<Rightarrow> db" where
  "put_rows p f d \<equiv> d\<lparr>t_artifacts := sql_update p f (t_artifacts d)\<rparr>"

lemma update_later:
  assumes "\<And>a. p a \<Longrightarrow> f_status a = APending" and "\<And>a. same_artifact a (f a)"
  shows "artifacts_later d (put_rows p f d)"
proof -
  have "artifact_later a (if p a then f a else a)" for a
    using assms by (auto simp: artifact_later_def)
  then have "\<forall>a \<in> set (t_artifacts d).
      \<exists>b \<in> (\<lambda>r. if p r then f r else r) ` set (t_artifacts d). artifact_later a b" by blast
  then show ?thesis by (simp add: artifacts_later_def sql_update_def del: bex_simps)
qed

lemma update_inv:
  assumes inv: "artifacts_inv hb go d0 d"
    and pend: "\<And>a. p a \<Longrightarrow> f_status a = APending" and same: "\<And>a. same_artifact a (f a)"
    and ok: "\<And>a. a \<in> set (t_artifacts d) \<Longrightarrow> p a \<Longrightarrow> artifact_ok hb go a \<Longrightarrow> artifact_ok hb go (f a)"
  shows "artifacts_inv hb go d0 (put_rows p f d)"
proof -
  have "map f_id (sql_update p f (t_artifacts d)) = map f_id (t_artifacts d)"
    "map f_content_hash (sql_update p f (t_artifacts d)) = map f_content_hash (t_artifacts d)"
    using same by (simp_all add: map_sql_update_key same_artifact_def)
  moreover have "artifact_ok hb go a" if "a \<in> set (sql_update p f (t_artifacts d))" for a
    using that inv ok by (auto simp: artifacts_inv_def artifacts_ok_def in_sql_update_iff split: if_splits)
  ultimately have "artifacts_ok hb go (put_rows p f d)"
    using inv by (simp add: artifacts_inv_def artifacts_ok_def)
  with inv update_later [of p f d, OF pend same] show ?thesis
    by (auto simp: artifacts_inv_def intro: artifacts_later_trans)
qed

lemma find_by_hash_None: "find_by_hash h d = None \<longleftrightarrow> h \<notin> f_content_hash ` set (t_artifacts d)"
  by (auto simp: find_by_hash_def sql_one_None_iff)

lemma insert_inv:
  assumes "artifacts_inv hb go d0 d" and "find_by_hash (f_content_hash a) d = None"
    and "f_id a = fresh_id (map f_id (t_artifacts d))" and "artifact_ok hb go a"
  shows "artifacts_inv hb go d0 (d\<lparr>t_artifacts := t_artifacts d @ [a]\<rparr>)"
proof -
  have "f_id a \<notin> f_id ` set (t_artifacts d)"
    using fresh_id_not_in [of "map f_id (t_artifacts d)"] assms(3) by simp
  with assms show ?thesis
    by (auto simp: artifacts_inv_def artifacts_ok_def find_by_hash_None artifacts_later_def)
qed

subsection \<open>The operations keep it\<close>

text \<open>\<open>knows a\<close> is the invariant of the history together with the row a service has read.\<close>

definition knows ::
  "(bytes \<Rightarrow> string) \<Rightarrow> (string \<Rightarrow> exn + bytes) \<Rightarrow> db \<Rightarrow> artifact \<Rightarrow> db \<Rightarrow> bool" where
  "knows hb go d0 a d \<longleftrightarrow> artifacts_inv hb go d0 d \<and> has_row a d
   \<and> f_storage_key a = storage_key_for_hash (f_content_hash a)"

lemma knows_inv: "knows hb go d0 a d \<Longrightarrow> artifacts_inv hb go d0 d"
  by (simp add: knows_def)

lemma knows_member:
  "artifacts_inv hb go d0 d \<Longrightarrow> a \<in> set (t_artifacts d) \<Longrightarrow> knows hb go d0 a d"
  unfolding knows_def artifacts_inv_def artifacts_ok_def artifact_ok_def has_row_def
  by (blast intro: same_artifact_refl)

lemma knows_others: "keeps_artifacts hb go others \<Longrightarrow> knows hb go d0 a d \<Longrightarrow> knows hb go d0 a (others d)"
  by (auto simp: knows_def artifacts_inv_def intro: has_row_others dest: inv_others [unfolded artifacts_inv_def])

text \<open>The guards of the four conditional updates, and what each writes.\<close>

lemma upload_where_pending:
  "upload_claim_where now aid a \<Longrightarrow> f_status a = APending"
  "holds_upload aid u a \<Longrightarrow> f_status a = APending"
  "reconcile_where aid a \<Longrightarrow> f_status a = APending"
  by (simp_all add: upload_claim_where_def holds_upload_def reconcile_where_def)

lemma upload_where_id:
  "upload_claim_where now aid a \<Longrightarrow> f_id a = aid"
  "holds_upload aid u a \<Longrightarrow> f_id a = aid"
  "reconcile_where aid a \<Longrightarrow> f_id a = aid"
  by (simp_all add: upload_claim_where_def holds_upload_def reconcile_where_def)

lemma upload_set_same [simp]:
  "same_artifact a (upload_claim_set now u secs a)"
  "same_artifact a (uploaded_set now n a)"
  "same_artifact a (failed_set a)"
  "same_artifact a (a\<lparr>f_upload_lease_expires_at := e\<rparr>)"
  by (simp_all add: same_artifact_def upload_claim_set_def uploaded_set_def failed_set_def)

lemma verified_same: "same_artifact a b \<Longrightarrow> verified hb go a \<Longrightarrow> verified hb go b"
  by (simp add: same_artifact_def verified_def split: sum.splits)

lemma claim_set_ok:
  "f_status a = APending \<Longrightarrow> artifact_ok hb go a \<Longrightarrow> artifact_ok hb go (upload_claim_set now u secs a)"
  by (simp add: artifact_ok_def upload_claim_set_def)

lemma failed_set_ok: "artifact_ok hb go a \<Longrightarrow> artifact_ok hb go (failed_set a)"
  by (simp add: artifact_ok_def failed_set_def)

lemma uploaded_set_ok:
  "artifact_ok hb go a \<Longrightarrow> verified hb go a \<Longrightarrow> artifact_ok hb go (uploaded_set now n a)"
  using verified_same [OF upload_set_same(2)] by (fastforce simp: artifact_ok_def uploaded_set_def)

text \<open>A conditional update that addresses one PENDING row; its result is the row it wrote.\<close>

lemma triple_update_artifacts:
  "(\<And>d. P d \<Longrightarrow> Q (rowcount p (t_artifacts d)) (put_rows p f d)) \<Longrightarrow> triple I P (update_artifacts p f) Q"
  by (simp add: triple_def update_artifacts_def durable_ok_def)

lemma triple_artifact_update:
  assumes "\<And>d. P d \<Longrightarrow> I (put_rows p f d) \<and> R (0 < rowcount p (t_artifacts d)) (put_rows p f d)"
  shows "triple I P (artifact_update aid p f)
           (\<lambda>r d. (R True d \<or> r = None \<and> R False d) \<and> (\<forall>a. r = Some a \<longrightarrow> a \<in> set (t_artifacts d) \<and> f_id a = aid))"
proof -
  let ?Q = "\<lambda>r d. (R True d \<or> r = None \<and> R False d) \<and> (\<forall>a. r = Some a \<longrightarrow> a \<in> set (t_artifacts d) \<and> f_id a = aid)"
  have upd: "triple I P (update_artifacts p f) (\<lambda>n d. I d \<and> R (0 < n) d)"
    using assms by (rule triple_update_artifacts)
  have com: "triple I (\<lambda>d. I d \<and> R (0 < n) d) commit (\<lambda>_. R (0 < n))" for n :: nat
    by (rule triple_commit) simp
  have get: "triple I (R (0 < n)) (if n = 0 then ret None else artifacts_get aid) ?Q" for n :: nat
    unfolding artifacts_get_def find_artifact_def
    by (rule triple_if; (rule triple_ret triple_query; auto dest: sql_one_SomeD)?)
  show ?thesis
    unfolding artifact_update_def by (rule triple_bind [OF upd triple_bind [OF com get]])
qed

lemma knows_update:
  assumes "knows hb go d0 a d" and "\<And>b. p b \<Longrightarrow> f_status b = APending" and "\<And>b. same_artifact b (f b)"
    and "\<And>b. b \<in> set (t_artifacts d) \<Longrightarrow> p b \<Longrightarrow> artifact_ok hb go b \<Longrightarrow> artifact_ok hb go (f b)"
  shows "knows hb go d0 a (put_rows p f d)"
  using assms(1) update_inv [of hb go d0 d p f] has_row_later [OF update_later [of p f d]] assms(2-4)
  by (auto simp: knows_def)

lemma knows_same:
  "knows hb go d0 a d \<Longrightarrow> b \<in> set (t_artifacts d) \<Longrightarrow> f_id b = f_id a \<Longrightarrow> same_artifact a b"
  by (auto simp: knows_def artifacts_inv_def intro: has_row_same)

lemma knows_row:
  "knows hb go d0 a d \<Longrightarrow> b \<in> set (t_artifacts d) \<Longrightarrow> f_id b = f_id a \<Longrightarrow> knows hb go d0 b d \<and> same_artifact a b"
  by (auto simp: knows_same intro: knows_member [OF knows_inv])

lemma triple_create_pending:
  assumes "\<And>d. P d \<Longrightarrow> artifacts_inv hb go d0 d"
  shows "triple (artifacts_inv hb go d0) P
     (artifacts_create_pending now h ty job att) (\<lambda>a d. knows hb go d0 a d \<and> f_content_hash a = h)"
proof -
  let ?I = "artifacts_inv hb go d0"
  let ?new = "\<lambda>a d. ?I d \<and> find_by_hash h d = None \<and> f_content_hash a = h \<and> artifact_ok hb go a
    \<and> f_id a = fresh_id (map f_id (t_artifacts d))"
  have ins: "?I (d\<lparr>t_artifacts := t_artifacts d @ [a]\<rparr>)" if "?new a d" for a d
    using that insert_inv [of hb go d0 d a] by simp
  show ?thesis
    unfolding artifacts_create_pending_def
    by (rule triple_intros triple_query [where Q = "\<lambda>bad d. ?I d \<and> (\<not> bad \<longrightarrow> find_by_hash h d = None)"]
          triple_query [where Q = ?new]
          triple_execute [where Q = "\<lambda>_ d. ?I d \<and> a \<in> set (t_artifacts d) \<and> f_content_hash a = h" for a]
          triple_commit [where Q = "\<lambda>_ d. ?I d \<and> a \<in> set (t_artifacts d) \<and> f_content_hash a = h" for a]
        | use assms ins in \<open>auto simp: artifact_ok_def intro: knows_member\<close>)+
qed

lemma triple_claim_upload:
  "triple (artifacts_inv hb go d0) (knows hb go d0 a) (claim_upload_lease now (f_id a) u secs)
     (\<lambda>r d. \<forall>c. r = Some c \<longrightarrow> knows hb go d0 c d \<and> same_artifact a c)"
proof -
  let ?p = "upload_claim_where now (f_id a)" and ?f = "upload_claim_set now u secs"
  have k: "knows hb go d0 a (put_rows ?p ?f d)" if "knows hb go d0 a d" for d
    using that by (rule knows_update) (auto dest: upload_where_pending intro: claim_set_ok)
  then have "triple (artifacts_inv hb go d0) (knows hb go d0 a) (artifact_update (f_id a) ?p ?f)
     (\<lambda>r d. (knows hb go d0 a d \<or> r = None \<and> knows hb go d0 a d) \<and> (\<forall>c. r = Some c \<longrightarrow> c \<in> set (t_artifacts d) \<and> f_id c = f_id a))"
    by (intro triple_artifact_update [where R = "\<lambda>_. knows hb go d0 a"]) (auto dest: knows_inv)
  then show ?thesis
    unfolding claim_upload_lease_def by (rule triple_weaken) (auto dest: knows_row)
qed

text \<open>The last step of an upload: verified bytes, then the fenced flip of the row.\<close>

definition uploaded_row :: "artifact \<Rightarrow> db \<Rightarrow> bool" where
  "uploaded_row a d \<longleftrightarrow> a \<in> set (t_artifacts d) \<and> f_status a = AUploaded"

lemma triple_mark_uploaded:
  assumes "verified hb go c"
  shows "triple (artifacts_inv hb go d0) (knows hb go d0 c) (mark_uploaded now (f_id c) u n)
     (\<lambda>r d. \<forall>a. r = Some a \<longrightarrow> artifacts_inv hb go d0 d \<and> uploaded_row a d \<and> same_artifact c a)"
proof -
  let ?p = "holds_upload (f_id c) u" and ?f = "uploaded_set now n"
  let ?R = "\<lambda>hit d. knows hb go d0 c d
    \<and> (hit \<longrightarrow> (\<exists>b \<in> set (t_artifacts d). f_id b = f_id c \<and> f_status b = AUploaded))"
  have step: "artifacts_inv hb go d0 (put_rows ?p ?f d) \<and> ?R (0 < rowcount ?p (t_artifacts d)) (put_rows ?p ?f d)"
    if d: "knows hb go d0 c d" for d
  proof -
    have "artifact_ok hb go (?f b)" if "b \<in> set (t_artifacts d)" "?p b" "artifact_ok hb go b" for b
      using that knows_same [OF d that(1)] assms upload_where_id(2) [OF that(2)]
      by (intro uploaded_set_ok) (auto intro: verified_same)
    then have k: "knows hb go d0 c (put_rows ?p ?f d)"
      using knows_update [OF d, of ?p ?f] upload_where_pending(2) by simp
    moreover have "\<exists>b \<in> set (sql_update ?p ?f (t_artifacts d)). f_id b = f_id c \<and> f_status b = AUploaded"
      if "b \<in> set (t_artifacts d)" "?p b" for b
    proof (rule bexI)
      show "?f b \<in> set (sql_update ?p ?f (t_artifacts d))"
        using that by (auto simp: in_sql_update_iff)
      show "f_id (?f b) = f_id c \<and> f_status (?f b) = AUploaded"
        using upload_where_id(2) [OF that(2)] by (simp add: uploaded_set_def)
    qed
    ultimately show ?thesis using knows_inv [OF k] by auto
  qed
  have row: "uploaded_row a d \<and> same_artifact c a \<and> artifacts_inv hb go d0 d"
    if R: "?R True d" and a: "a \<in> set (t_artifacts d)" "f_id a = f_id c" for a d
  proof -
    obtain b where "b \<in> set (t_artifacts d)" "f_id b = f_id c" "f_status b = AUploaded" using R by auto
    moreover have "b = a"
      using artifact_id_unique [of hb go d b a] calculation a R by (simp add: knows_def artifacts_inv_def)
    ultimately show ?thesis using R a by (auto simp: uploaded_row_def knows_same knows_inv)
  qed
  have "triple (artifacts_inv hb go d0) (knows hb go d0 c) (artifact_update (f_id c) ?p ?f)
     (\<lambda>r d. (?R True d \<or> r = None \<and> ?R False d) \<and> (\<forall>a. r = Some a \<longrightarrow> a \<in> set (t_artifacts d) \<and> f_id a = f_id c))"
    using step by (rule triple_artifact_update)
  then show ?thesis
    unfolding mark_uploaded_def
  proof (rule triple_weaken)
    fix r d
    assume "(?R True d \<or> r = None \<and> ?R False d) \<and> (\<forall>a. r = Some a \<longrightarrow> a \<in> set (t_artifacts d) \<and> f_id a = f_id c)"
    then show "\<forall>a. r = Some a \<longrightarrow> artifacts_inv hb go d0 d \<and> uploaded_row a d \<and> same_artifact c a"
      using row by blast
  qed
qed

lemma triple_interfere:
  "(\<And>d. P d \<Longrightarrow> Q () (others d)) \<Longrightarrow> (\<And>d. I d \<Longrightarrow> I (others d)) \<Longrightarrow> triple I P (interfere others) Q"
  by (simp add: triple_def interfere_def durable_ok_def)

lemma triple_finish_upload:
  assumes "f_content_hash c = hb data"
  shows "triple (artifacts_inv hb go d0) (knows hb go d0 c) (finish_upload hb go now data u c)
     (\<lambda>a d. artifacts_inv hb go d0 d \<and> uploaded_row a d \<and> same_artifact c a)"
proof -
  let ?P = "knows hb go d0 c" and ?I = "artifacts_inv hb go d0"
  have chk: "triple ?I ?P (object_exists_with_hash hb go (f_storage_key c) (hb data))
      (\<lambda>ok d. ?P d \<and> (ok \<longrightarrow> verified hb go c))"
    unfolding object_exists_with_hash_def using assms
    by (auto simp: verified_def split: sum.splits exn.splits intro!: triple_intros)
  let ?R = "\<lambda>r d. \<forall>a. r = Some a \<longrightarrow> ?I d \<and> uploaded_row a d \<and> same_artifact c a"
  let ?Q = "\<lambda>a d. ?I d \<and> uploaded_row a d \<and> same_artifact c a"
  have mark: "triple ?I (\<lambda>d. ?P d \<and> verified hb go c) (mark_uploaded now (f_id c) u n) ?R" for n
    by (rule triple_pre [of _ "verified hb go c"], simp)
       (rule triple_weaken [OF triple_mark_uploaded], auto)
  have ret: "triple ?I (?R r) (case r of None \<Rightarrow> raise (HTTPException 409) | Some a \<Rightarrow> ret a) ?Q" for r
    by (cases r) (auto intro: triple_raise triple_ret)
  show ?thesis
    unfolding finish_upload_def
  proof (rule triple_bind [OF chk], rule triple_if)
    fix ok assume "\<not> ok"
    show "triple ?I (\<lambda>d. ?P d \<and> (ok \<longrightarrow> verified hb go c)) (raise (HTTPException 502)) ?Q"
      by (rule triple_raise)
  next
    fix ok assume "\<not> \<not> ok"
    then show "triple ?I (\<lambda>d. ?P d \<and> (ok \<longrightarrow> verified hb go c))
        (bind (mark_uploaded now (f_id c) u (int (length data)))
          (\<lambda>finalized. case finalized of None \<Rightarrow> raise (HTTPException 409) | Some a \<Rightarrow> ret a)) ?Q"
      using triple_bind [OF mark ret] by simp
  qed
qed

lemma triple_upload:
  assumes others: "keeps_artifacts hb go others"
  shows "triple (artifacts_inv hb go d0) (artifacts_inv hb go d0)
     (upload_artifact cfg hb put go others now later data ty u job att)
     (\<lambda>a d. artifacts_inv hb go d0 d \<and> uploaded_row a d \<and> f_content_hash a = hb data)"
proof -
  let ?I = "artifacts_inv hb go d0"
  let ?Q = "\<lambda>a d. ?I d \<and> uploaded_row a d \<and> f_content_hash a = hb data"
  let ?K = "\<lambda>a d. knows hb go d0 a d \<and> f_content_hash a = hb data"
  let ?E = "\<lambda>existing d. ?I d \<and> (\<forall>a. existing = Some a \<longrightarrow> a \<in> set (t_artifacts d) \<and> f_content_hash a = hb data)"
  have get: "triple ?I ?I (artifacts_get_by_hash (hb data)) ?E"
    unfolding artifacts_get_by_hash_def find_by_hash_def
    by (rule triple_query) (auto dest: sql_one_SomeD)
  have row: "triple ?I (?E existing)
      (case existing of Some a \<Rightarrow> ret a | None \<Rightarrow> artifacts_create_pending now (hb data) ty job att) ?K" for existing
    by (cases existing) (auto intro!: triple_create_pending triple_ret intro: knows_member)
  have finish: "triple ?I (?K c) (bind (storage_upload put (f_storage_key c) data) (\<lambda>_.
        bind (interfere others) (\<lambda>_. finish_upload hb go later data u c))) ?Q" for c
  proof (rule triple_pre [of _ "f_content_hash c = hb data"], simp)
    assume c: "f_content_hash c = hb data"
    have "triple ?I (knows hb go d0 c) (storage_upload put (f_storage_key c) data) (\<lambda>_. knows hb go d0 c)"
      unfolding storage_upload_def by (intro triple_intros) auto
    moreover have "triple ?I (knows hb go d0 c) (interfere others) (\<lambda>_. knows hb go d0 c)"
      using others by (intro triple_interfere) (auto intro: knows_others inv_others)
    moreover have "triple ?I (knows hb go d0 c) (finish_upload hb go later data u c) ?Q"
      using triple_finish_upload [of c hb data, OF c] by (rule triple_weaken) (auto simp: same_artifact_def c)
    ultimately have "triple ?I (knows hb go d0 c) (bind (storage_upload put (f_storage_key c) data) (\<lambda>_.
        bind (interfere others) (\<lambda>_. finish_upload hb go later data u c))) ?Q"
      by (intro triple_bind)
    then show "triple ?I (?K c) (bind (storage_upload put (f_storage_key c) data) (\<lambda>_.
        bind (interfere others) (\<lambda>_. finish_upload hb go later data u c))) ?Q"
      by (rule triple_weaken) auto
  qed
  have claim: "triple ?I (?K a) (bind (claim_upload_lease now (f_id a) u secs) (\<lambda>claimed.
      case claimed of None \<Rightarrow> raise (HTTPException 409)
      | Some c \<Rightarrow> bind (storage_upload put (f_storage_key c) data) (\<lambda>_.
          bind (interfere others) (\<lambda>_. finish_upload hb go later data u c)))) ?Q" for a secs
  proof (rule triple_pre [of _ "f_content_hash a = hb data"], simp, rule triple_bind)
    assume "f_content_hash a = hb data"
    then show "triple ?I (?K a) (claim_upload_lease now (f_id a) u secs) (\<lambda>r d. \<forall>c. r = Some c \<longrightarrow> ?K c d)"
      by (intro triple_weaken [OF triple_claim_upload]) (auto simp: same_artifact_def)
    show "triple ?I (\<lambda>d. \<forall>c. r = Some c \<longrightarrow> ?K c d) (case r of None \<Rightarrow> raise (HTTPException 409)
      | Some c \<Rightarrow> bind (storage_upload put (f_storage_key c) data) (\<lambda>_.
          bind (interfere others) (\<lambda>_. finish_upload hb go later data u c))) ?Q" for r
      by (cases r) (auto intro: triple_raise triple_weaken [OF finish])
  qed
  show ?thesis
    unfolding upload_artifact_def
  proof (rule triple_bind [OF get], rule triple_if)
    fix existing :: "artifact option"
    assume "case existing of None \<Rightarrow> False | Some a \<Rightarrow> f_status a = AUploaded"
    then show "triple ?I (?E existing) (ret (the existing)) ?Q"
      by (cases existing) (auto intro!: triple_ret simp: uploaded_row_def)
  qed (rule triple_bind [OF row claim])
qed

subsection \<open>The reconciler keeps it\<close>

lemma triple_reconcile_one:
  assumes "a \<in> set as"
  shows "triple (artifacts_inv hb go d0) (\<lambda>d. artifacts_inv hb go d0 d \<and> (\<forall>b \<in> set as. knows hb go d0 b d))
     (reconcile_one hb go now a) (\<lambda>_ d. artifacts_inv hb go d0 d \<and> (\<forall>b \<in> set as. knows hb go d0 b d))"
proof -
  let ?I = "artifacts_inv hb go d0"
  let ?K = "\<lambda>d. ?I d \<and> (\<forall>b \<in> set as. knows hb go d0 b d)"
  let ?p = "reconcile_where (f_id a)"
  have upd: "triple ?I ?K (artifact_update (f_id a) ?p f) (\<lambda>_. ?K)"
    if f: "\<And>b. same_artifact b (f b)"
      and ok: "\<And>b. same_artifact a b \<Longrightarrow> artifact_ok hb go b \<Longrightarrow> artifact_ok hb go (f b)" for f
  proof -
    have "?K (put_rows ?p f d)" if K: "?K d" for d
    proof -
      have "artifact_ok hb go (f b)" if "b \<in> set (t_artifacts d)" "?p b" "artifact_ok hb go b" for b
        using that K assms ok knows_same upload_where_id(3) by blast
      with K f show ?thesis
        using update_inv [of hb go d0 d ?p f] knows_update [of hb go d0 _ d ?p f] upload_where_pending(3)
        by blast
    qed
    then have "triple ?I ?K (artifact_update (f_id a) ?p f) (\<lambda>r d. (?K d \<or> r = None \<and> ?K d)
        \<and> (\<forall>b. r = Some b \<longrightarrow> b \<in> set (t_artifacts d) \<and> f_id b = f_id a))"
      by (intro triple_artifact_update [where R = "\<lambda>_. ?K"]) blast
    then show ?thesis by (rule triple_weaken) blast+
  qed
  have chk: "triple ?I ?K (object_exists_with_hash hb go (f_storage_key a) (f_content_hash a))
      (\<lambda>ok d. ?K d \<and> (ok \<longrightarrow> verified hb go a))"
    unfolding object_exists_with_hash_def
    by (auto simp: verified_def split: sum.splits exn.splits intro!: triple_intros)
  have size: "triple ?I ?K (object_size go (f_storage_key a)) (\<lambda>_. ?K)"
    unfolding object_size_def by (auto split: sum.splits intro!: triple_intros)
  have heal: "triple ?I ?K (reconcile_to_uploaded now (f_id a) n) (\<lambda>_. ?K)" if "verified hb go a" for n
    unfolding reconcile_to_uploaded_def
    by (rule upd) (use that in \<open>auto intro: uploaded_set_ok verified_same\<close>)
  have fail: "triple ?I ?K (reconcile_to_failed (f_id a)) (\<lambda>_. ?K)"
    unfolding reconcile_to_failed_def by (rule upd) (auto intro: failed_set_ok)
  show ?thesis
    unfolding reconcile_one_def
  proof (rule triple_bind [OF chk], rule triple_if)
    fix ok assume ok: "ok"
    show "triple ?I (\<lambda>d. ?K d \<and> (ok \<longrightarrow> verified hb go a))
        (bind (object_size go (f_storage_key a)) (\<lambda>size. bind (reconcile_to_uploaded now (f_id a) size)
          (\<lambda>r. ret (if r = None then 0 else 1, 0)))) (\<lambda>_. ?K)"
    proof (rule triple_pre [of _ "verified hb go a"])
      assume v: "verified hb go a"
      show ?thesis
        by (rule triple_weaken [OF triple_bind [OF size triple_bind [OF heal [OF v] triple_ret]]]) auto
    qed (use ok in simp)
  next
    fix ok assume "\<not> ok"
    show "triple ?I (\<lambda>d. ?K d \<and> (ok \<longrightarrow> verified hb go a))
        (bind (reconcile_to_failed (f_id a)) (\<lambda>r. ret (0, if r = None then 0 else 1))) (\<lambda>_. ?K)"
      by (rule triple_weaken [OF triple_bind [OF fail triple_ret]]) auto
  qed
qed

lemma triple_reconcile_loop:
  "set as \<subseteq> set bs \<Longrightarrow> triple (artifacts_inv hb go d0)
     (\<lambda>d. artifacts_inv hb go d0 d \<and> (\<forall>b \<in> set bs. knows hb go d0 b d))
     (reconcile_loop hb go now as h f) (\<lambda>_. artifacts_inv hb go d0)"
proof (induction as arbitrary: h f)
  case Nil
  then show ?case by (auto intro: triple_ret)
next
  case (Cons a as)
  then have "a \<in> set bs" "set as \<subseteq> set bs" by auto
  then show ?case
    using Cons.IH by (auto split: prod.splits intro!: triple_bind [OF triple_reconcile_one])
qed

lemma triple_reconcile:
  "triple (artifacts_inv hb go d0) (artifacts_inv hb go d0) (reconcile_pending_artifacts cfg hb go now)
     (\<lambda>_. artifacts_inv hb go d0)"
  unfolding reconcile_pending_artifacts_def
proof (rule triple_bind)
  show "triple (artifacts_inv hb go d0) (artifacts_inv hb go d0)
      (query (list_reconcilable now (artifact_pending_grace_period_seconds cfg)))
      (\<lambda>as d. artifacts_inv hb go d0 d \<and> (\<forall>b \<in> set as. knows hb go d0 b d))"
    by (rule triple_query) (auto simp: list_reconcilable_def Let_def intro: knows_member)
qed (rule triple_reconcile_loop [OF subset_refl])

end
