(* ===== verification/ArtifactSafety.thy ===== *)
theory ArtifactSafety
  imports ArtifactLaws
begin

text \<open>
  The properties of the artifact subsystem: integrity along a history of uploads, reconciler
  passes and object-store writes; what a successful upload returns; deduplication; fencing of an
  uploader that lost its lease; the exact effect of a reconciler pass; and the dead end of a hash
  whose row is FAILED.
\<close>

subsection \<open>Histories\<close>

text \<open>The state is the database with the contents of the bucket.  An upload is its put, which
  stores the bytes under the key of their hash, and the program, any of whose commits may be the
  last one before a crash.\<close>

inductive store_step ::
  "settings \<Rightarrow> (bytes \<Rightarrow> string) \<Rightarrow> db \<times> (string \<Rightarrow> exn + bytes) \<Rightarrow> db \<times> (string \<Rightarrow> exn + bytes) \<Rightarrow> bool"
  for cfg hash_bytes where
  put: "store_step cfg hash_bytes (d, go) (d, go(storage_key_for_hash (hash_bytes data) := Inr data))"
| upload: "keeps_artifacts hash_bytes go others \<Longrightarrow>
    d' \<in> set (commits (upload_artifact cfg hash_bytes put go others now later data ty u job att) d) \<Longrightarrow>
    store_step cfg hash_bytes (d, go) (d', go)"
| reconcile: "d' \<in> set (commits (reconcile_pending_artifacts cfg hash_bytes go now) d) \<Longrightarrow>
    store_step cfg hash_bytes (d, go) (d', go)"

lemma storage_key_inj [simp]: "storage_key_for_hash h = storage_key_for_hash h' \<longleftrightarrow> h = h'"
  by (simp add: storage_key_for_hash_def)

lemma put_ok:
  "artifacts_ok hb go d \<Longrightarrow> artifacts_ok hb (go(storage_key_for_hash (hb data) := Inr data)) d"
  by (auto simp: artifacts_ok_def artifact_ok_def verified_def)

lemma store_step_inv:
  "store_step cfg hb s s' \<Longrightarrow> artifacts_inv hb (snd s) d0 (fst s) \<Longrightarrow> artifacts_inv hb (snd s') d0 (fst s')"
proof (induction rule: store_step.induct)
  case (put d go data)
  then show ?case by (simp only: artifacts_inv_def fst_conv snd_conv) (blast intro: put_ok)
next
  case (upload go others d' put now later data ty u job att d)
  then show ?case using triple_commits [OF triple_upload] by simp
next
  case (reconcile d' go now d)
  then show ?case using triple_commits [OF triple_reconcile] by simp
qed

lemma store_steps_inv:
  "(store_step cfg hb)\<^sup>*\<^sup>* s s' \<Longrightarrow> artifacts_inv hb (snd s) d0 (fst s) \<Longrightarrow> artifacts_inv hb (snd s') d0 (fst s')"
  by (induction rule: rtranclp_induct) (auto intro: store_step_inv)

text \<open>C11: Along every history of uploads, reconciler passes and object-store writes, stopped at any
  commit: no two rows share an id or a content hash, every UPLOADED row names an object whose bytes
  hash to its content hash, a row that was UPLOADED or FAILED is still there unchanged, and a row
  that was PENDING is still there with the same hash, key and origin.\<close>

theorem artifact_integrity:
  assumes "(store_step cfg hash_bytes)\<^sup>*\<^sup>* (d0, go0) (d, go)" and "artifacts_ok hash_bytes go0 d0"
  shows "distinct (map f_id (t_artifacts d)) \<and> distinct (map f_content_hash (t_artifacts d))
    \<and> (\<forall>a \<in> set (t_artifacts d). f_status a = AUploaded \<longrightarrow>
         (\<exists>data. go (f_storage_key a) = Inr data \<and> hash_bytes data = f_content_hash a))
    \<and> (\<forall>a \<in> set (t_artifacts d0). f_status a \<noteq> APending \<longrightarrow> a \<in> set (t_artifacts d))
    \<and> (\<forall>a \<in> set (t_artifacts d0). \<exists>b \<in> set (t_artifacts d). same_artifact a b)"
proof -
  have "artifacts_inv hash_bytes go d0 d"
    using store_steps_inv [OF assms(1), of d0] assms(2) by (simp add: artifacts_inv_def)
  moreover have "\<exists>data. go (f_storage_key a) = Inr data \<and> hash_bytes data = f_content_hash a"
    if "verified hash_bytes go a" for a
    using that by (auto simp: verified_def split: sum.splits)
  ultimately show ?thesis
    unfolding artifacts_inv_def artifacts_ok_def artifact_ok_def artifacts_later_def artifact_later_def
    by blast
qed

subsection \<open>Sample uploads\<close>

text \<open>The sample bucket has no object yet; the sample hash is the identity.\<close>

definition no_objects :: "string \<Rightarrow> exn + bytes" where
  "no_objects = (\<lambda>_. Inl ClientError)"

definition one_object :: "string \<Rightarrow> exn + bytes" where
  "one_object = no_objects(storage_key_for_hash ''abc'' := Inr ''abc'')"

definition sample_upload :: "artifact program" where
  "sample_upload = upload_artifact default_settings (\<lambda>b. b) (\<lambda>_ _. None) one_object (\<lambda>d. d) 10 20
     ''abc'' ''model'' ''w1'' None None"

definition sample_artifact :: artifact where
  "sample_artifact = \<lparr>f_id = 1, f_content_hash = ''abc'', f_storage_key = ''sha256/abc'',
     f_artifact_type = ''model'', f_size_bytes = Some 3, f_attempt_number = None, f_job_id = None,
     f_status = AUploaded, f_uploader_id = Some ''w1'', f_upload_lease_expires_at = None,
     f_created_at = 10, f_uploaded_at = Some 20\<rparr>"

lemmas artifact_eval = prog_defs run_defs artifacts_get_by_hash_def find_by_hash_def artifacts_create_pending_def
  claim_upload_lease_def artifact_update_def update_artifacts_def artifacts_get_def find_artifact_def
  upload_claim_where_def upload_claim_set_def holds_upload_def uploaded_set_def mark_uploaded_def
  storage_upload_def object_exists_with_hash_def finish_upload_def upload_artifact_def
  storage_key_for_hash_def default_settings_def seconds_def expired_def fresh_id_def

lemma sample_upload_result: "result sample_upload empty_db = Inr sample_artifact"
  by (simp add: sample_upload_def sample_artifact_def one_object_def empty_db_def artifact_eval)

lemma sample_upload_commit:
  "empty_db\<lparr>t_artifacts := [sample_artifact]\<rparr> \<in> set (commits sample_upload empty_db)"
  by (simp add: sample_upload_def sample_artifact_def one_object_def empty_db_def artifact_eval)

lemma keeps_artifacts_id: "keeps_artifacts hb go (\<lambda>d. d)"
  by (simp add: keeps_artifacts_def artifacts_inv_def)

lemma artifacts_ok_empty: "artifacts_ok hb go empty_db"
  by (simp add: artifacts_ok_def empty_db_def)

lemma sample_history:
  "(store_step default_settings (\<lambda>b. b))\<^sup>*\<^sup>* (empty_db, no_objects)
     (empty_db\<lparr>t_artifacts := [sample_artifact]\<rparr>, one_object)"
proof -
  have "store_step default_settings (\<lambda>b. b) (empty_db, no_objects) (empty_db, one_object)"
    unfolding one_object_def using store_step.put [of _ "\<lambda>b. b" _ no_objects "''abc''"] by simp
  moreover have "store_step default_settings (\<lambda>b. b) (empty_db, one_object)
      (empty_db\<lparr>t_artifacts := [sample_artifact]\<rparr>, one_object)"
    using sample_upload_commit unfolding sample_upload_def
    by (rule store_step.upload [OF keeps_artifacts_id])
  ultimately show ?thesis by (meson converse_rtranclp_into_rtranclp rtranclp.rtrancl_refl)
qed

theorem artifact_integrity_witness:
  "one_object (f_storage_key sample_artifact) = Inr ''abc'' \<and>
   (\<exists>data. one_object (f_storage_key sample_artifact) = Inr data \<and> data = f_content_hash sample_artifact)"
  using artifact_integrity [OF sample_history artifacts_ok_empty]
  by (simp add: one_object_def sample_artifact_def storage_key_for_hash_def)

subsection \<open>What an upload returns\<close>

lemma settles_update [settles_intros]: "settles (artifact_update aid p f)"
  unfolding artifact_update_def artifacts_get_def by (intro settles_intros)

lemma settles_upload: "settles (upload_artifact cfg hb put go others now later data ty u job att)"
proof -
  have "settles (artifacts_create_pending now' h ty job att)" for now' h
    unfolding artifacts_create_pending_def by (intro settles_intros)
  moreover have "settles (interfere others)" by (simp add: settles_def interfere_def)
  moreover have "settles (finish_upload hb go later data u c)" for c
    unfolding finish_upload_def object_exists_with_hash_def mark_uploaded_def
    by (auto split: sum.splits exn.splits intro!: settles_intros)
  moreover have "settles (storage_upload put k data)" for k
    unfolding storage_upload_def by (intro settles_intros)
  ultimately show ?thesis
    unfolding upload_artifact_def artifacts_get_by_hash_def claim_upload_lease_def
    by (auto intro!: settles_intros split: option.splits)
qed

text \<open>C26: When an upload returns a row, that row is durably in the table, it is UPLOADED, its content
  hash is the hash of the uploaded bytes, and the store holds bytes with that hash under its key,
  whatever other processes committed while the bytes travelled.\<close>

theorem upload_returns_verified:
  assumes "artifacts_ok hash_bytes get_object d" and "keeps_artifacts hash_bytes get_object others"
    and "result (upload_artifact cfg hash_bytes put_object get_object others now later data artifact_type
      uploader_id job_id attempt_number) d = Inr a"
  shows "a \<in> set (t_artifacts (final_db (upload_artifact cfg hash_bytes put_object get_object others now
      later data artifact_type uploader_id job_id attempt_number) d))
    \<and> f_status a = AUploaded \<and> f_content_hash a = hash_bytes data
    \<and> (\<exists>stored. get_object (storage_key_for_hash (hash_bytes data)) = Inr stored \<and> hash_bytes stored = hash_bytes data)"
proof -
  have inv: "artifacts_inv hash_bytes get_object d d" using assms(1) by (simp add: artifacts_inv_def)
  let ?d = "final_db (upload_artifact cfg hash_bytes put_object get_object others now later data artifact_type
      uploader_id job_id attempt_number) d"
  have "artifacts_inv hash_bytes get_object d ?d \<and> uploaded_row a ?d \<and> f_content_hash a = hash_bytes data"
    by (rule triple_settles [OF triple_upload [OF assms(2)] settles_upload inv inv assms(3)])
  then have a: "a \<in> set (t_artifacts ?d)" "f_status a = AUploaded" "f_content_hash a = hash_bytes data"
    and "artifact_ok hash_bytes get_object a"
    by (auto simp: uploaded_row_def artifacts_inv_def artifacts_ok_def)
  then have "f_storage_key a = storage_key_for_hash (hash_bytes data)" "verified hash_bytes get_object a"
    by (auto simp: artifact_ok_def)
  with a show ?thesis by (auto simp: verified_def split: sum.splits)
qed

theorem upload_returns_verified_witness:
  "sample_artifact \<in> set (t_artifacts (final_db sample_upload empty_db)) \<and> f_status sample_artifact = AUploaded"
  using upload_returns_verified [OF artifacts_ok_empty keeps_artifacts_id sample_upload_result [unfolded sample_upload_def]]
  by (simp add: sample_upload_def)

subsection \<open>Deduplication and the dead end\<close>

lemma find_by_hash_row:
  assumes "artifacts_ok hb go d" and "a \<in> set (t_artifacts d)"
  shows "find_by_hash (f_content_hash a) d = Some a"
  unfolding find_by_hash_def
  by (rule sql_one_unique [where k = f_content_hash]) (use assms in \<open>auto simp: artifacts_ok_def\<close>)

lemma find_artifact_row:
  assumes "artifacts_ok hb go d" and "a \<in> set (t_artifacts d)"
  shows "find_artifact (f_id a) d = Some a"
  unfolding find_artifact_def
  by (rule sql_one_unique [where k = f_id]) (use assms in \<open>auto simp: artifacts_ok_def\<close>)

text \<open>Uploading bytes that are already UPLOADED is idempotent: the existing row is returned and
  nothing is committed or sent, whoever the uploader is and whatever the object store would answer.\<close>

theorem upload_deduplicates:
  assumes "artifacts_ok hash_bytes go d" and "a \<in> set (t_artifacts d)" and "f_status a = AUploaded"
    and "f_content_hash a = hash_bytes data"
  shows "result (upload_artifact cfg hash_bytes put_object get_object others now later data artifact_type
      uploader_id job_id attempt_number) d = Inr a
    \<and> commits (upload_artifact cfg hash_bytes put_object get_object others now later data artifact_type
      uploader_id job_id attempt_number) d = [d]"
  using find_by_hash_row [OF assms(1,2)] assms(3,4)
  by (simp add: upload_artifact_def artifacts_get_by_hash_def prog_defs run_defs)

lemma sample_ok: "artifacts_ok (\<lambda>b. b) one_object (empty_db\<lparr>t_artifacts := [sample_artifact]\<rparr>)"
  by (simp add: artifacts_ok_def artifact_ok_def verified_def sample_artifact_def one_object_def
      storage_key_for_hash_def)

theorem upload_deduplicates_witness:
  "result (upload_artifact default_settings (\<lambda>b. b) (\<lambda>_ _. Some ClientError) no_objects (\<lambda>d. d) 30 40
     ''abc'' ''dataset'' ''w2'' None None) (empty_db\<lparr>t_artifacts := [sample_artifact]\<rparr>) = Inr sample_artifact"
  by (rule conjunct1 [OF upload_deduplicates [OF sample_ok]]) (simp_all add: sample_artifact_def)

lemma no_claim: "f_status a \<noteq> APending \<Longrightarrow> \<not> upload_claim_where now aid a"
  by (auto simp: upload_claim_where_def)

text \<open>Bytes whose row is FAILED can never be uploaded again: every attempt ends in 409 and changes
  nothing, whatever the object store answers.\<close>

theorem failed_hash_is_dead:
  assumes "artifacts_ok hash_bytes go d" and "a \<in> set (t_artifacts d)" and "f_status a = AUploadFailed"
    and "f_content_hash a = hash_bytes data"
  shows "result (upload_artifact cfg hash_bytes put_object get_object others now later data artifact_type
      uploader_id job_id attempt_number) d = Inl (HTTPException 409)
    \<and> final_db (upload_artifact cfg hash_bytes put_object get_object others now later data artifact_type
      uploader_id job_id attempt_number) d = d"
proof -
  have "\<not> upload_claim_where now (f_id a) b" if "b \<in> set (t_artifacts d)" for b
    using that assms(3) artifact_id_unique [OF assms(1,2) that] by (auto simp: upload_claim_where_def)
  then have "sql_update (upload_claim_where now (f_id a)) f (t_artifacts d) = t_artifacts d"
    and "rowcount (upload_claim_where now (f_id a)) (t_artifacts d) = 0" for f
    by (simp_all add: sql_update_unmatched)
  with find_by_hash_row [OF assms(1,2)] assms(3,4) show ?thesis
    by (simp add: upload_artifact_def artifacts_get_by_hash_def claim_upload_lease_def artifact_update_def
        update_artifacts_def prog_defs run_defs)
qed

theorem failed_hash_is_dead_witness:
  "result (upload_artifact default_settings (\<lambda>b. b) (\<lambda>_ _. None) one_object (\<lambda>d. d) 30 40
     ''abc'' ''model'' ''w2'' None None) (empty_db\<lparr>t_artifacts := [failed_set sample_artifact]\<rparr>)
   = Inl (HTTPException 409)"
  using failed_hash_is_dead [of "\<lambda>b. b" one_object "empty_db\<lparr>t_artifacts := [failed_set sample_artifact]\<rparr>"
      "failed_set sample_artifact" "''abc''" default_settings "\<lambda>_ _. None" one_object "\<lambda>d. d" 30 40]
  by (simp add: artifacts_ok_def artifact_ok_def failed_set_def sample_artifact_def storage_key_for_hash_def)

subsection \<open>Fencing\<close>

text \<open>An uploader whose row was taken over, finished or given up while its bytes travelled changes
  nothing: its conditional flip matches no row and the upload ends in an error.\<close>

theorem upload_fenced:
  assumes "\<forall>b \<in> set (t_artifacts d). f_id b = f_id c \<longrightarrow>
      f_status b \<noteq> APending \<or> f_uploader_id b \<noteq> Some uploader_id"
  shows "(\<exists>e. result (finish_upload hash_bytes get_object now data uploader_id c) d = Inl e)
    \<and> set (commits (finish_upload hash_bytes get_object now data uploader_id c) d) = {d}"
proof -
  have "\<forall>b \<in> set (t_artifacts d). \<not> holds_upload (f_id c) uploader_id b"
    using assms by (auto simp: holds_upload_def)
  then have "sql_update (holds_upload (f_id c) uploader_id) f (t_artifacts d) = t_artifacts d"
    and "rowcount (holds_upload (f_id c) uploader_id) (t_artifacts d) = 0" for f
    by (simp_all add: sql_update_unmatched)
  then show ?thesis
    by (simp add: finish_upload_def object_exists_with_hash_def mark_uploaded_def artifact_update_def
        update_artifacts_def prog_defs run_defs split: sum.splits exn.splits)
qed

theorem upload_fenced_witness:
  "set (commits (finish_upload (\<lambda>b. b) one_object 20 ''abc'' ''w2'' sample_artifact)
     (empty_db\<lparr>t_artifacts := [sample_artifact\<lparr>f_status := APending\<rparr>]\<rparr>))
   = {empty_db\<lparr>t_artifacts := [sample_artifact\<lparr>f_status := APending\<rparr>]\<rparr>}"
  using upload_fenced [of "empty_db\<lparr>t_artifacts := [sample_artifact\<lparr>f_status := APending\<rparr>]\<rparr>" sample_artifact "''w2''"]
  by (simp add: sample_artifact_def)

subsection \<open>The exact effect of a reconciler pass\<close>

definition reconcilable :: "time \<Rightarrow> int \<Rightarrow> artifact \<Rightarrow> bool" where
  "reconcilable now grace a \<longleftrightarrow> f_status a = APending \<and>
     (case f_upload_lease_expires_at a of None \<Rightarrow> f_created_at a < now - seconds grace | Some t \<Rightarrow> t < now)"

definition settle_row ::
  "(bytes \<Rightarrow> string) \<Rightarrow> (string \<Rightarrow> exn + bytes) \<Rightarrow> time \<Rightarrow> artifact \<Rightarrow> artifact" where
  "settle_row hb go now a =
     (case go (f_storage_key a) of
        Inl e \<Rightarrow> failed_set a
      | Inr data \<Rightarrow> if hb data = f_content_hash a then uploaded_set now (int (length data)) a else failed_set a)"

lemma list_reconcilable_filter:
  "list_reconcilable now grace d = filter (reconcilable now grace) (t_artifacts d)"
  by (auto simp: list_reconcilable_def Let_def sql_select_def reconcilable_def expired_def
      intro!: filter_cong split: option.splits)

lemma settle_row_id [simp]: "f_id (settle_row hb go now a) = f_id a"
  by (simp add: settle_row_def failed_set_def uploaded_set_def split: sum.splits)

text \<open>One step of the pass, on a table in which the row is still as it was read.\<close>

lemma update_one_row:
  assumes "distinct (map f_id t)" and "a \<in> set t" and "f_status a = APending"
  shows "sql_update (reconcile_where (f_id a)) f t = map (\<lambda>b. if b = a then f a else b) t"
    and "rowcount (reconcile_where (f_id a)) t \<noteq> 0"
proof -
  have "reconcile_where (f_id a) b \<longleftrightarrow> b = a" if "b \<in> set t" for b
    using assms that by (auto simp: reconcile_where_def dest: distinct_map_eqD)
  then show "sql_update (reconcile_where (f_id a)) f t = map (\<lambda>b. if b = a then f a else b) t"
    by (auto simp: sql_update_def)
  show "rowcount (reconcile_where (f_id a)) t \<noteq> 0"
    using assms by (auto simp: reconcile_where_def)
qed

lemma reconcile_update_run:
  assumes "distinct (map f_id (t_artifacts (work s)))" and "a \<in> set (t_artifacts (work s))"
    and "f_status a = APending" and "\<And>b. f_id (f b) = f_id b"
  defines "d' \<equiv> (work s)\<lparr>t_artifacts := map (\<lambda>b. if b = a then f a else b) (t_artifacts (work s))\<rparr>"
  shows "artifact_update (f_id a) (reconcile_where (f_id a)) f s
    = (Inr (Some (f a)), s\<lparr>work := d', durable := d' # durable s\<rparr>)"
proof -
  let ?t = "map (\<lambda>b. if b = a then f a else b) (t_artifacts (work s))"
  have "map f_id ?t = map f_id (t_artifacts (work s))" using assms(4) by auto
  then have "distinct (map f_id ?t)" using assms(1) by metis
  then have "sql_one (\<lambda>b. f_id b = f_id a) ?t = Some (f a)"
    using assms(2,4) by (intro sql_one_unique [where k = f_id]) auto
  then show ?thesis
    using update_one_row [OF assms(1-3)]
    by (simp add: artifact_update_def update_artifacts_def artifacts_get_def find_artifact_def prog_defs d'_def)
qed

lemma reconcile_one_run:
  assumes "distinct (map f_id (t_artifacts (work s)))" and "a \<in> set (t_artifacts (work s))"
    and "f_status a = APending" and "\<And>k e. go k = Inl e \<Longrightarrow> e = ClientError"
    and d': "d' = (work s)\<lparr>t_artifacts :=
      map (\<lambda>b. if b = a then settle_row hb go now a else b) (t_artifacts (work s))\<rparr>"
  shows "reconcile_one hb go now a s
    = (Inr (if verified hb go a then (1, 0) else (0, 1)), s\<lparr>work := d', durable := d' # durable s\<rparr>)"
proof -
  have id: "f_id (failed_set b) = f_id b" "f_id (uploaded_set now n b) = f_id b" for n b
    by (simp_all add: failed_set_def uploaded_set_def)
  note run = reconcile_update_run [OF assms(1-3)]
  show ?thesis
  proof (cases "go (f_storage_key a)")
    case (Inl e)
    moreover have "e = ClientError" using Inl by (rule assms(4))
    ultimately show ?thesis
      by (simp add: reconcile_one_def object_exists_with_hash_def reconcile_to_failed_def run id prog_defs
          d' settle_row_def verified_def)
  next
    case (Inr data)
    then show ?thesis
      by (auto simp: reconcile_one_def object_exists_with_hash_def object_size_def reconcile_to_failed_def
          reconcile_to_uploaded_def run id prog_defs d' settle_row_def verified_def)
  qed
qed

lemma reconcile_loop_run:
  assumes "\<And>k e. go k = Inl e \<Longrightarrow> e = ClientError" and "work s = hd (durable s)"
    and "distinct (map f_id (t_artifacts (work s)))" and "distinct (map f_id as)"
    and "\<forall>a \<in> set as. a \<in> set (t_artifacts (work s)) \<and> f_status a = APending"
  shows "\<exists>s'. reconcile_loop hb go now as h f s
      = (Inr (h + length (filter (verified hb go) as), f + length (filter (\<lambda>a. \<not> verified hb go a) as)), s')
    \<and> work s' = hd (durable s') \<and> work s' = (work s)\<lparr>t_artifacts :=
        map (\<lambda>b. if b \<in> set as then settle_row hb go now b else b) (t_artifacts (work s))\<rparr>"
  using assms(2-)
proof (induction as arbitrary: s h f)
  case Nil
  then show ?case by (simp add: ret_def)
next
  case (Cons a as)
  let ?g = "\<lambda>b. if b = a then settle_row hb go now a else b"
  let ?t = "t_artifacts (work s)"
  let ?s = "s\<lparr>work := (work s)\<lparr>t_artifacts := map ?g ?t\<rparr>,
              durable := (work s)\<lparr>t_artifacts := map ?g ?t\<rparr> # durable s\<rparr>"
  have a: "a \<in> set ?t" "f_status a = APending" and new: "f_id a \<notin> f_id ` set as" using Cons.prems by auto
  then have in_as: "?g b = b" if "b \<in> set as" for b using that by auto
  have settled: "settle_row hb go now a \<notin> set as" using new by (metis settle_row_id image_eqI)
  have one: "reconcile_one hb go now a s = (Inr (if verified hb go a then (1, 0) else (0, 1)), ?s)"
    using reconcile_one_run [OF Cons.prems(2) a assms(1) refl] by simp
  have "map f_id (t_artifacts (work ?s)) = map f_id ?t" by auto
  then have "distinct (map f_id (t_artifacts (work ?s)))" using Cons.prems(2) by (simp only:)
  moreover have "\<forall>b \<in> set as. b \<in> set (t_artifacts (work ?s)) \<and> f_status b = APending"
  proof
    fix b assume b: "b \<in> set as"
    then have "?g b \<in> ?g ` set ?t" using Cons.prems(4) by (intro imageI) simp
    with b in_as Cons.prems(4) show "b \<in> set (t_artifacts (work ?s)) \<and> f_status b = APending" by simp
  qed
  moreover have "work ?s = hd (durable ?s)" "distinct (map f_id as)" using Cons.prems(3) by simp_all
  ultimately obtain s' where s': "reconcile_loop hb go now as
        (h + (if verified hb go a then 1 else 0)) (f + (if verified hb go a then 0 else 1)) ?s
      = (Inr (h + (if verified hb go a then 1 else 0) + length (filter (verified hb go) as),
         f + (if verified hb go a then 0 else 1) + length (filter (\<lambda>a. \<not> verified hb go a) as)), s')"
    "work s' = hd (durable s')"
    "work s' = (work ?s)\<lparr>t_artifacts :=
        map (\<lambda>b. if b \<in> set as then settle_row hb go now b else b) (t_artifacts (work ?s))\<rparr>"
    using Cons.IH [of ?s] by blast
  have "map (\<lambda>b. if b \<in> set as then settle_row hb go now b else b) (map ?g ?t)
      = map (\<lambda>b. if b \<in> set (a # as) then settle_row hb go now b else b) ?t"
    using settled new by auto
  then have "work s' = (work s)\<lparr>t_artifacts :=
      map (\<lambda>b. if b \<in> set (a # as) then settle_row hb go now b else b) ?t\<rparr>"
    using s'(3) by simp
  moreover have "reconcile_loop hb go now (a # as) h f s
      = (Inr (h + length (filter (verified hb go) (a # as)),
          f + length (filter (\<lambda>a. \<not> verified hb go a) (a # as))), s')"
    using s'(1) by (cases "verified hb go a") (simp_all add: bind_def one del: map_map list.map)
  ultimately show ?case using s'(2) by blast
qed

text \<open>When the object store answers (no error but "no such object"), a reconciler pass settles
  exactly the abandoned PENDING rows: never-claimed rows past the grace period and rows whose upload
  lease has lapsed become UPLOADED with the size of the stored bytes if those hash to the row's hash
  and FAILED otherwise, every other row (a live lease in particular) is untouched, nothing else in the
  database changes, and the two counts returned are the numbers of rows of either kind.\<close>

theorem reconcile_exact:
  assumes "artifacts_ok hash_bytes go d" and "\<forall>k e. get_object k = Inl e \<longrightarrow> e = ClientError"
  shows "result (reconcile_pending_artifacts cfg hash_bytes get_object now) d =
      Inr (length (filter (\<lambda>a. reconcilable now (artifact_pending_grace_period_seconds cfg) a
                \<and> verified hash_bytes get_object a) (t_artifacts d)),
           length (filter (\<lambda>a. reconcilable now (artifact_pending_grace_period_seconds cfg) a
                \<and> \<not> verified hash_bytes get_object a) (t_artifacts d)))
    \<and> final_db (reconcile_pending_artifacts cfg hash_bytes get_object now) d =
      d\<lparr>t_artifacts := map (\<lambda>a. if reconcilable now (artifact_pending_grace_period_seconds cfg) a
          then settle_row hash_bytes get_object now a else a) (t_artifacts d)\<rparr>"
proof -
  let ?as = "filter (reconcilable now (artifact_pending_grace_period_seconds cfg)) (t_artifacts d)"
  have "distinct (map f_id (t_artifacts d))" using assms(1) by (simp add: artifacts_ok_def)
  then have "distinct (map f_id ?as)" by (metis distinct_map_filter)
  moreover have "\<forall>a \<in> set ?as. a \<in> set (t_artifacts d) \<and> f_status a = APending"
    by (simp add: reconcilable_def)
  moreover have "e = ClientError" if "get_object k = Inl e" for k e using that assms(2) by blast
  moreover have fresh: "work (begin_session d) = d" "hd (durable (begin_session d)) = d"
    by (simp_all add: begin_session_def)
  ultimately obtain s' where s': "reconcile_loop hash_bytes get_object now ?as 0 0 (begin_session d)
      = (Inr (0 + length (filter (verified hash_bytes get_object) ?as),
              0 + length (filter (\<lambda>a. \<not> verified hash_bytes get_object a) ?as)), s')"
    "work s' = hd (durable s')"
    "work s' = d\<lparr>t_artifacts := map (\<lambda>b. if b \<in> set ?as then settle_row hash_bytes get_object now b else b) (t_artifacts d)\<rparr>"
    using reconcile_loop_run [where s = "begin_session d" and as = ?as, unfolded fresh]
      \<open>distinct (map f_id (t_artifacts d))\<close> by blast
  have run: "reconcile_pending_artifacts cfg hash_bytes get_object now (begin_session d)
      = reconcile_loop hash_bytes get_object now ?as 0 0 (begin_session d)"
    by (simp add: reconcile_pending_artifacts_def list_reconcilable_filter bind_def query_def begin_session_def)
  have rows: "map (\<lambda>b. if b \<in> set ?as then settle_row hash_bytes get_object now b else b) (t_artifacts d)
      = map (\<lambda>a. if reconcilable now (artifact_pending_grace_period_seconds cfg) a
          then settle_row hash_bytes get_object now a else a) (t_artifacts d)"
    by (rule map_cong) simp_all
  have "hd (durable s') = d\<lparr>t_artifacts := map (\<lambda>a.
      if reconcilable now (artifact_pending_grace_period_seconds cfg) a
      then settle_row hash_bytes get_object now a else a) (t_artifacts d)\<rparr>"
    using s'(2,3) by (simp only: rows)
  with s'(1) run show ?thesis
    by (simp add: result_def final_db_def conj_commute)
qed

text \<open>The sample table: an abandoned row with its object, one without, and one with a live lease.\<close>

definition sample_pending :: "uuid \<Rightarrow> string \<Rightarrow> time \<Rightarrow> artifact" where
  "sample_pending aid h expires = \<lparr>f_id = aid, f_content_hash = h, f_storage_key = storage_key_for_hash h,
     f_artifact_type = ''model'', f_size_bytes = None, f_attempt_number = None, f_job_id = None,
     f_status = APending, f_uploader_id = Some ''w1'', f_upload_lease_expires_at = Some expires,
     f_created_at = 0, f_uploaded_at = None\<rparr>"

definition sample_table :: "artifact list" where
  "sample_table = [sample_pending 1 ''abc'' 10, sample_pending 2 ''x'' 10, sample_pending 3 ''y'' 99]"

theorem reconcile_exact_witness:
  "t_artifacts (final_db (reconcile_pending_artifacts default_settings (\<lambda>b. b) one_object 50)
      (empty_db\<lparr>t_artifacts := sample_table\<rparr>))
   = [uploaded_set 50 3 (sample_pending 1 ''abc'' 10), failed_set (sample_pending 2 ''x'' 10),
      sample_pending 3 ''y'' 99]"
proof -
  have "artifacts_ok (\<lambda>b. b) one_object (empty_db\<lparr>t_artifacts := sample_table\<rparr>)"
    by (simp add: artifacts_ok_def artifact_ok_def sample_table_def sample_pending_def)
  moreover have "\<forall>k e. one_object k = Inl e \<longrightarrow> e = ClientError"
    by (simp add: one_object_def no_objects_def)
  ultimately show ?thesis
    using reconcile_exact [of "\<lambda>b. b" one_object "empty_db\<lparr>t_artifacts := sample_table\<rparr>" one_object default_settings 50]
    by (simp add: sample_table_def reconcilable_def settle_row_def sample_pending_def one_object_def
        no_objects_def storage_key_for_hash_def)
qed

end
