(* ===== verification/Gates.thy ===== *)
theory Gates
  imports Schema
begin

text \<open>
  The quality-gate engine (app/evaluation/quality_gate_engine.py): leaf rules compared with
  persisted metrics, combined by \<^verbatim>\<open>all\<close> or \<^verbatim>\<open>any\<close>.  The rules are a JSON value the client
  stored, so every shape of it is a case: what the code answers with ERROR and what raises.
  Metrics are maps from names to values; a value may be missing (\<open>None\<close>).  Objects are
  association lists with distinct keys.
\<close>

subsection \<open>JSON objects\<close>

definition obj_get :: "string \<Rightarrow> (string \<times> json) list \<Rightarrow> json" where
  "obj_get k kvs = (case map_of kvs k of None \<Rightarrow> JNull | Some v \<Rightarrow> v)"

definition obj_has :: "string \<Rightarrow> (string \<times> json) list \<Rightarrow> bool" where
  "obj_has k kvs \<longleftrightarrow> map_of kvs k \<noteq> None"

text \<open>A Python number, exactly (an integer is compared with a float without rounding), and the
  conversion to a float that \<^verbatim>\<open>math.isclose\<close> makes.\<close>

fun json_number :: "json \<Rightarrow> pyfloat option" where
  "json_number (JInt n) = Some (Fin (of_int n))"
| "json_number (JFloat f) = Some f"
| "json_number (JBool b) = Some (Fin (if b then 1 else 0))"
| "json_number _ = None"

fun json_to_float :: "json \<Rightarrow> exn + pyfloat" where
  "json_to_float (JInt n) = (case fl (of_int n) of Fin q \<Rightarrow> Inr (Fin q) | _ \<Rightarrow> Inl PyOverflowError)"
| "json_to_float (JFloat f) = Inr f"
| "json_to_float (JBool b) = Inr (Fin (if b then 1 else 0))"
| "json_to_float _ = Inl PyTypeError"

subsection \<open>Comparing\<close>

definition EQ_TOLERANCE :: pyfloat where
  "EQ_TOLERANCE = fl (1 / 10 ^ 9)"

definition compare_number :: "(pyfloat \<Rightarrow> bool) \<Rightarrow> json \<Rightarrow> exn + bool option" where
  "compare_number rel rhs = (case json_number rhs of None \<Rightarrow> Inl PyTypeError | Some r \<Rightarrow> Inr (Some (rel r)))"

definition gate_compare :: "pyfloat \<Rightarrow> json \<Rightarrow> json \<Rightarrow> exn + bool option" where
  "gate_compare lhs operator rhs =
     (if operator = JStr ''>='' then compare_number (\<lambda>r. f_le r lhs) rhs
      else if operator = JStr ''>'' then compare_number (\<lambda>r. f_lt r lhs) rhs
      else if operator = JStr ''<='' then compare_number (\<lambda>r. f_le lhs r) rhs
      else if operator = JStr ''<'' then compare_number (\<lambda>r. f_lt lhs r) rhs
      else if operator = JStr ''=='' then
        (case json_to_float rhs of Inl e \<Rightarrow> Inl e | Inr r \<Rightarrow> Inr (Some (isclose lhs r EQ_TOLERANCE)))
      else Inr None)"

subsection \<open>Leaf rules\<close>

text \<open>A rule result is a JSON object: its status and its other fields.\<close>

record leaf_result =
  lr_status :: gate_status
  lr_fields :: "(string \<times> json) list"

fun gate_status_value :: "gate_status \<Rightarrow> string" where
  "gate_status_value GPass = ''PASS''"
| "gate_status_value GFail = ''FAIL''"
| "gate_status_value GError = ''ERROR''"

definition leaf_json :: "leaf_result \<Rightarrow> json" where
  "leaf_json r = JObj (lr_fields r @ [(''status'', JStr (gate_status_value (lr_status r)))])"

type_synonym metric_values = "string \<rightharpoonup> pyfloat option"

definition leaf_error :: "(string \<times> json) list \<Rightarrow> string \<Rightarrow> leaf_result" where
  "leaf_error base reason = \<lparr>lr_status = GError, lr_fields = base @ [(''reason'', JStr reason)]\<rparr>"

definition leaf_outcome :: "(string \<times> json) list \<Rightarrow> bool \<Rightarrow> leaf_result" where
  "leaf_outcome kvs outcome = \<lparr>lr_status = (if outcome then GPass else GFail), lr_fields = kvs\<rparr>"

definition evaluate_delta ::
  "(string \<times> json) list \<Rightarrow> string \<Rightarrow> json \<Rightarrow> json \<Rightarrow> pyfloat \<Rightarrow> metric_values option \<Rightarrow> exn + leaf_result" where
  "evaluate_delta base metric_name operator threshold candidate baseline_metrics =
     (let base' = base @ [(''baseline_delta'', threshold)] in
      case baseline_metrics of
        None \<Rightarrow> Inr (leaf_error base' ''baseline comparison requested but no compatible baseline metrics'')
      | Some bm \<Rightarrow>
          (case bm metric_name of
             Some (Some b) \<Rightarrow>
               (case gate_compare (f_sub candidate b) operator threshold of
                  Inl e \<Rightarrow> Inl e
                | Inr None \<Rightarrow> Inr (leaf_error base' ''invalid operator'')
                | Inr (Some outcome) \<Rightarrow>
                    Inr (leaf_outcome (base' @ [(''candidate'', JFloat candidate), (''baseline'', JFloat b),
                           (''delta'', JFloat (f_sub candidate b))]) outcome))
           | _ \<Rightarrow> Inr (leaf_error base' ''baseline metric not present'')))"

definition evaluate_absolute ::
  "(string \<times> json) list \<Rightarrow> json \<Rightarrow> json \<Rightarrow> pyfloat \<Rightarrow> exn + leaf_result" where
  "evaluate_absolute base operator threshold candidate =
     (case gate_compare candidate operator threshold of
        Inl e \<Rightarrow> Inl e
      | Inr None \<Rightarrow> Inr (leaf_error (base @ [(''value'', threshold)]) ''invalid operator'')
      | Inr (Some outcome) \<Rightarrow>
          Inr (leaf_outcome (base @ [(''value'', threshold), (''candidate'', JFloat candidate)]) outcome))"

text \<open>A metric name that cannot be a dictionary key raises; one that is not a string is in no map.\<close>

fun metric_lookup :: "metric_values \<Rightarrow> json \<Rightarrow> exn + (string \<times> pyfloat option) option" where
  "metric_lookup m (JStr s) = Inr (case m s of None \<Rightarrow> None | Some v \<Rightarrow> Some (s, v))"
| "metric_lookup m (JArr _) = Inl PyTypeError"
| "metric_lookup m (JObj _) = Inl PyTypeError"
| "metric_lookup m _ = Inr None"

definition evaluate_leaf :: "json \<Rightarrow> metric_values \<Rightarrow> metric_values option \<Rightarrow> exn + leaf_result" where
  "evaluate_leaf rule metrics baseline_metrics =
     (case rule of
        JObj kvs \<Rightarrow>
          (let metric_name = obj_get ''metric'' kvs; operator = obj_get ''operator'' kvs;
               base = [(''metric'', metric_name), (''operator'', operator)]
           in if metric_name = JNull \<or> operator = JNull
              then Inr (leaf_error base ''rule missing metric/operator'')
              else case metric_lookup metrics metric_name of
                Inl e \<Rightarrow> Inl e
              | Inr None \<Rightarrow> Inr (leaf_error base ''metric not present in evaluation results'')
              | Inr (Some (name, None)) \<Rightarrow> Inr (leaf_error base ''metric value is missing or invalid'')
              | Inr (Some (name, Some candidate)) \<Rightarrow>
                  if f_isnan candidate then Inr (leaf_error base ''metric value is missing or invalid'')
                  else if obj_has ''baseline_delta'' kvs
                  then evaluate_delta base name operator (obj_get ''baseline_delta'' kvs) candidate baseline_metrics
                  else if \<not> obj_has ''value'' kvs
                  then Inr (leaf_error base ''rule missing value/baseline_delta'')
                  else evaluate_absolute base operator (obj_get ''value'' kvs) candidate)
      | _ \<Rightarrow> Inl PyAttributeError)"

subsection \<open>Combining\<close>

definition combine :: "gate_status list \<Rightarrow> string \<Rightarrow> gate_status" where
  "combine child_statuses logical =
     (if logical = ''all'' then
        if list_ex (\<lambda>s. s = GError) child_statuses then GError
        else if list_ex (\<lambda>s. s = GFail) child_statuses then GFail else GPass
      else if list_ex (\<lambda>s. s = GPass) child_statuses then GPass
      else if list_ex (\<lambda>s. s = GError) child_statuses then GError else GFail)"

fun evaluate_leaves :: "json list \<Rightarrow> metric_values \<Rightarrow> metric_values option \<Rightarrow> exn + leaf_result list" where
  "evaluate_leaves [] metrics baseline = Inr []"
| "evaluate_leaves (leaf # leaves) metrics baseline =
     (case evaluate_leaf leaf metrics baseline of
        Inl e \<Rightarrow> Inl e
      | Inr r \<Rightarrow> (case evaluate_leaves leaves metrics baseline of Inl e \<Rightarrow> Inl e | Inr rs \<Rightarrow> Inr (r # rs)))"

definition quoted :: "string \<Rightarrow> string" where
  "quoted s = CHR 0x27 # s @ [CHR 0x27]"

definition gate_reason :: "string \<Rightarrow> json" where
  "gate_reason s = JObj [(''reason'', JStr s)]"

definition evaluate_logical ::
  "string \<Rightarrow> json \<Rightarrow> metric_values \<Rightarrow> metric_values option \<Rightarrow> exn + gate_status \<times> json list" where
  "evaluate_logical logical leaves metrics baseline_metrics =
     (case leaves of
        JArr (leaf # others) \<Rightarrow>
          (case evaluate_leaves (leaf # others) metrics baseline_metrics of
             Inl e \<Rightarrow> Inl e
           | Inr rs \<Rightarrow> Inr (combine (map lr_status rs) logical, map leaf_json rs))
      | _ \<Rightarrow> Inr (GError, [gate_reason (quoted logical @ '' must be a non-empty list of rules'')]))"

definition gate_evaluate ::
  "json \<Rightarrow> metric_values \<Rightarrow> metric_values option \<Rightarrow> exn + gate_status \<times> json list" where
  "gate_evaluate rules metrics baseline_metrics =
     (case rules of
        JObj kvs \<Rightarrow>
          if obj_has ''all'' kvs then evaluate_logical ''all'' (obj_get ''all'' kvs) metrics baseline_metrics
          else if obj_has ''any'' kvs then evaluate_logical ''any'' (obj_get ''any'' kvs) metrics baseline_metrics
          else Inr (GError, [gate_reason (''rules must contain '' @ quoted ''all'' @ '' or '' @ quoted ''any'')])
      | _ \<Rightarrow> Inr (GError, [gate_reason (''rules must be an object with '' @ quoted ''all'' @ '' or '' @ quoted ''any'')]))"

subsection \<open>What PASS means\<close>

text \<open>The declarative reading of a rule: the evidence is there and stands in the stated relation to
  the threshold.\<close>

definition op_holds :: "json \<Rightarrow> pyfloat \<Rightarrow> json \<Rightarrow> bool" where
  "op_holds operator x threshold \<longleftrightarrow>
     (\<exists>r. json_number threshold = Some r \<and>
        (operator = JStr ''>='' \<and> f_le r x \<or> operator = JStr ''>'' \<and> f_lt r x
         \<or> operator = JStr ''<='' \<and> f_le x r \<or> operator = JStr ''<'' \<and> f_lt x r))
   \<or> (\<exists>r. json_to_float threshold = Inr r \<and> operator = JStr ''=='' \<and> isclose x r EQ_TOLERANCE)"

definition leaf_satisfied :: "metric_values \<Rightarrow> metric_values option \<Rightarrow> json \<Rightarrow> bool" where
  "leaf_satisfied metrics baseline leaf \<longleftrightarrow>
     (\<exists>kvs name c. leaf = JObj kvs \<and> obj_get ''metric'' kvs = JStr name
        \<and> metrics name = Some (Some c) \<and> \<not> f_isnan c
        \<and> (if obj_has ''baseline_delta'' kvs
           then \<exists>bm b. baseline = Some bm \<and> bm name = Some (Some b)
                  \<and> op_holds (obj_get ''operator'' kvs) (f_sub c b) (obj_get ''baseline_delta'' kvs)
           else obj_has ''value'' kvs \<and> op_holds (obj_get ''operator'' kvs) c (obj_get ''value'' kvs)))"

definition gate_satisfied :: "json \<Rightarrow> metric_values \<Rightarrow> metric_values option \<Rightarrow> bool" where
  "gate_satisfied rules metrics baseline \<longleftrightarrow>
     (\<exists>kvs leaves. rules = JObj kvs \<and> leaves \<noteq> [] \<and>
        (if obj_has ''all'' kvs
         then obj_get ''all'' kvs = JArr leaves \<and> (\<forall>leaf \<in> set leaves. leaf_satisfied metrics baseline leaf)
         else obj_has ''any'' kvs \<and> obj_get ''any'' kvs = JArr leaves
              \<and> (\<exists>leaf \<in> set leaves. leaf_satisfied metrics baseline leaf)))"

lemma gate_compare_holds: "gate_compare x op th = Inr (Some b) \<Longrightarrow> b \<longleftrightarrow> op_holds op x th"
  by (auto simp: gate_compare_def compare_number_def op_holds_def split: if_splits option.splits sum.splits)

lemma op_holds_valid: "op_holds op x th \<Longrightarrow> gate_compare x op th \<noteq> Inr None \<and> op \<noteq> JNull"
  by (auto simp: gate_compare_def compare_number_def op_holds_def split: if_splits option.splits sum.splits)

lemma evaluate_delta_pass:
  "evaluate_delta base name op th c bl = Inr r \<Longrightarrow>
   lr_status r = GPass \<longleftrightarrow> (\<exists>bm b. bl = Some bm \<and> bm name = Some (Some b) \<and> op_holds op (f_sub c b) th)"
  by (auto simp: evaluate_delta_def leaf_error_def leaf_outcome_def Let_def
      dest: gate_compare_holds op_holds_valid split: option.splits sum.splits if_splits)

lemma evaluate_absolute_pass:
  "evaluate_absolute base op th c = Inr r \<Longrightarrow> lr_status r = GPass \<longleftrightarrow> op_holds op c th"
  by (auto simp: evaluate_absolute_def leaf_error_def leaf_outcome_def
      dest: gate_compare_holds op_holds_valid split: option.splits sum.splits if_splits)

lemma metric_lookup_Some:
  "metric_lookup m j = Inr (Some (s, v)) \<longleftrightarrow> j = JStr s \<and> m s = Some v"
  by (cases j) (auto split: option.splits)

lemma leaf_error_status [simp]: "lr_status (leaf_error base reason) = GError"
  by (simp add: leaf_error_def)

lemma evaluate_leaf_pass:
  assumes "evaluate_leaf leaf metrics baseline = Inr r"
  shows "lr_status r = GPass \<longleftrightarrow> leaf_satisfied metrics baseline leaf"
proof (cases leaf)
  case (JObj kvs)
  let ?m = "obj_get ''metric'' kvs" and ?op = "obj_get ''operator'' kvs"
  let ?base = "[(''metric'', ?m), (''operator'', ?op)]"
  show ?thesis
  proof (cases "?m = JNull \<or> ?op = JNull")
    case True
    with assms JObj show ?thesis
      by (auto simp: evaluate_leaf_def Let_def leaf_satisfied_def dest: op_holds_valid split: if_splits)
  next
    case False
    obtain lookup where l: "metric_lookup metrics ?m = Inr lookup"
      using assms JObj False by (auto simp: evaluate_leaf_def Let_def split: sum.splits)
    show ?thesis
    proof (cases "\<exists>name c. lookup = Some (name, Some c) \<and> \<not> f_isnan c")
      case True
      then obtain name c where c: "?m = JStr name" "metrics name = Some (Some c)" "\<not> f_isnan c"
        and l': "metric_lookup metrics ?m = Inr (Some (name, Some c))"
        using l by (auto simp: metric_lookup_Some)
      have sat: "leaf_satisfied metrics baseline leaf \<longleftrightarrow>
          (if obj_has ''baseline_delta'' kvs
           then \<exists>bm b. baseline = Some bm \<and> bm name = Some (Some b) \<and> op_holds ?op (f_sub c b) (obj_get ''baseline_delta'' kvs)
           else obj_has ''value'' kvs \<and> op_holds ?op c (obj_get ''value'' kvs))"
        using c JObj by (simp add: leaf_satisfied_def)
      have "(if obj_has ''baseline_delta'' kvs
           then evaluate_delta ?base name ?op (obj_get ''baseline_delta'' kvs) c baseline
           else if \<not> obj_has ''value'' kvs then Inr (leaf_error ?base ''rule missing value/baseline_delta'')
           else evaluate_absolute ?base ?op (obj_get ''value'' kvs) c) = Inr r"
        using assms JObj False l' c(3) by (simp add: evaluate_leaf_def Let_def)
      with sat show ?thesis
        using evaluate_delta_pass [of ?base name ?op _ c baseline r] evaluate_absolute_pass [of ?base ?op _ c r]
        by (auto split: if_splits)
    next
      case none: False
      then have "\<not> leaf_satisfied metrics baseline leaf"
        using l JObj by (auto simp: leaf_satisfied_def)
      moreover have "lr_status r = GError"
        using assms JObj False l none
        by (auto simp: evaluate_leaf_def Let_def split: option.splits prod.splits if_splits)
      ultimately show ?thesis by simp
    qed
  qed
qed (use assms in \<open>simp_all add: evaluate_leaf_def\<close>)

lemma evaluate_leaves_pass:
  "evaluate_leaves leaves metrics baseline = Inr rs \<Longrightarrow>
   list_all2 (\<lambda>leaf r. lr_status r = GPass \<longleftrightarrow> leaf_satisfied metrics baseline leaf) leaves rs"
  by (induction leaves arbitrary: rs) (auto split: sum.splits simp: evaluate_leaf_pass)

lemma evaluate_leaves_length: "evaluate_leaves leaves metrics baseline = Inr rs \<Longrightarrow> length rs = length leaves"
  by (drule evaluate_leaves_pass) (simp add: list_all2_lengthD)

lemma combine_all_pass: "combine ss ''all'' = GPass \<longleftrightarrow> (\<forall>s \<in> set ss. s = GPass)"
  by (auto simp: combine_def list_ex_iff) (metis gate_status.exhaust)

lemma combine_pass:
  "combine ss logical = GPass \<longleftrightarrow> (if logical = ''all'' then \<forall>s \<in> set ss. s = GPass else \<exists>s \<in> set ss. s = GPass)"
  using combine_all_pass [of ss] by (cases "logical = ''all''") (auto simp: combine_def list_ex_iff)

lemma list_all2_ball:
  "list_all2 (\<lambda>x y. P y \<longleftrightarrow> Q x) xs ys \<Longrightarrow> (\<forall>y \<in> set ys. P y) \<longleftrightarrow> (\<forall>x \<in> set xs. Q x)"
  "list_all2 (\<lambda>x y. P y \<longleftrightarrow> Q x) xs ys \<Longrightarrow> (\<exists>y \<in> set ys. P y) \<longleftrightarrow> (\<exists>x \<in> set xs. Q x)"
  by (induction rule: list_all2_induct) auto

lemma evaluate_logical_pass:
  assumes "evaluate_logical logical leaves metrics baseline = Inr (st, rs)"
  shows "st = GPass \<longleftrightarrow> (\<exists>ls. leaves = JArr ls \<and> ls \<noteq> []
    \<and> (if logical = ''all'' then \<forall>leaf \<in> set ls. leaf_satisfied metrics baseline leaf
       else \<exists>leaf \<in> set ls. leaf_satisfied metrics baseline leaf))"
proof (cases "\<exists>l ls. leaves = JArr (l # ls)")
  case True
  then obtain l ls where ls: "leaves = JArr (l # ls)" by blast
  then obtain leafs where rs: "evaluate_leaves (l # ls) metrics baseline = Inr leafs"
    and st: "st = combine (map lr_status leafs) logical"
    using assms by (auto simp: evaluate_logical_def simp del: evaluate_leaves.simps split: sum.splits)
  note all2 = evaluate_leaves_pass [OF rs]
  have "st = GPass \<longleftrightarrow> (if logical = ''all'' then \<forall>r \<in> set leafs. lr_status r = GPass
      else \<exists>r \<in> set leafs. lr_status r = GPass)"
    by (simp add: st combine_pass) (metis imageE image_eqI)
  then show ?thesis using list_all2_ball [OF all2] ls by simp
next
  case False
  with assms show ?thesis
    by (auto simp: evaluate_logical_def neq_Nil_conv split: json.splits list.splits)
qed

lemma gate_pass_iff:
  assumes "gate_evaluate rules metrics baseline = Inr (status, rule_results)"
  shows "status = GPass \<longleftrightarrow> gate_satisfied rules metrics baseline"
  using assms
  by (cases rules) (auto simp: gate_evaluate_def gate_satisfied_def dest!: evaluate_logical_pass split: if_splits)

text \<open>C22: A quality gate passes exactly when its rules are satisfied by the persisted evidence: when every
  rule under \<open>all\<close> (some rule under \<open>any\<close>) names a metric that is present with a value that is
  not NaN, and that value, or its difference to a baseline value that is present too, stands in the
  stated relation to the threshold.  Missing or invalid evidence is never a PASS, whatever the shape of
  the stored rules.\<close>

theorem gate_passes_iff_satisfied:
  assumes "gate_evaluate rules metrics baseline = Inr (status, rule_results)"
  shows "status = GPass \<longleftrightarrow> gate_satisfied rules metrics baseline"
  using assms by (rule gate_pass_iff)

text \<open>A sample gate: one absolute and one baseline rule.\<close>

definition sample_rules :: json where
  "sample_rules = JObj [(''all'', JArr [
     JObj [(''metric'', JStr ''exact_match''), (''operator'', JStr ''>=''), (''value'', JFloat (Fin (1/2)))],
     JObj [(''metric'', JStr ''exact_match''), (''operator'', JStr ''>''), (''baseline_delta'', JInt 0)]])]"

definition sample_metrics :: metric_values where
  "sample_metrics = [''exact_match'' \<mapsto> Some (Fin (3/4))]"

definition sample_baseline :: metric_values where
  "sample_baseline = [''exact_match'' \<mapsto> Some (Fin (1/2))]"

lemmas gate_defs = gate_evaluate_def evaluate_logical_def evaluate_leaf_def evaluate_absolute_def
  evaluate_delta_def gate_compare_def compare_number_def leaf_outcome_def leaf_error_def combine_def
  obj_get_def obj_has_def f_sub_def Let_def

lemma sample_gate_result:
  "\<exists>rs. gate_evaluate sample_rules sample_metrics (Some sample_baseline) = Inr (GPass, rs)"
  "\<exists>rs. gate_evaluate sample_rules sample_metrics None = Inr (GError, rs)"
  by (simp_all add: gate_defs sample_rules_def sample_metrics_def sample_baseline_def fl_quarter)

theorem gate_passes_iff_satisfied_witness: "gate_satisfied sample_rules sample_metrics (Some sample_baseline)"
proof -
  obtain rs where "gate_evaluate sample_rules sample_metrics (Some sample_baseline) = Inr (GPass, rs)"
    using sample_gate_result(1) by blast
  from gate_passes_iff_satisfied [OF this] show ?thesis by simp
qed

subsection \<open>What raises, and what ERROR does\<close>

definition rule_well_formed :: "json \<Rightarrow> bool" where
  "rule_well_formed leaf \<longleftrightarrow>
     (case leaf of
        JObj kvs \<Rightarrow>
          (case obj_get ''metric'' kvs of JArr _ \<Rightarrow> False | JObj _ \<Rightarrow> False | _ \<Rightarrow> True)
        \<and> (obj_has ''value'' kvs \<longrightarrow> (case json_to_float (obj_get ''value'' kvs) of Inl _ \<Rightarrow> False | Inr _ \<Rightarrow> True))
        \<and> (obj_has ''baseline_delta'' kvs \<longrightarrow>
             (case json_to_float (obj_get ''baseline_delta'' kvs) of Inl _ \<Rightarrow> False | Inr _ \<Rightarrow> True))
      | _ \<Rightarrow> False)"

definition rules_well_formed :: "json \<Rightarrow> bool" where
  "rules_well_formed rules \<longleftrightarrow>
     (case rules of
        JObj kvs \<Rightarrow>
          (case (if obj_has ''all'' kvs then obj_get ''all'' kvs else obj_get ''any'' kvs) of
             JArr leaves \<Rightarrow> list_all rule_well_formed leaves | _ \<Rightarrow> True)
      | _ \<Rightarrow> True)"

lemma gate_compare_total:
  assumes "json_to_float th = Inr f" shows "\<exists>b. gate_compare x op th = Inr b"
proof -
  obtain r where "json_number th = Some r" using assms by (cases th) (auto split: pyfloat.splits)
  with assms show ?thesis by (auto simp: gate_compare_def compare_number_def)
qed

lemma evaluate_leaf_total:
  assumes "rule_well_formed leaf" shows "\<exists>r. evaluate_leaf leaf metrics baseline = Inr r"
proof -
  obtain kvs where kvs: "leaf = JObj kvs" using assms by (cases leaf) (auto simp: rule_well_formed_def)
  have num: "\<exists>f. json_to_float (obj_get k kvs) = Inr f" if "obj_has k kvs" "k = ''value'' \<or> k = ''baseline_delta''" for k
    using assms that kvs by (auto simp: rule_well_formed_def split: sum.splits)
  obtain lookup where l: "metric_lookup metrics (obj_get ''metric'' kvs) = Inr lookup"
    using assms kvs by (cases "obj_get ''metric'' kvs") (auto simp: rule_well_formed_def)
  have cmp: "\<exists>b. gate_compare x op (obj_get k kvs) = Inr b"
    if "obj_has k kvs" "k = ''value'' \<or> k = ''baseline_delta''" for k x op
    using num [OF that] gate_compare_total by blast
  have "\<exists>r. evaluate_absolute base op (obj_get ''value'' kvs) c = Inr r" if "obj_has ''value'' kvs" for base op c
    using cmp [OF that, of c op] by (auto simp: evaluate_absolute_def split: option.split)
  moreover have "\<exists>r. evaluate_delta base name op (obj_get ''baseline_delta'' kvs) c baseline = Inr r"
    if "obj_has ''baseline_delta'' kvs" for base name op c
  proof (cases "\<exists>bm b. baseline = Some bm \<and> bm name = Some (Some b)")
    case True
    then obtain bm b where "baseline = Some bm" "bm name = Some (Some b)" by blast
    with cmp [OF that, of "f_sub c b" op] show ?thesis
      by (auto simp: evaluate_delta_def Let_def split: option.split)
  next
    case False
    then show ?thesis by (auto simp: evaluate_delta_def Let_def split: option.split)
  qed
  ultimately show ?thesis
    by (auto simp: evaluate_leaf_def kvs Let_def l split: option.splits)
qed

lemma evaluate_leaves_total:
  "list_all rule_well_formed leaves \<Longrightarrow> \<exists>rs. evaluate_leaves leaves metrics baseline = Inr rs"
  by (induction leaves) (auto dest!: evaluate_leaf_total [of _ metrics baseline])

text \<open>A gate whose rules are objects with numeric thresholds always gets a verdict: the engine raises
  for no metrics, whatever is missing among them; and under \<open>all\<close> a rule whose metric is not
  persisted makes that verdict ERROR, never FAIL or PASS.\<close>

theorem gate_total_and_errors:
  assumes "rules_well_formed rules"
  shows "\<exists>status rule_results. gate_evaluate rules metrics baseline = Inr (status, rule_results)
    \<and> (\<forall>kvs leaves leaf lkvs. rules = JObj kvs \<and> obj_has ''all'' kvs \<and> obj_get ''all'' kvs = JArr leaves
        \<and> leaf \<in> set leaves \<and> leaf = JObj lkvs
        \<and> (\<forall>name v. obj_get ''metric'' lkvs = JStr name \<longrightarrow> metrics name \<noteq> Some (Some v)) \<longrightarrow> status = GError)"
proof -
  have logical: "\<exists>st rs. evaluate_logical logical leaves metrics baseline = Inr (st, rs)"
    if "\<And>ls. leaves = JArr ls \<Longrightarrow> list_all rule_well_formed ls" for logical leaves
  proof (cases "\<exists>l ls. leaves = JArr (l # ls)")
    case True
    then obtain l ls where ls: "leaves = JArr (l # ls)" by blast
    with that obtain rs where "evaluate_leaves (l # ls) metrics baseline = Inr rs"
      using evaluate_leaves_total by blast
    with ls show ?thesis by (simp add: evaluate_logical_def del: evaluate_leaves.simps)
  next
    case False
    then show ?thesis by (auto simp: evaluate_logical_def split: json.splits list.splits)
  qed
  obtain status rs where run: "gate_evaluate rules metrics baseline = Inr (status, rs)"
    using assms logical
    by (cases rules) (fastforce simp: gate_evaluate_def rules_well_formed_def split: if_splits json.splits)+
  moreover have "status = GError"
    if rules: "rules = JObj kvs" "obj_has ''all'' kvs" "obj_get ''all'' kvs = JArr leaves"
      and mem: "leaf \<in> set leaves" and "leaf = JObj lkvs"
      and "\<forall>name v. obj_get ''metric'' lkvs = JStr name \<longrightarrow> metrics name \<noteq> Some (Some v)" for kvs leaves leaf lkvs
  proof -
    have "evaluate_logical ''all'' (JArr leaves) metrics baseline = Inr (status, rs)"
      using run rules by (simp add: gate_evaluate_def)
    then obtain leafs where leafs: "evaluate_leaves leaves metrics baseline = Inr leafs"
      and st: "status = combine (map lr_status leafs) ''all''"
      using mem by (cases leaves) (auto simp: evaluate_logical_def simp del: evaluate_leaves.simps split: sum.splits)
    have err: "lr_status r = GError" if "evaluate_leaf leaf metrics baseline = Inr r" for r
      using that \<open>leaf = JObj lkvs\<close> \<open>\<forall>name v. obj_get ''metric'' lkvs = JStr name \<longrightarrow> metrics name \<noteq> Some (Some v)\<close>
      by (auto simp: evaluate_leaf_def Let_def metric_lookup_Some split: if_splits sum.splits option.splits prod.splits)
    have "\<exists>r \<in> set leafs. evaluate_leaf leaf metrics baseline = Inr r"
      using leafs mem
    proof (induction leaves arbitrary: leafs)
      case (Cons a as)
      then show ?case by (auto split: sum.splits)
    qed simp
    with err have "GError \<in> set (map lr_status leafs)" by (force simp: image_iff)
    then show ?thesis by (auto simp: st combine_def list_ex_iff)
  qed
  ultimately show ?thesis by blast
qed

theorem gate_total_and_errors_witness:
  "\<exists>rule_results. gate_evaluate sample_rules (\<lambda>_. None) None = Inr (GError, rule_results)"
proof -
  have "rules_well_formed sample_rules"
    by (simp add: rules_well_formed_def rule_well_formed_def sample_rules_def obj_has_def obj_get_def
        fl_of_int [of 0, simplified])
  from gate_total_and_errors [OF this, of "\<lambda>_. None" None] show ?thesis
    by (auto simp: sample_rules_def obj_has_def obj_get_def)
qed

end
