(* ===== verification/Metrics.thy ===== *)
theory Metrics
  imports Schema "HOL-Library.Multiset"
begin

text \<open>
  The evaluation metrics (app/evaluation/metrics.py) and the deterministic predictor of the
  toy evaluator (app/evaluation/toy_evaluator.py).  Strings are lists of the first 256 code
  points; white space is Python's.  Floats are those of \<open>PyFloat\<close>, and \<open>py_sum\<close> is the
  compensated summation of the interpreter the repository runs on (Dockerfile: Python 3.12).
\<close>

subsection \<open>Strings\<close>

definition is_space :: "char \<Rightarrow> bool" where
  "is_space c \<longleftrightarrow> c \<in> {CHR 0x09, CHR 0x0A, CHR 0x0B, CHR 0x0C, CHR 0x0D, CHR 0x1C, CHR 0x1D, CHR 0x1E,
     CHR 0x1F, CHR 0x20, CHR 0x85, CHR 0xA0}"

definition py_strip :: "string \<Rightarrow> string" where
  "py_strip s = rev (dropWhile is_space (rev (dropWhile is_space s)))"

text \<open>\<open>split()\<close>: the maximal runs of characters that are not white space.\<close>

fun split_from :: "string \<Rightarrow> string \<Rightarrow> string list" where
  "split_from tok [] = (if tok = [] then [] else [tok])"
| "split_from tok (c # s) =
     (if is_space c then (if tok = [] then split_from [] s else tok # split_from [] s)
      else split_from (tok @ [c]) s)"

definition py_split :: "string \<Rightarrow> string list" where
  "py_split s = split_from [] s"

fun py_join :: "string list \<Rightarrow> string" where
  "py_join [] = []"
| "py_join [t] = t"
| "py_join (t # u # ts) = t @ '' '' @ py_join (u # ts)"

text \<open>\<^verbatim>\<open>prediction or ""\<close>\<close>

definition or_empty :: "string option \<Rightarrow> string" where
  "or_empty s = (case s of None \<Rightarrow> [] | Some t \<Rightarrow> t)"

subsection \<open>Per-example metrics\<close>

definition exact_match :: "string option \<Rightarrow> string option \<Rightarrow> pyfloat" where
  "exact_match prediction expected =
     (if py_strip (or_empty prediction) = py_strip (or_empty expected) then Fin 1 else Fin 0)"

definition token_matches :: "string list \<Rightarrow> string list \<Rightarrow> nat" where
  "token_matches ps es = length (filter (\<lambda>(p, e). p = e) (zip ps es))"

definition token_accuracy :: "string option \<Rightarrow> string option \<Rightarrow> pyfloat" where
  "token_accuracy prediction expected =
     (let pred_tokens = py_split (or_empty prediction); exp_tokens = py_split (or_empty expected);
          denom = max (length pred_tokens) (length exp_tokens)
      in if denom = 0 then Fin 1 else fl (of_nat (token_matches pred_tokens exp_tokens) / of_nat denom))"

subsection \<open>Sums, sorting, percentiles\<close>

definition f_div_nat :: "pyfloat \<Rightarrow> nat \<Rightarrow> pyfloat" where
  "f_div_nat a n = (case a of Fin q \<Rightarrow> fl (q / of_nat n) | _ \<Rightarrow> a)"

text \<open>Neumaier's summation: the running sum and the running compensation.\<close>

fun py_sum_from :: "pyfloat \<Rightarrow> pyfloat \<Rightarrow> pyfloat list \<Rightarrow> pyfloat" where
  "py_sum_from f c [] = (if f_eq c (Fin 0) \<or> f_isinf c \<or> f_isnan c then f else f_add f c)"
| "py_sum_from f c (x # xs) =
     (let t = f_add f x
      in py_sum_from t (if f_le (f_abs x) (f_abs f) then f_add c (f_add (f_sub f t) x)
                        else f_add c (f_add (f_sub x t) f)) xs)"

definition py_sum :: "pyfloat list \<Rightarrow> pyfloat" where
  "py_sum xs = py_sum_from (Fin 0) (Fin 0) xs"

fun f_insert :: "pyfloat \<Rightarrow> pyfloat list \<Rightarrow> pyfloat list" where
  "f_insert x [] = [x]"
| "f_insert x (y # ys) = (if f_lt y x then y # f_insert x ys else x # y # ys)"

definition py_sorted :: "pyfloat list \<Rightarrow> pyfloat list" where
  "py_sorted xs = foldr f_insert xs []"

definition percentile_rank :: "nat \<Rightarrow> rat \<Rightarrow> pyfloat" where
  "percentile_rank n p = f_mul (fl (p / 100)) (fl (of_nat (n - 1)))"

definition f_int :: "pyfloat \<Rightarrow> nat" where
  "f_int a = (case a of Fin q \<Rightarrow> nat \<lfloor>q\<rfloor> | _ \<Rightarrow> 0)"

definition percentile :: "pyfloat list \<Rightarrow> rat \<Rightarrow> pyfloat" where
  "percentile values p =
     (if values = [] then Fin 0
      else let ordered = py_sorted values in
        if length ordered = 1 then ordered ! 0
        else let rank = percentile_rank (length ordered) p;
                 low = f_int rank; high = min (low + 1) (length ordered - 1);
                 frac = f_sub rank (fl (of_nat low))
             in f_add (ordered ! low) (f_mul (f_sub (ordered ! high) (ordered ! low)) frac))"

subsection \<open>Aggregation\<close>

record example_record =
  xr_exact_match :: pyfloat
  xr_token_accuracy :: pyfloat
  xr_latency_ms :: "pyfloat option"

record aggregate_metric =
  ag_metric_name :: string
  ag_metric_value :: pyfloat
  ag_sample_count :: nat

definition aggregate :: "example_record list \<Rightarrow> aggregate_metric list" where
  "aggregate per_example =
     (let n = length per_example in
      if n = 0 then []
      else let em = f_div_nat (py_sum (map xr_exact_match per_example)) n;
               ta = f_div_nat (py_sum (map xr_token_accuracy per_example)) n;
               latencies = List.map_filter xr_latency_ms per_example;
               k = length latencies
           in [\<lparr>ag_metric_name = ''exact_match'', ag_metric_value = em, ag_sample_count = n\<rparr>,
               \<lparr>ag_metric_name = ''token_accuracy'', ag_metric_value = ta, ag_sample_count = n\<rparr>]
            @ (if latencies = [] then []
               else [\<lparr>ag_metric_name = ''latency_mean_ms'', ag_metric_value = f_div_nat (py_sum latencies) k,
                      ag_sample_count = k\<rparr>,
                     \<lparr>ag_metric_name = ''latency_p50_ms'', ag_metric_value = percentile latencies 50,
                      ag_sample_count = k\<rparr>,
                     \<lparr>ag_metric_name = ''latency_p95_ms'', ag_metric_value = percentile latencies 95,
                      ag_sample_count = k\<rparr>]))"

subsection \<open>The toy predictor\<close>

definition toy_predict :: "string \<Rightarrow> pyfloat \<Rightarrow> string" where
  "toy_predict input_text param =
     (let tokens = py_split input_text
      in if f_le (Fin (1 / 2)) param then py_join tokens else py_join (rev tokens))"

section \<open>Properties\<close>

subsection \<open>Splitting and joining\<close>

definition is_token :: "string \<Rightarrow> bool" where
  "is_token t \<longleftrightarrow> t \<noteq> [] \<and> (\<forall>c \<in> set t. \<not> is_space c)"

lemma split_from_tokens: "\<forall>c \<in> set tok. \<not> is_space c \<Longrightarrow> \<forall>t \<in> set (split_from tok s). is_token t"
proof (induction tok s rule: split_from.induct)
  case (2 tok c s)
  then show ?case by (cases "is_space c"; cases "tok = []") (simp_all add: is_token_def)
qed (simp add: is_token_def)

lemma split_from_word: "\<forall>c \<in> set w. \<not> is_space c \<Longrightarrow> split_from tok (w @ s) = split_from (tok @ w) s"
  by (induction w arbitrary: tok) auto

lemma is_space_blank [simp]: "is_space CHR 0x20"
  by (simp add: is_space_def)

lemma split_join: "\<forall>t \<in> set ts. is_token t \<Longrightarrow> py_split (py_join ts) = ts"
proof (induction ts rule: py_join.induct)
  case (2 t)
  then show ?case using split_from_word [of t "[]" "[]"] by (simp add: py_split_def is_token_def)
next
  case (3 t u ts)
  then show ?case
    using split_from_word [of t "[]" "'' '' @ py_join (u # ts)"]
    by (simp add: py_split_def is_token_def)
qed (simp add: py_split_def)

lemma split_blanks: "\<forall>c \<in> set b. is_space c \<Longrightarrow> split_from [] (b @ s) = split_from [] s"
  by (induction b) auto

lemma split_trailing: "\<forall>c \<in> set b. is_space c \<Longrightarrow> split_from tok (s @ b) = split_from tok s"
proof (induction tok s rule: split_from.induct)
  case (1 tok)
  then show ?case
    using split_blanks [of b "[]"] by (cases b) auto
qed auto

lemma split_strip: "py_split (py_strip s) = py_split s"
proof -
  let ?l = "takeWhile is_space s" and ?m = "dropWhile is_space s"
  let ?r = "takeWhile is_space (rev ?m)"
  have "?m = py_strip s @ rev ?r"
    by (metis py_strip_def rev_append rev_rev_ident takeWhile_dropWhile_id)
  moreover have "\<forall>c \<in> set (rev ?r). is_space c" "\<forall>c \<in> set ?l. is_space c"
    by (auto dest: set_takeWhileD)
  ultimately have "split_from [] s = split_from [] (py_strip s)"
    by (metis split_blanks split_trailing takeWhile_dropWhile_id)
  then show ?thesis by (simp add: py_split_def)
qed

subsection \<open>Accuracies\<close>

lemma token_matches_le: "token_matches ps es \<le> min (length ps) (length es)"
  unfolding token_matches_def by (rule order_trans [OF length_filter_le]) simp

lemma token_matches_same [simp]: "token_matches ts ts = length ts"
  by (induction ts) (simp_all add: token_matches_def)

lemma fl_01: "fl 0 = Fin 0" "fl 1 = Fin 1"
  using fl_of_int [of 0] fl_of_int [of 1] by simp_all

text \<open>Token accuracy is always between 0 and 1, no denominator is zero, and an exact match is fully
  accurate: exact match 1 makes token accuracy 1, although one compares stripped strings and the
  other token lists; exact match is 0 or 1.\<close>

theorem accuracies_consistent:
  "f_le (Fin 0) (token_accuracy p e) \<and> f_le (token_accuracy p e) (Fin 1)
   \<and> (exact_match p e = Fin 0 \<or> exact_match p e = Fin 1 \<and> token_accuracy p e = Fin 1)"
proof -
  let ?p = "py_split (or_empty p)" and ?e = "py_split (or_empty e)"
  let ?d = "max (length ?p) (length ?e)"
  have "f_le (Fin 0) (token_accuracy p e) \<and> f_le (token_accuracy p e) (Fin 1)"
  proof (cases "?d = 0")
    case False
    have "token_matches ?p ?e \<le> ?d" using token_matches_le [of ?p ?e] by linarith
    then have "(of_nat (token_matches ?p ?e) :: rat) / of_nat ?d \<le> 1"
      using False by (intro divide_le_eq_1_pos [THEN iffD2]) (simp_all only: of_nat_0_less_iff of_nat_le_iff not_gr_zero neq0_conv)
    then have "f_le (fl (of_nat (token_matches ?p ?e) / of_nat ?d)) (fl 1)" by (rule f_le_Fin_fl)
    moreover have "f_le (fl 0) (fl (of_nat (token_matches ?p ?e) / of_nat ?d))"
      by (rule f_le_Fin_fl) simp
    moreover have "token_accuracy p e = fl (of_nat (token_matches ?p ?e) / of_nat ?d)"
      unfolding token_accuracy_def Let_def using False by (rule if_not_P)
    ultimately show ?thesis unfolding fl_01 by metis
  qed (simp add: token_accuracy_def Let_def)
  moreover have "token_accuracy p e = Fin 1" if "exact_match p e = Fin 1"
  proof -
    have "?p = ?e" using that split_strip by (metis exact_match_def pyfloat.inject(1) zero_neq_one)
    then show ?thesis by (simp add: token_accuracy_def fl_01 Let_def)
  qed
  ultimately show ?thesis by (auto simp: exact_match_def)
qed

text \<open>The toy predictor is a permutation of the tokens of its input and undoes itself: a trained
  parameter returns the tokens in order, so it scores 1 on its own input; an untrained one reverses
  them, and twice reversed is the identity on token lists.\<close>

theorem toy_predict_roundtrip:
  "mset (py_split (toy_predict s a)) = mset (py_split s)
   \<and> toy_predict (toy_predict s a) a = py_join (py_split s)
   \<and> token_accuracy (Some (toy_predict s (Fin 1))) (Some s) = Fin 1"
proof -
  have tok: "\<forall>t \<in> set (py_split s). is_token t"
    unfolding py_split_def by (rule split_from_tokens) simp
  then have "\<forall>t \<in> set (rev (py_split s)). is_token t" by simp
  note joined = split_join [OF tok] split_join [OF this]
  have "token_accuracy (Some (toy_predict s (Fin 1))) (Some s) = Fin 1"
    by (simp add: token_accuracy_def or_empty_def toy_predict_def joined fl_01 Let_def)
  with joined show ?thesis by (auto simp: toy_predict_def Let_def)
qed

subsection \<open>The exact-match rate\<close>

lemma sub_fl_of_nat:
  "k < 2 ^ 53 \<Longrightarrow> fl (of_nat k) = Fin (of_nat k)"
  using fl_of_int [of "int k"] by simp

lemma py_sum_bits:
  assumes "\<forall>x \<in> set xs. x = Fin 0 \<or> x = Fin 1" and "k + length xs < 2 ^ 53"
  shows "py_sum_from (Fin (of_nat k)) (Fin 0) xs = Fin (of_nat (k + count_list xs (Fin 1)))"
  using assms
proof (induction xs arbitrary: k)
  case Nil
  then show ?case by (simp add: f_eq_def)
next
  case (Cons x xs)
  have minus: "fl (- 1) = Fin (- 1)" using fl_of_int [of "- 1"] by simp
  consider "x = Fin 0" | "x = Fin 1" using Cons.prems(1) by auto
  then show ?case
  proof cases
    case 1
    have "py_sum_from (Fin (of_nat k)) (Fin 0) (x # xs) = py_sum_from (Fin (of_nat k)) (Fin 0) xs"
      using 1 Cons.prems(2) by (simp add: Let_def f_sub_def sub_fl_of_nat fl_01)
    then show ?thesis using 1 Cons by simp
  next
    case 2
    have "fl (of_nat k + 1) = Fin (of_nat (Suc k))"
      using sub_fl_of_nat [of "Suc k"] Cons.prems(2) by (simp add: add.commute)
    moreover have "fl (1 - (of_nat k + 1)) = Fin (- of_nat k)"
      using fl_of_int [of "- int k"] Cons.prems(2) by simp
    ultimately have "py_sum_from (Fin (of_nat k)) (Fin 0) (x # xs) = py_sum_from (Fin (of_nat (Suc k))) (Fin 0) xs"
      using 2 by (simp add: Let_def f_sub_def minus fl_01)
    then show ?thesis using 2 Cons.IH [of "Suc k"] Cons.prems by simp
  qed
qed

lemma exact_match_01: "exact_match p e = Fin 0 \<or> exact_match p e = Fin 1"
  by (simp add: exact_match_def)

text \<open>The aggregate exact-match metric is the correctly rounded quotient of the number of matching
  examples and the number of examples: compensated summation makes no error on it, and its sample
  count is the number of examples.\<close>

theorem aggregate_exact_match:
  assumes "per_example \<noteq> []" and "length per_example < 2 ^ 53"
    and "\<forall>r \<in> set per_example. \<exists>p e. xr_exact_match r = exact_match p e"
  shows "hd (aggregate per_example) = \<lparr>ag_metric_name = ''exact_match'',
    ag_metric_value = fl (of_nat (length (filter (\<lambda>r. xr_exact_match r = Fin 1) per_example))
                          / of_nat (length per_example)),
    ag_sample_count = length per_example\<rparr>"
proof -
  have "\<forall>x \<in> set (map xr_exact_match per_example). x = Fin 0 \<or> x = Fin 1"
    using assms(3) exact_match_01 by fastforce
  then have "py_sum (map xr_exact_match per_example) = Fin (of_nat (count_list (map xr_exact_match per_example) (Fin 1)))"
    using py_sum_bits [of "map xr_exact_match per_example" 0] assms(2) by (simp add: py_sum_def)
  moreover have "count_list (map xr_exact_match rs) (Fin 1) = length (filter (\<lambda>r. xr_exact_match r = Fin 1) rs)" for rs :: "example_record list"
    by (induction rs) auto
  ultimately show ?thesis using assms(1) by (simp add: aggregate_def Let_def f_div_nat_def)
qed

definition sample_example :: "string \<Rightarrow> example_record" where
  "sample_example p = \<lparr>xr_exact_match = exact_match (Some p) (Some ''a b''),
     xr_token_accuracy = token_accuracy (Some p) (Some ''a b''), xr_latency_ms = None\<rparr>"

theorem aggregate_exact_match_witness:
  "hd (aggregate [sample_example ''a b '', sample_example ''b a'']) =
     \<lparr>ag_metric_name = ''exact_match'', ag_metric_value = Fin (1/2), ag_sample_count = 2\<rparr>"
proof -
  let ?rs = "[sample_example ''a b '', sample_example ''b a'']"
  note fl_half
  moreover have "length (filter (\<lambda>r. xr_exact_match r = Fin 1) ?rs) = 1"
    by (simp add: sample_example_def exact_match_def py_strip_def or_empty_def is_space_def)
  moreover have "hd (aggregate ?rs) = \<lparr>ag_metric_name = ''exact_match'',
    ag_metric_value = fl (of_nat (length (filter (\<lambda>r. xr_exact_match r = Fin 1) ?rs)) / of_nat (length ?rs)),
    ag_sample_count = length ?rs\<rparr>"
    by (rule aggregate_exact_match) (auto simp: sample_example_def)
  ultimately show ?thesis by simp
qed

subsection \<open>Percentiles\<close>

lemma f_insert_Fin: "f_insert (Fin x) (map Fin ys) = map Fin (insort x ys)"
  by (induction ys) (auto simp: not_less)

lemma py_sorted_Fin: "py_sorted (map Fin qs) = map Fin (sort qs)"
  unfolding py_sorted_def sort_key_def by (induction qs) (simp_all add: f_insert_Fin)

text \<open>A rounded product of a value at most 1 and a representable one stays below the latter.\<close>

lemma fl_finite:
  assumes "0 \<le> q" and "q \<le> r" and "is_double r" and "r < pow2 1024"
  shows "fl q = Fin (fl_exact q)" and "0 \<le> fl_exact q" and "fl_exact q \<le> r"
proof -
  show le: "fl_exact q \<le> r" using fl_exact_mono [OF assms(2)] assms(3) by (simp add: is_double_def)
  show ge: "0 \<le> fl_exact q" using assms(1) by (rule fl_exact_nonneg)
  have "0 < pow2 1024" by simp
  then have "\<not> fl_exact q \<le> - pow2 1024" using ge by linarith
  then show "fl q = Fin (fl_exact q)" using le assms(4) by (simp add: fl_def Let_def)
qed

lemma is_double_nat: "n < 2 ^ 53 \<Longrightarrow> is_double (of_nat n) \<and> of_nat n < pow2 1024"
proof -
  assume n: "n < 2 ^ 53"
  then have "fl_exact (of_int (int n)) = of_int (int n)" by (intro fl_exact_of_int) simp
  moreover have "(of_nat n :: rat) < of_nat (2 ^ 53)" using n by (simp only: of_nat_less_iff)
  then have "(of_nat n :: rat) < pow2 53" by (simp add: pow2_def)
  then have "(of_nat n :: rat) < pow2 1024" using pow2_mono [of 53 1024] by linarith
  ultimately show ?thesis by (simp add: is_double_def)
qed

lemma percentile_rank_Fin:
  assumes "0 < n" and "n \<le> 2 ^ 53" and "0 \<le> p" and "p \<le> 100"
  shows "\<exists>r. percentile_rank n p = Fin r \<and> 0 \<le> r \<and> r \<le> of_nat (n - 1)"
proof -
  note n1 = is_double_nat [of "n - 1"]
  have d: "is_double (of_nat (n - 1))" "of_nat (n - 1) < pow2 1024" using n1 assms(1,2) by simp_all
  have 1: "is_double 1" "(1::rat) < pow2 1024" using is_double_nat [of 1] by simp_all
  note a = fl_finite [of "p / 100" 1, OF _ _ 1]
  have a': "fl (p / 100) = Fin (fl_exact (p / 100))" "0 \<le> fl_exact (p / 100)" "fl_exact (p / 100) \<le> 1"
    using a assms(3,4) by simp_all
  have b: "fl (of_nat (n - 1)) = Fin (of_nat (n - 1))"
    using sub_fl_of_nat [of "n - 1"] assms(1,2) by simp
  have m: "0 \<le> fl_exact (p / 100) * of_nat (n - 1)" "fl_exact (p / 100) * of_nat (n - 1) \<le> of_nat (n - 1)"
    using a'(2,3) by (simp_all add: mult_left_le_one_le)
  note c = fl_finite [OF m d]
  have "percentile_rank n p = Fin (fl_exact (fl_exact (p / 100) * of_nat (n - 1)))"
    using a'(1) b c(1) by (simp add: percentile_rank_def)
  with c(2,3) show ?thesis by blast
qed

text \<open>On finite non-negative samples (latencies) and for a percentage between 0 and 100, the interpolated
  percentile is well defined: its lower index is inside the list, the result is never below the sample
  at that index, nor therefore below the smallest sample, and no operation on the way is NaN.\<close>

theorem percentile_bounds:
  assumes "qs \<noteq> []" and "length qs \<le> 2 ^ 53" and "\<forall>q \<in> set qs. is_double q \<and> 0 \<le> q \<and> q < pow2 1024"
    and "0 \<le> p" and "p \<le> 100"
  shows "f_int (percentile_rank (length qs) p) < length qs
    \<and> f_le (Fin (sort qs ! f_int (percentile_rank (length qs) p))) (percentile (map Fin qs) p)
    \<and> f_le (Fin (sort qs ! 0)) (percentile (map Fin qs) p)"
proof -
  let ?n = "length qs" and ?o = "sort qs"
  obtain r where r: "percentile_rank ?n p = Fin r" "0 \<le> r" "r \<le> of_nat (?n - 1)"
    using percentile_rank_Fin [of ?n p] assms(1,2,4,5) by auto
  define low where "low = f_int (percentile_rank ?n p)"
  define high where "high = min (low + 1) (?n - 1)"
  have n: "0 < ?n" using assms(1) by simp
  have low_def': "low = nat \<lfloor>r\<rfloor>" by (simp add: low_def f_int_def r(1))
  have "\<lfloor>r\<rfloor> \<le> int (?n - 1)" using r(3) by (simp add: floor_le_iff)
  then have low: "low \<le> ?n - 1" by (simp add: low_def')
  have low_n: "low < ?n" using low n by linarith
  have high_n: "high < ?n" "low \<le> high" unfolding high_def using low n by arith+
  have low_r: "of_nat low \<le> r" using r(2) by (simp add: low_def')
  have mem: "is_double (?o ! i) \<and> 0 \<le> ?o ! i \<and> ?o ! i < pow2 1024" if "i < ?n" for i
    using assms(3) nth_mem [of i ?o] that by auto
  have mono: "?o ! i \<le> ?o ! j" if "i \<le> j" "j < ?n" for i j
    using that by (intro sorted_nth_mono) simp_all
  have res: "f_le (Fin (?o ! low)) (percentile (map Fin qs) p)"
  proof (cases "?n = 1")
    case True
    then have "percentile (map Fin qs) p = Fin (?o ! 0)" "low = 0"
      using assms(1) low by (simp_all add: percentile_def py_sorted_Fin Let_def)
    then show ?thesis by simp
  next
    case False
    note d = is_double_nat [of "?n - 1"]
    have lowf: "fl (of_nat low) = Fin (of_nat low)"
      using sub_fl_of_nat [of low] low_n assms(2) by simp
    have frac: "0 \<le> r - of_nat low" "r - of_nat low \<le> 1" using low_r by (simp_all add: low_def') linarith
    have 1: "is_double 1" "(1::rat) < pow2 1024" using is_double_nat [of 1] by simp_all
    note f = fl_finite [OF frac 1]
    have gap: "0 \<le> ?o ! high - ?o ! low" "?o ! high - ?o ! low \<le> ?o ! high"
      using mono [OF high_n(2,1)] mem [OF low_n] by simp_all
    note g = fl_finite [OF gap] 
    have g': "fl (?o ! high - ?o ! low) = Fin (fl_exact (?o ! high - ?o ! low))"
      "0 \<le> fl_exact (?o ! high - ?o ! low)" "fl_exact (?o ! high - ?o ! low) \<le> ?o ! high"
      using g mem [OF high_n(1)] by simp_all
    let ?x = "fl_exact (?o ! high - ?o ! low) * fl_exact (r - of_nat low)"
    have x: "0 \<le> ?x" "?x \<le> ?o ! high"
      using g'(2,3) f(2,3) by (auto intro: order_trans [OF mult_left_le])
    note h = fl_finite [OF x]
    have h': "fl ?x = Fin (fl_exact ?x)" "0 \<le> fl_exact ?x" using h mem [OF high_n(1)] by simp_all
    have high_eq: "min (Suc low) (?n - Suc 0) = high" by (simp add: high_def)
    have "percentile (map Fin qs) p = fl (?o ! low + fl_exact ?x)"
      using False assms(1) high_n low_n lowf f(1) g'(1) h'(1)
      by (simp add: percentile_def py_sorted_Fin Let_def r(1) f_sub_def low_def [symmetric, unfolded r(1)]
          high_eq)
    moreover have "f_le (fl (?o ! low)) (fl (?o ! low + fl_exact ?x))"
      using h'(2) by (intro f_le_Fin_fl) simp
    moreover have "fl (?o ! low) = Fin (?o ! low)"
      using mem [OF low_n] pow2_pos [of 1024] by (auto simp: fl_def is_double_def Let_def)
    ultimately show ?thesis by simp
  qed
  moreover have "f_le (Fin (?o ! 0)) (percentile (map Fin qs) p)"
    using f_le_trans [of "Fin (?o ! 0)" "Fin (?o ! low)"] res mono [of 0 low] low_n by simp
  ultimately show ?thesis using low_n by (simp add: low_def)
qed

theorem percentile_bounds_witness:
  "f_int (percentile_rank (length [3, 1, 2 :: rat]) 50) < 3
   \<and> f_le (Fin (sort [3, 1, 2] ! 0)) (percentile (map Fin [3, 1, 2]) 50)"
proof -
  have "is_double q \<and> 0 \<le> q \<and> q < pow2 1024" if "q \<in> {1, 2, 3}" for q
    using that is_double_nat [of 1] is_double_nat [of 2] is_double_nat [of 3] by auto
  then show ?thesis using percentile_bounds [of "[3, 1, 2]" 50] by simp
qed

end
