(* ===== verification/Registry.thy ===== *)
theory Registry
  imports Artifacts JobService
begin

text \<open>
  The registry: datasets, models and their versions, training runs and lineage
  (app/repository/datasets.py, models.py, training_runs.py and the services of the same names,
  app/services/lineage.py).  A row is inserted in one statement that fails with an integrity
  error when it would violate a primary key, a unique column or a foreign key.  Version numbers
  are read before they are written: \<open>others\<close> is what other processes commit in between.
\<close>

subsection \<open>Inserting\<close>

definition insert_or_fail :: "(db \<Rightarrow> bool) \<Rightarrow> (db \<Rightarrow> db) \<Rightarrow> unit program" where
  "insert_or_fail violates ins =
     bind (query violates) (\<lambda>bad.
     if bad then raise IntegrityError else bind (execute ins) (\<lambda>_. commit))"

definition max_or_none :: "int list \<Rightarrow> int option" where
  "max_or_none ns = (case ns of [] \<Rightarrow> None | n # ns' \<Rightarrow> Some (foldr max ns' n))"

definition next_number :: "int list \<Rightarrow> int" where
  "next_number ns = (case max_or_none ns of None \<Rightarrow> 0 | Some n \<Rightarrow> n) + 1"

definition uploaded_id :: "uuid \<Rightarrow> db \<Rightarrow> bool" where
  "uploaded_id aid d \<longleftrightarrow> (\<exists>a \<in> set (t_artifacts d). f_id a = aid \<and> f_status a = AUploaded)"

subsection \<open>Datasets\<close>

definition find_dataset :: "uuid \<Rightarrow> db \<Rightarrow> dataset option" where
  "find_dataset did d = sql_one (\<lambda>x. ds_id x = did) (t_datasets d)"

definition find_dataset_version :: "uuid \<Rightarrow> int \<Rightarrow> db \<Rightarrow> dataset_version option" where
  "find_dataset_version did n d =
     sql_one (\<lambda>v. dv_dataset_id v = did \<and> dv_version_number v = n) (t_dataset_versions d)"

definition datasets_create :: "time \<Rightarrow> string \<Rightarrow> string option \<Rightarrow> dataset program" where
  "datasets_create now name description =
     bind (query (\<lambda>d. \<lparr>ds_id = fresh_id (map ds_id (t_datasets d)), ds_name = name,
               ds_description = description, ds_created_at = now\<rparr>)) (\<lambda>row.
     bind (insert_or_fail (\<lambda>d. sql_exists (\<lambda>x. ds_name x = name) (t_datasets d))
             (\<lambda>d. d\<lparr>t_datasets := t_datasets d @ [row]\<rparr>)) (\<lambda>_. ret row))"

definition dataset_numbers :: "uuid \<Rightarrow> db \<Rightarrow> int list" where
  "dataset_numbers did d = map dv_version_number (sql_select (\<lambda>v. dv_dataset_id v = did) (t_dataset_versions d))"

definition datasets_next_version_number :: "uuid \<Rightarrow> int program" where
  "datasets_next_version_number did = query (\<lambda>d. next_number (dataset_numbers did d))"

definition dataset_version_violates :: "dataset_version \<Rightarrow> db \<Rightarrow> bool" where
  "dataset_version_violates v d \<longleftrightarrow>
     find_dataset_version (dv_dataset_id v) (dv_version_number v) d \<noteq> None
   \<or> find_dataset (dv_dataset_id v) d = None \<or> find_artifact (dv_artifact_id v) d = None"

definition datasets_create_version :: "(db \<Rightarrow> db) \<Rightarrow> time \<Rightarrow> uuid \<Rightarrow> uuid \<Rightarrow> dataset_version program" where
  "datasets_create_version others now dataset_id artifact_id =
     bind (datasets_next_version_number dataset_id) (\<lambda>n.
     bind (ret \<lparr>dv_dataset_id = dataset_id, dv_version_number = n, dv_artifact_id = artifact_id,
               dv_created_at = now\<rparr>) (\<lambda>row.
     bind (interfere others) (\<lambda>_.
     bind (insert_or_fail (dataset_version_violates row)
             (\<lambda>d. d\<lparr>t_dataset_versions := t_dataset_versions d @ [row]\<rparr>)) (\<lambda>_. ret row))))"

definition datasets_list_versions :: "uuid \<Rightarrow> nat \<Rightarrow> nat \<Rightarrow> db \<Rightarrow> dataset_version list \<times> nat" where
  "datasets_list_versions did limit offset d =
     (let base = sql_select (\<lambda>v. dv_dataset_id v = did) (t_dataset_versions d)
      in (take limit (drop offset (sort_key (\<lambda>v. - dv_version_number v) base)), length base))"

definition get_dataset_or_404 :: "uuid \<Rightarrow> dataset program" where
  "get_dataset_or_404 did =
     bind (query (find_dataset did)) (\<lambda>found.
     case found of None \<Rightarrow> raise (HTTPException 404) | Some x \<Rightarrow> ret x)"

definition list_dataset_versions :: "uuid \<Rightarrow> nat \<Rightarrow> nat \<Rightarrow> (dataset_version list \<times> nat) program" where
  "list_dataset_versions did limit offset =
     bind (get_dataset_or_404 did) (\<lambda>_. query (datasets_list_versions did limit offset))"

definition get_dataset_version_or_404 :: "uuid \<Rightarrow> int \<Rightarrow> dataset_version program" where
  "get_dataset_version_or_404 did n =
     bind (query (find_dataset_version did n)) (\<lambda>found.
     case found of None \<Rightarrow> raise (HTTPException 404) | Some v \<Rightarrow> ret v)"

definition create_dataset_version ::
  "settings \<Rightarrow> (bytes \<Rightarrow> string) \<Rightarrow> (string \<Rightarrow> bytes \<Rightarrow> exn option) \<Rightarrow> (string \<Rightarrow> exn + bytes) \<Rightarrow> (db \<Rightarrow> db)
   \<Rightarrow> time \<Rightarrow> time \<Rightarrow> uuid \<Rightarrow> bytes \<Rightarrow> string \<Rightarrow> dataset_version program" where
  "create_dataset_version cfg hash_bytes put_object get_object others now later dataset_id data uploader_id =
     bind (get_dataset_or_404 dataset_id) (\<lambda>_.
     bind (upload_artifact cfg hash_bytes put_object get_object others now later data ''DATASET'' uploader_id
             None None) (\<lambda>a.
     if f_status a \<noteq> AUploaded then raise (HTTPException 502)
     else datasets_create_version others later dataset_id (f_id a)))"

subsection \<open>Models\<close>

definition find_model :: "uuid \<Rightarrow> db \<Rightarrow> model option" where
  "find_model mid d = sql_one (\<lambda>x. m_id x = mid) (t_models d)"

definition find_model_version :: "uuid \<Rightarrow> int \<Rightarrow> db \<Rightarrow> model_version option" where
  "find_model_version mid n d =
     sql_one (\<lambda>v. mv_model_id v = mid \<and> mv_version_number v = n) (t_model_versions d)"

definition find_version_by_artifact :: "uuid \<Rightarrow> db \<Rightarrow> model_version option" where
  "find_version_by_artifact aid d = sql_one (\<lambda>v. mv_artifact_id v = aid) (t_model_versions d)"

definition find_training_run :: "uuid \<Rightarrow> db \<Rightarrow> training_run option" where
  "find_training_run rid d = sql_one (\<lambda>t. tr_id t = rid) (t_training_runs d)"

definition models_create :: "time \<Rightarrow> string \<Rightarrow> string option \<Rightarrow> model program" where
  "models_create now name description =
     bind (query (\<lambda>d. \<lparr>m_id = fresh_id (map m_id (t_models d)), m_name = name,
               m_description = description, m_created_at = now\<rparr>)) (\<lambda>row.
     bind (insert_or_fail (\<lambda>d. sql_exists (\<lambda>x. m_name x = name) (t_models d))
             (\<lambda>d. d\<lparr>t_models := t_models d @ [row]\<rparr>)) (\<lambda>_. ret row))"

definition model_numbers :: "uuid \<Rightarrow> db \<Rightarrow> int list" where
  "model_numbers mid d = map mv_version_number (sql_select (\<lambda>v. mv_model_id v = mid) (t_model_versions d))"

definition models_next_version_number :: "uuid \<Rightarrow> int program" where
  "models_next_version_number mid = query (\<lambda>d. next_number (model_numbers mid d))"

definition model_version_violates :: "model_version \<Rightarrow> db \<Rightarrow> bool" where
  "model_version_violates v d \<longleftrightarrow>
     find_model_version (mv_model_id v) (mv_version_number v) d \<noteq> None
   \<or> find_version_by_artifact (mv_artifact_id v) d \<noteq> None
   \<or> find_model (mv_model_id v) d = None \<or> find_artifact (mv_artifact_id v) d = None
   \<or> (case mv_training_run_id v of None \<Rightarrow> False | Some rid \<Rightarrow> find_training_run rid d = None)"

definition models_create_version ::
  "(db \<Rightarrow> db) \<Rightarrow> time \<Rightarrow> uuid \<Rightarrow> uuid \<Rightarrow> uuid option \<Rightarrow> model_version program" where
  "models_create_version others now model_id artifact_id training_run_id =
     bind (models_next_version_number model_id) (\<lambda>n.
     bind (ret \<lparr>mv_model_id = model_id, mv_version_number = n, mv_artifact_id = artifact_id,
               mv_training_run_id = training_run_id, mv_registered_at = now\<rparr>) (\<lambda>row.
     bind (interfere others) (\<lambda>_.
     bind (insert_or_fail (model_version_violates row)
             (\<lambda>d. d\<lparr>t_model_versions := t_model_versions d @ [row]\<rparr>)) (\<lambda>_. ret row))))"

definition models_list_versions :: "uuid \<Rightarrow> nat \<Rightarrow> nat \<Rightarrow> db \<Rightarrow> model_version list \<times> nat" where
  "models_list_versions mid limit offset d =
     (let base = sql_select (\<lambda>v. mv_model_id v = mid) (t_model_versions d)
      in (take limit (drop offset (sort_key (\<lambda>v. - mv_version_number v) base)), length base))"

definition get_model_or_404 :: "uuid \<Rightarrow> model program" where
  "get_model_or_404 mid =
     bind (query (find_model mid)) (\<lambda>found.
     case found of None \<Rightarrow> raise (HTTPException 404) | Some x \<Rightarrow> ret x)"

definition list_model_versions :: "uuid \<Rightarrow> nat \<Rightarrow> nat \<Rightarrow> (model_version list \<times> nat) program" where
  "list_model_versions mid limit offset =
     bind (get_model_or_404 mid) (\<lambda>_. query (models_list_versions mid limit offset))"

definition get_model_version_or_404 :: "uuid \<Rightarrow> int \<Rightarrow> model_version program" where
  "get_model_version_or_404 mid n =
     bind (query (find_model_version mid n)) (\<lambda>found.
     case found of None \<Rightarrow> raise (HTTPException 404) | Some v \<Rightarrow> ret v)"

definition register_version :: "(db \<Rightarrow> db) \<Rightarrow> time \<Rightarrow> uuid \<Rightarrow> uuid \<Rightarrow> uuid option \<Rightarrow> model_version program" where
  "register_version others now model_id artifact_id training_run_id =
     bind (get_model_or_404 model_id) (\<lambda>_.
     bind (artifacts_get artifact_id) (\<lambda>found.
     if (case found of None \<Rightarrow> True | Some a \<Rightarrow> f_status a \<noteq> AUploaded) then raise (HTTPException 409)
     else bind (query (find_version_by_artifact artifact_id)) (\<lambda>existing.
          if existing \<noteq> None then raise (HTTPException 409)
          else models_create_version others now model_id artifact_id training_run_id)))"

subsection \<open>Training runs\<close>

text \<open>The insert of a run checks its three foreign keys; the composite key of the base model is
  checked only when both of its columns are set.\<close>

definition training_run_violates :: "training_run \<Rightarrow> db \<Rightarrow> bool" where
  "training_run_violates t d \<longleftrightarrow>
     \<not> sql_exists (\<lambda>j. j_id j = tr_job_id t) (t_jobs d)
   \<or> find_dataset_version (tr_dataset_id t) (tr_dataset_version_number t) d = None
   \<or> (case (tr_base_model_id t, tr_base_model_version_number t) of
        (Some mid, Some n) \<Rightarrow> find_model_version mid n d = None
      | _ \<Rightarrow> False)"

definition training_runs_create :: "training_run \<Rightarrow> training_run program" where
  "training_runs_create t =
     bind (query (\<lambda>d. t\<lparr>tr_id := fresh_id (map tr_id (t_training_runs d))\<rparr>)) (\<lambda>row.
     bind (json_column (Some (tr_training_config t))) (\<lambda>_.
     bind (insert_or_fail (training_run_violates row)
             (\<lambda>d. d\<lparr>t_training_runs := t_training_runs d @ [row]\<rparr>)) (\<lambda>_. ret row)))"

record training_run_create =
  tc_job_type :: string
  tc_dataset_id :: uuid
  tc_dataset_version_number :: int
  tc_training_config :: json
  tc_code_commit :: string
  tc_container_image :: string
  tc_base_model_id :: "uuid option"
  tc_base_model_version_number :: "int option"
  tc_random_seed :: "int option"
  tc_priority :: int
  tc_job_config :: "json option"

definition new_training_run :: "time \<Rightarrow> uuid \<Rightarrow> training_run_create \<Rightarrow> training_run" where
  "new_training_run now job_id p =
     \<lparr>tr_id = 0, tr_job_id = job_id, tr_dataset_id = tc_dataset_id p,
      tr_dataset_version_number = tc_dataset_version_number p, tr_base_model_id = tc_base_model_id p,
      tr_base_model_version_number = tc_base_model_version_number p,
      tr_training_config = tc_training_config p, tr_code_commit = tc_code_commit p,
      tr_container_image = tc_container_image p, tr_random_seed = tc_random_seed p, tr_created_at = now\<rparr>"

text \<open>A comparison with a missing version number matches no row.\<close>

definition base_version_missing :: "uuid option \<Rightarrow> int option \<Rightarrow> db \<Rightarrow> bool" where
  "base_version_missing mid n d =
     (case mid of
        None \<Rightarrow> False
      | Some m \<Rightarrow> (case n of None \<Rightarrow> True | Some k \<Rightarrow> find_model_version m k d = None))"

definition create_training_run :: "(db \<Rightarrow> db) \<Rightarrow> time \<Rightarrow> training_run_create \<Rightarrow> training_run program" where
  "create_training_run others now p =
     bind (query (find_dataset_version (tc_dataset_id p) (tc_dataset_version_number p))) (\<lambda>found.
     if found = None then raise (HTTPException 404)
     else bind (query (base_version_missing (tc_base_model_id p) (tc_base_model_version_number p))) (\<lambda>missing.
          if missing then raise (HTTPException 404)
          else bind (create_job now \<lparr>jc_job_type = tc_job_type p, jc_config = tc_job_config p,
                       jc_priority = tc_priority p\<rparr>) (\<lambda>j.
               bind (interfere others) (\<lambda>_.
               training_runs_create (new_training_run now (j_id j) p)))))"

definition get_training_run_or_404 :: "uuid \<Rightarrow> training_run program" where
  "get_training_run_or_404 rid =
     bind (query (find_training_run rid)) (\<lambda>found.
     case found of None \<Rightarrow> raise (HTTPException 404) | Some t \<Rightarrow> ret t)"

subsection \<open>Lineage\<close>

record lineage =
  ln_model_version :: model_version
  ln_artifact :: "artifact option"
  ln_training_run :: "training_run option"
  ln_dataset :: "dataset option"
  ln_dataset_version :: "dataset_version option"
  ln_base_model_version :: "model_version option"
  ln_job :: "job option"

definition lineage_of :: "db \<Rightarrow> model_version \<Rightarrow> lineage" where
  "lineage_of d v =
     (let run = (case mv_training_run_id v of None \<Rightarrow> None | Some rid \<Rightarrow> find_training_run rid d)
      in \<lparr>ln_model_version = v,
          ln_artifact = find_artifact (mv_artifact_id v) d,
          ln_training_run = run,
          ln_dataset = (case run of None \<Rightarrow> None | Some t \<Rightarrow> find_dataset (tr_dataset_id t) d),
          ln_dataset_version = (case run of None \<Rightarrow> None
            | Some t \<Rightarrow> find_dataset_version (tr_dataset_id t) (tr_dataset_version_number t) d),
          ln_base_model_version = (case run of None \<Rightarrow> None
            | Some t \<Rightarrow> (case tr_base_model_id t of None \<Rightarrow> None
                | Some m \<Rightarrow> (case tr_base_model_version_number t of None \<Rightarrow> None
                    | Some n \<Rightarrow> find_model_version m n d))),
          ln_job = (case run of None \<Rightarrow> None | Some t \<Rightarrow> find_job (tr_job_id t) d)\<rparr>)"

definition get_lineage :: "uuid \<Rightarrow> int \<Rightarrow> db \<Rightarrow> lineage option" where
  "get_lineage mid n d =
     (case find_model_version mid n d of None \<Rightarrow> None | Some v \<Rightarrow> Some (lineage_of d v))"

end
