(* ===== verification/FencedRepo.thy ===== *)
theory FencedRepo
  imports Artifacts Registry
begin

text \<open>
  The fenced repositories of training and evaluation (app/repository/checkpoints.py,
  training_metrics.py, training_run_outputs.py, attempt_resume_decisions.py,
  evaluation_results.py, evaluation_metrics.py and the status write of evaluation_runs.py).
  Each write carries the same subquery: it takes effect only while the job is RUNNING under
  the worker and the attempt number of the writer (\<open>owns\<close>).  Inserts with
  \<^verbatim>\<open>ON CONFLICT DO NOTHING\<close> pass a conflict, the others violate a key.
\<close>

subsection \<open>The fence\<close>

definition owns :: "uuid \<Rightarrow> string \<Rightarrow> int \<Rightarrow> db \<Rightarrow> bool" where
  "owns jid worker_id n d \<longleftrightarrow> sql_exists (holds_lease jid worker_id n) (t_jobs d)"

definition insert_select ::
  "(db \<Rightarrow> bool) \<Rightarrow> (db \<Rightarrow> bool) \<Rightarrow> (db \<Rightarrow> bool) \<Rightarrow> (db \<Rightarrow> db) \<Rightarrow> bool program" where
  "insert_select fence conflict violates ins =
     bind (query (\<lambda>d. (fence d \<and> \<not> conflict d, violates d))) (\<lambda>(go, bad).
     if go \<and> bad then raise IntegrityError
     else bind (do_if go (execute ins)) (\<lambda>_. bind commit (\<lambda>_. ret go)))"

definition has_training_run :: "uuid \<Rightarrow> db \<Rightarrow> bool" where
  "has_training_run rid d \<longleftrightarrow> find_training_run rid d \<noteq> None"

definition has_evaluation_run :: "uuid \<Rightarrow> db \<Rightarrow> bool" where
  "has_evaluation_run rid d \<longleftrightarrow> sql_exists (\<lambda>e. er_id e = rid) (t_evaluation_runs d)"

subsection \<open>Checkpoints\<close>

definition checkpoint_key :: "checkpoint \<Rightarrow> uuid \<times> int \<times> int" where
  "checkpoint_key c = (c_training_run_id c, c_attempt_number c, c_step c)"

definition checkpoint_violates :: "checkpoint \<Rightarrow> db \<Rightarrow> bool" where
  "checkpoint_violates c d \<longleftrightarrow>
     sql_exists (\<lambda>x. checkpoint_key x = checkpoint_key c) (t_checkpoints d)
   \<or> sql_exists (\<lambda>x. c_artifact_id x = c_artifact_id c) (t_checkpoints d)
   \<or> \<not> has_training_run (c_training_run_id c) d \<or> find_artifact (c_artifact_id c) d = None"

definition checkpoints_register :: "checkpoint \<Rightarrow> uuid \<Rightarrow> string \<Rightarrow> int \<Rightarrow> bool program" where
  "checkpoints_register c jid worker_id n =
     insert_select (owns jid worker_id n) (\<lambda>_. False) (checkpoint_violates c)
       (\<lambda>d. d\<lparr>t_checkpoints := t_checkpoints d @ [c]\<rparr>)"

text \<open>Step, attempt and time of creation, all descending; ties in the order of the table.\<close>

definition checkpoints_list_for_run :: "uuid \<Rightarrow> db \<Rightarrow> checkpoint list" where
  "checkpoints_list_for_run rid d =
     sort_key (\<lambda>c. - c_step c) (sort_key (\<lambda>c. - c_attempt_number c)
       (sort_key (\<lambda>c. - c_created_at c) (sql_select (\<lambda>c. c_training_run_id c = rid) (t_checkpoints d))))"

subsection \<open>Training metrics, outputs and resume decisions\<close>

definition training_metrics_record :: "training_metric \<Rightarrow> uuid \<Rightarrow> string \<Rightarrow> int \<Rightarrow> bool program" where
  "training_metrics_record m jid worker_id n =
     insert_select (owns jid worker_id n) (\<lambda>_. False) (\<lambda>d. \<not> has_training_run (tm_training_run_id m) d)
       (\<lambda>d. d\<lparr>t_training_metrics := t_training_metrics d
                @ [m\<lparr>tm_id := fresh_id (map tm_id (t_training_metrics d))\<rparr>]\<rparr>)"

definition training_metrics_list_for_run :: "uuid \<Rightarrow> nat \<Rightarrow> nat \<Rightarrow> db \<Rightarrow> training_metric list \<times> nat" where
  "training_metrics_list_for_run rid limit offset d =
     (let base = sql_select (\<lambda>m. tm_training_run_id m = rid) (t_training_metrics d)
      in (take limit (drop offset (sort_key tm_step base)), length base))"

definition output_violates :: "training_run_output \<Rightarrow> db \<Rightarrow> bool" where
  "output_violates out d \<longleftrightarrow>
     sql_exists (\<lambda>x. to_training_run_id x = to_training_run_id out) (t_training_run_outputs d)
   \<or> sql_exists (\<lambda>x. to_final_artifact_id x = to_final_artifact_id out) (t_training_run_outputs d)
   \<or> \<not> has_training_run (to_training_run_id out) d \<or> find_artifact (to_final_artifact_id out) d = None"

definition outputs_register :: "training_run_output \<Rightarrow> uuid \<Rightarrow> string \<Rightarrow> int \<Rightarrow> bool program" where
  "outputs_register out jid worker_id n =
     insert_select (owns jid worker_id n) (\<lambda>_. False) (output_violates out)
       (\<lambda>d. d\<lparr>t_training_run_outputs := t_training_run_outputs d @ [out]\<rparr>)"

definition find_output :: "uuid \<Rightarrow> db \<Rightarrow> training_run_output option" where
  "find_output rid d = sql_one (\<lambda>x. to_training_run_id x = rid) (t_training_run_outputs d)"

definition decision_violates :: "attempt_resume_decision \<Rightarrow> db \<Rightarrow> bool" where
  "decision_violates r d \<longleftrightarrow>
     sql_exists (\<lambda>x. rd_training_run_id x = rd_training_run_id r \<and> rd_attempt_number x = rd_attempt_number r)
       (t_attempt_resume_decisions d)
   \<or> \<not> has_training_run (rd_training_run_id r) d"

definition resume_decisions_record :: "attempt_resume_decision \<Rightarrow> uuid \<Rightarrow> string \<Rightarrow> int \<Rightarrow> bool program" where
  "resume_decisions_record r jid worker_id n =
     insert_select (owns jid worker_id n) (\<lambda>_. False) (decision_violates r)
       (\<lambda>d. d\<lparr>t_attempt_resume_decisions := t_attempt_resume_decisions d @ [r]\<rparr>)"

definition find_resume_decision :: "uuid \<Rightarrow> int \<Rightarrow> db \<Rightarrow> attempt_resume_decision option" where
  "find_resume_decision rid n d =
     sql_one (\<lambda>x. rd_training_run_id x = rid \<and> rd_attempt_number x = n) (t_attempt_resume_decisions d)"

subsection \<open>Evaluation results and metrics\<close>

definition evaluation_results_record :: "evaluation_result \<Rightarrow> uuid \<Rightarrow> string \<Rightarrow> int \<Rightarrow> bool program" where
  "evaluation_results_record r jid worker_id n =
     insert_select (owns jid worker_id n)
       (\<lambda>d. sql_exists (\<lambda>x. ex_evaluation_run_id x = ex_evaluation_run_id r \<and> ex_example_id x = ex_example_id r)
              (t_evaluation_results d))
       (\<lambda>d. \<not> has_evaluation_run (ex_evaluation_run_id r) d)
       (\<lambda>d. d\<lparr>t_evaluation_results := t_evaluation_results d @ [r]\<rparr>)"

definition evaluation_metric_key :: "evaluation_metric \<Rightarrow> uuid \<times> string \<times> string" where
  "evaluation_metric_key m = (em_evaluation_run_id m, em_metric_name m, em_split m)"

definition evaluation_metrics_record :: "evaluation_metric \<Rightarrow> uuid \<Rightarrow> string \<Rightarrow> int \<Rightarrow> bool program" where
  "evaluation_metrics_record m jid worker_id n =
     insert_select (owns jid worker_id n)
       (\<lambda>d. sql_exists (\<lambda>x. evaluation_metric_key x = evaluation_metric_key m) (t_evaluation_metrics d))
       (\<lambda>d. \<not> has_evaluation_run (em_evaluation_run_id m) d)
       (\<lambda>d. d\<lparr>t_evaluation_metrics := t_evaluation_metrics d @ [m]\<rparr>)"

text \<open>\<^verbatim>\<open>metric_map\<close>: the persisted metrics of a run and a split, as a dictionary.\<close>

definition metric_map :: "uuid \<Rightarrow> string \<Rightarrow> db \<Rightarrow> (string \<times> pyfloat) list" where
  "metric_map rid split d =
     map (\<lambda>m. (em_metric_name m, em_metric_value m))
       (sql_select (\<lambda>m. em_evaluation_run_id m = rid \<and> em_split m = split) (t_evaluation_metrics d))"

definition evaluation_results_count :: "uuid \<Rightarrow> db \<Rightarrow> nat" where
  "evaluation_results_count rid d = rowcount (\<lambda>r. ex_evaluation_run_id r = rid) (t_evaluation_results d)"

subsection \<open>The status of an evaluation run\<close>

definition mark_status :: "time \<Rightarrow> uuid \<Rightarrow> job_status \<Rightarrow> bool \<Rightarrow> uuid \<Rightarrow> string \<Rightarrow> int \<Rightarrow> bool program" where
  "mark_status now rid status set_completed jid worker_id n =
     bind (query (owns jid worker_id n)) (\<lambda>go.
     bind (query (\<lambda>d. go \<and> has_evaluation_run rid d)) (\<lambda>hit.
     bind (do_if go (execute (\<lambda>d. d\<lparr>t_evaluation_runs := sql_update (\<lambda>e. er_id e = rid)
             (\<lambda>e. e\<lparr>er_status := status, er_completed_at := if set_completed then Some now else None\<rparr>)
             (t_evaluation_runs d)\<rparr>))) (\<lambda>_.
     bind commit (\<lambda>_. ret hit))))"

subsection \<open>All fenced writes\<close>

datatype fenced_write =
    WCheckpoint checkpoint
  | WTrainingMetric training_metric
  | WOutput training_run_output
  | WResumeDecision attempt_resume_decision
  | WResult evaluation_result
  | WMetric evaluation_metric
  | WStatus time uuid job_status bool

fun perform :: "fenced_write \<Rightarrow> uuid \<Rightarrow> string \<Rightarrow> int \<Rightarrow> bool program" where
  "perform (WCheckpoint c) = checkpoints_register c"
| "perform (WTrainingMetric m) = training_metrics_record m"
| "perform (WOutput out) = outputs_register out"
| "perform (WResumeDecision r) = resume_decisions_record r"
| "perform (WResult r) = evaluation_results_record r"
| "perform (WMetric m) = evaluation_metrics_record m"
| "perform (WStatus now rid status set_completed) = mark_status now rid status set_completed"

subsection \<open>The contract of a fenced writer\<close>

locale fenced_writer =
  fixes wr :: "uuid \<Rightarrow> string \<Rightarrow> int \<Rightarrow> bool program"
  assumes fenced: "\<not> owns jid w n (work s) \<Longrightarrow>
      wr jid w n s = (Inr False, s\<lparr>durable := work s # durable s\<rparr>)"
begin

lemma no_effect:
  assumes "\<not> owns jid w n d"
  shows "result (wr jid w n) d = Inr False" and "set (commits (wr jid w n) d) = {d}"
  using fenced [of jid w n "begin_session d"] assms by (simp_all add: run_defs)

end

lemma insert_select_fenced:
  "\<not> fence (work s) \<Longrightarrow> insert_select fence conflict violates ins s = (Inr False, s\<lparr>durable := work s # durable s\<rparr>)"
  by (simp add: insert_select_def prog_defs)

lemma insert_select_no_effect:
  "\<not> fence d \<Longrightarrow> result (insert_select fence conflict violates ins) d = Inr False"
  by (simp add: result_def insert_select_fenced begin_session_def)

interpretation fw: fenced_writer "perform x" for x
proof unfold_locales
  fix jid :: uuid and w :: string and n :: int and s :: session
  assume "\<not> owns jid w n (work s)"
  then show "perform x jid w n s = (Inr False, s\<lparr>durable := work s # durable s\<rparr>)"
    by (cases x)
       (simp_all add: checkpoints_register_def training_metrics_record_def outputs_register_def
         resume_decisions_record_def evaluation_results_record_def evaluation_metrics_record_def
         insert_select_fenced mark_status_def prog_defs)
qed

end
