(* ===== verification/Evaluation.thy ===== *)
theory Evaluation
  imports FencedRepo Gates Worker "HOL-Library.List_Lexorder" "HOL-Library.Char_ord"
begin

text \<open>
  The evaluation control plane (app/services/evaluations.py and the repositories
  evaluation_configs, evaluation_runs, quality_gates and quality_gate_results): immutable
  configurations and policies, the creation of an evaluation run, the comparison with a baseline
  run, and the application of a quality gate to persisted metrics.  The reads of one request are
  of one state; \<open>others\<close> is what other processes commit before its write.
\<close>

subsection \<open>JSON columns\<close>

text \<open>Stored values are compared as Python compares them, numbers by value and objects as dictionaries.\<close>

function json_eq :: "json \<Rightarrow> json \<Rightarrow> bool"
  and arr_eq :: "json list \<Rightarrow> json list \<Rightarrow> bool"
  and obj_within :: "(string \<times> json) list \<Rightarrow> (string \<times> json) list \<Rightarrow> bool" where
  "json_eq x y =
     (case (x, y) of
        (JNull, JNull) \<Rightarrow> True
      | (JStr s, JStr t) \<Rightarrow> s = t
      | (JArr xs, JArr ys) \<Rightarrow> arr_eq xs ys
      | (JObj kvs, JObj kws) \<Rightarrow> length kvs = length kws \<and> obj_within kvs kws
      | _ \<Rightarrow> (case (json_number x, json_number y) of (Some a, Some b) \<Rightarrow> f_eq a b | _ \<Rightarrow> False))"
| "arr_eq [] ys = (ys = [])"
| "arr_eq (x # xs) [] = False"
| "arr_eq (x # xs) (y # ys) = (json_eq x y \<and> arr_eq xs ys)"
| "obj_within [] kws = True"
| "obj_within (kv # kvs) kws =
     ((case map_of kws (fst kv) of None \<Rightarrow> False | Some w \<Rightarrow> json_eq (snd kv) w) \<and> obj_within kvs kws)"
  by pat_completeness auto
termination
  by (relation "measure (case_sum (\<lambda>p. 2 * size (fst p)) (case_sum (\<lambda>p. 2 * size_list size (fst p) + 1)
        (\<lambda>p. 2 * size_list (size_prod (\<lambda>_. 0) size) (fst p) + 1)))") auto

subsection \<open>Configurations\<close>

record evaluation_config_create =
  gc_task_type :: string
  gc_metric_definitions :: json
  gc_batch_size :: int
  gc_max_examples :: "int option"
  gc_max_sequence_length :: "int option"
  gc_evaluator_code_commit :: string
  gc_container_image :: string
  gc_random_seed :: "int option"

definition new_evaluation_config :: "time \<Rightarrow> uuid \<Rightarrow> evaluation_config_create \<Rightarrow> evaluation_config" where
  "new_evaluation_config now cid p =
     \<lparr>ec_id = cid, ec_task_type = gc_task_type p, ec_metric_definitions = gc_metric_definitions p,
      ec_batch_size = gc_batch_size p, ec_max_examples = gc_max_examples p,
      ec_max_sequence_length = gc_max_sequence_length p,
      ec_evaluator_code_commit = gc_evaluator_code_commit p, ec_container_image = gc_container_image p,
      ec_random_seed = gc_random_seed p, ec_created_at = now\<rparr>"

definition create_evaluation_config :: "time \<Rightarrow> evaluation_config_create \<Rightarrow> evaluation_config program" where
  "create_evaluation_config now p =
     bind (query (\<lambda>d. new_evaluation_config now (fresh_id (map ec_id (t_evaluation_configs d))) p)) (\<lambda>row.
     if \<not> storable (gc_metric_definitions p) then raise DBError
     else bind (execute (\<lambda>d. d\<lparr>t_evaluation_configs := t_evaluation_configs d @ [row]\<rparr>)) (\<lambda>_.
          bind commit (\<lambda>_. ret row)))"

definition find_evaluation_config :: "uuid \<Rightarrow> db \<Rightarrow> evaluation_config option" where
  "find_evaluation_config cid d = sql_one (\<lambda>x. ec_id x = cid) (t_evaluation_configs d)"

definition get_evaluation_config_or_404 :: "uuid \<Rightarrow> evaluation_config program" where
  "get_evaluation_config_or_404 cid =
     bind (query (find_evaluation_config cid)) (\<lambda>found.
     case found of None \<Rightarrow> raise (HTTPException 404) | Some x \<Rightarrow> ret x)"

subsection \<open>Evaluation runs\<close>

definition find_evaluation_run :: "uuid \<Rightarrow> db \<Rightarrow> evaluation_run option" where
  "find_evaluation_run rid d = sql_one (\<lambda>x. er_id x = rid) (t_evaluation_runs d)"

text \<open>A foreign key of two columns is checked when both are set.\<close>

definition evaluation_run_violates :: "evaluation_run \<Rightarrow> db \<Rightarrow> bool" where
  "evaluation_run_violates e d \<longleftrightarrow>
     find_evaluation_config (er_evaluation_config_id e) d = None
   \<or> \<not> sql_exists (\<lambda>j. j_id j = er_job_id e) (t_jobs d)
   \<or> find_model_version (er_model_id e) (er_model_version_number e) d = None
   \<or> find_dataset_version (er_dataset_id e) (er_dataset_version_number e) d = None
   \<or> (case (er_baseline_model_id e, er_baseline_model_version_number e) of
        (Some mid, Some n) \<Rightarrow> find_model_version mid n d = None
      | _ \<Rightarrow> False)"

definition evaluation_runs_create :: "evaluation_run \<Rightarrow> evaluation_run program" where
  "evaluation_runs_create e =
     bind (query (\<lambda>d. e\<lparr>er_id := fresh_id (map er_id (t_evaluation_runs d))\<rparr>)) (\<lambda>row.
     bind (insert_or_fail (evaluation_run_violates row)
             (\<lambda>d. d\<lparr>t_evaluation_runs := t_evaluation_runs d @ [row]\<rparr>)) (\<lambda>_. ret row))"

text \<open>The newest first.  A comparison with a missing version number matches no row.\<close>

definition list_for_model_version :: "uuid \<Rightarrow> int option \<Rightarrow> db \<Rightarrow> evaluation_run list" where
  "list_for_model_version mid n d =
     sort_key (\<lambda>e. - er_created_at e)
       (sql_select (\<lambda>e. er_model_id e = mid \<and> n = Some (er_model_version_number e)) (t_evaluation_runs d))"

record evaluation_create =
  ev_model_id :: uuid
  ev_model_version_number :: int
  ev_dataset_id :: uuid
  ev_dataset_version_number :: int
  ev_evaluation_config_id :: uuid
  ev_baseline_model_id :: "uuid option"
  ev_baseline_model_version_number :: "int option"
  ev_job_type :: string
  ev_priority :: int
  ev_job_config :: "json option"

definition new_evaluation_run :: "time \<Rightarrow> uuid \<Rightarrow> evaluation_config \<Rightarrow> evaluation_create \<Rightarrow> evaluation_run" where
  "new_evaluation_run now job_id config p =
     \<lparr>er_id = 0, er_model_id = ev_model_id p, er_model_version_number = ev_model_version_number p,
      er_dataset_id = ev_dataset_id p, er_dataset_version_number = ev_dataset_version_number p,
      er_evaluation_config_id = ev_evaluation_config_id p, er_job_id = job_id,
      er_baseline_model_id = ev_baseline_model_id p,
      er_baseline_model_version_number = ev_baseline_model_version_number p, er_status = QUEUED,
      er_evaluator_code_commit = ec_evaluator_code_commit config,
      er_container_image = ec_container_image config, er_created_at = now, er_completed_at = None\<rparr>"

definition create_evaluation :: "(db \<Rightarrow> db) \<Rightarrow> time \<Rightarrow> evaluation_create \<Rightarrow> evaluation_run program" where
  "create_evaluation others now p =
     bind (get_evaluation_config_or_404 (ev_evaluation_config_id p)) (\<lambda>config.
     bind (query (find_model_version (ev_model_id p) (ev_model_version_number p))) (\<lambda>model_version.
     case model_version of
       None \<Rightarrow> raise (HTTPException 404)
     | Some mv \<Rightarrow>
         bind (artifacts_get (mv_artifact_id mv)) (\<lambda>artifact.
         if (case artifact of None \<Rightarrow> True | Some a \<Rightarrow> f_status a \<noteq> AUploaded) then raise (HTTPException 409)
         else bind (query (find_dataset_version (ev_dataset_id p) (ev_dataset_version_number p))) (\<lambda>dataset_version.
              if dataset_version = None then raise (HTTPException 404)
              else bind (query (base_version_missing (ev_baseline_model_id p)
                          (ev_baseline_model_version_number p))) (\<lambda>missing.
                   if missing then raise (HTTPException 404)
                   else bind (create_job now \<lparr>jc_job_type = ev_job_type p, jc_config = ev_job_config p,
                                jc_priority = ev_priority p\<rparr>) (\<lambda>j.
                        bind (interfere others) (\<lambda>_.
                        evaluation_runs_create (new_evaluation_run now (j_id j) config p))))))))"

definition get_evaluation_or_404 :: "uuid \<Rightarrow> evaluation_run program" where
  "get_evaluation_or_404 rid =
     bind (query (find_evaluation_run rid)) (\<lambda>found.
     case found of None \<Rightarrow> raise (HTTPException 404) | Some x \<Rightarrow> ret x)"

text \<open>Persisted metrics by split and name, persisted results by example, a page at a time; strings are
  ordered by character codes (the database's collation decides).\<close>

definition evaluation_metrics_list_for_run :: "uuid \<Rightarrow> db \<Rightarrow> evaluation_metric list" where
  "evaluation_metrics_list_for_run rid d =
     sort_key em_split (sort_key em_metric_name
       (sql_select (\<lambda>m. em_evaluation_run_id m = rid) (t_evaluation_metrics d)))"

definition list_metrics :: "uuid \<Rightarrow> evaluation_metric list program" where
  "list_metrics rid = bind (get_evaluation_or_404 rid) (\<lambda>_. query (evaluation_metrics_list_for_run rid))"

definition evaluation_results_list_for_run :: "uuid \<Rightarrow> nat \<Rightarrow> nat \<Rightarrow> db \<Rightarrow> evaluation_result list \<times> nat" where
  "evaluation_results_list_for_run rid limit offset d =
     (let base = sql_select (\<lambda>r. ex_evaluation_run_id r = rid) (t_evaluation_results d)
      in (take limit (drop offset (sort_key ex_example_id base)), length base))"

definition list_results :: "uuid \<Rightarrow> nat \<Rightarrow> nat \<Rightarrow> (evaluation_result list \<times> nat) program" where
  "list_results rid limit offset =
     bind (get_evaluation_or_404 rid) (\<lambda>_. query (evaluation_results_list_for_run rid limit offset))"

subsection \<open>Comparison with a baseline\<close>

definition config_compatible :: "uuid \<Rightarrow> uuid \<Rightarrow> db \<Rightarrow> bool" where
  "config_compatible candidate_id baseline_id d \<longleftrightarrow>
     candidate_id = baseline_id
   \<or> (case (find_evaluation_config candidate_id d, find_evaluation_config baseline_id d) of
        (Some cand, Some base) \<Rightarrow> ec_task_type cand = ec_task_type base
          \<and> json_eq (ec_metric_definitions cand) (ec_metric_definitions base)
      | _ \<Rightarrow> False)"

definition comparable :: "evaluation_run \<Rightarrow> db \<Rightarrow> evaluation_run \<Rightarrow> bool" where
  "comparable run d base_run \<longleftrightarrow>
     er_dataset_id base_run = er_dataset_id run
   \<and> er_dataset_version_number base_run = er_dataset_version_number run
   \<and> config_compatible (er_evaluation_config_id run) (er_evaluation_config_id base_run) d"

text \<open>The metrics of the newest comparable SUCCEEDED run of the baseline version.\<close>

definition resolve_baseline_metrics ::
  "evaluation_run \<Rightarrow> bool \<Rightarrow> db \<Rightarrow> exn + (string \<times> pyfloat) list option" where
  "resolve_baseline_metrics run strict d =
     (case er_baseline_model_id run of
        None \<Rightarrow> Inr None
      | Some mid \<Rightarrow>
          (let completed = filter (\<lambda>c. er_status c = SUCCEEDED)
                 (list_for_model_version mid (er_baseline_model_version_number run) d)
           in if completed = [] then (if strict then Inl (HTTPException 409) else Inr None)
              else case find (comparable run d) completed of
                Some base_run \<Rightarrow> Inr (Some (metric_map (er_id base_run) ''all'' d))
              | None \<Rightarrow> if strict then Inl (HTTPException 409) else Inr None))"

record baseline_comparison =
  bc_baseline_model_id :: "uuid option"
  bc_baseline_model_version_number :: "int option"
  bc_candidate_metrics :: "(string \<times> pyfloat) list"
  bc_baseline_metrics :: "(string \<times> pyfloat) list"
  bc_deltas :: "(string \<times> pyfloat) list"

definition metric_deltas :: "(string \<times> pyfloat) list \<Rightarrow> (string \<times> pyfloat) list \<Rightarrow> (string \<times> pyfloat) list" where
  "metric_deltas candidate baseline =
     map (\<lambda>(name, c). (name, f_sub c (the (map_of baseline name))))
       (filter (\<lambda>(name, c). map_of baseline name \<noteq> None) candidate)"

definition compute_baseline_deltas :: "evaluation_run \<Rightarrow> db \<Rightarrow> exn + baseline_comparison option" where
  "compute_baseline_deltas run d =
     (case resolve_baseline_metrics run True d of
        Inl e \<Rightarrow> Inl e
      | Inr None \<Rightarrow> Inr None
      | Inr (Some baseline) \<Rightarrow>
          (let candidate = metric_map (er_id run) ''all'' d
           in Inr (Some \<lparr>bc_baseline_model_id = er_baseline_model_id run,
                bc_baseline_model_version_number = er_baseline_model_version_number run,
                bc_candidate_metrics = candidate, bc_baseline_metrics = baseline,
                bc_deltas = metric_deltas candidate baseline\<rparr>)))"

subsection \<open>Quality gates\<close>

definition create_quality_gate :: "time \<Rightarrow> string \<Rightarrow> json \<Rightarrow> quality_gate program" where
  "create_quality_gate now name rules =
     bind (query (\<lambda>d. \<lparr>qg_id = fresh_id (map qg_id (t_quality_gates d)), qg_name = name,
                       qg_rules = rules, qg_created_at = now\<rparr>)) (\<lambda>row.
     if \<not> storable rules then raise DBError
     else bind (execute (\<lambda>d. d\<lparr>t_quality_gates := t_quality_gates d @ [row]\<rparr>)) (\<lambda>_.
          bind commit (\<lambda>_. ret row)))"

definition find_quality_gate :: "uuid \<Rightarrow> db \<Rightarrow> quality_gate option" where
  "find_quality_gate gid d = sql_one (\<lambda>x. qg_id x = gid) (t_quality_gates d)"

definition get_quality_gate_or_404 :: "uuid \<Rightarrow> quality_gate program" where
  "get_quality_gate_or_404 gid =
     bind (query (find_quality_gate gid)) (\<lambda>found.
     case found of None \<Rightarrow> raise (HTTPException 404) | Some x \<Rightarrow> ret x)"

definition find_gate_result :: "uuid \<Rightarrow> uuid \<Rightarrow> db \<Rightarrow> quality_gate_result option" where
  "find_gate_result rid gid d =
     sql_one (\<lambda>x. qr_evaluation_run_id x = rid \<and> qr_quality_gate_id x = gid) (t_quality_gate_results d)"

definition run_succeeded :: "uuid \<Rightarrow> db \<Rightarrow> bool" where
  "run_succeeded rid d \<longleftrightarrow> sql_exists (\<lambda>e. er_id e = rid \<and> er_status e = SUCCEEDED) (t_evaluation_runs d)"

text \<open>Recording: the cast to JSONB is evaluated whether or not the row is inserted.\<close>

definition gate_results_record :: "time \<Rightarrow> uuid \<Rightarrow> uuid \<Rightarrow> gate_status \<Rightarrow> json list \<Rightarrow> bool program" where
  "gate_results_record now rid gid status rule_results =
     (if \<not> storable (JArr rule_results) then raise DBError
      else insert_select (run_succeeded rid) (\<lambda>d. find_gate_result rid gid d \<noteq> None)
             (\<lambda>d. find_quality_gate gid d = None)
             (\<lambda>d. d\<lparr>t_quality_gate_results := t_quality_gate_results d @
                [\<lparr>qr_id = fresh_id (map qr_id (t_quality_gate_results d)), qr_evaluation_run_id = rid,
                  qr_quality_gate_id = gid, qr_status = status, qr_rule_results = JArr rule_results,
                  qr_evaluated_at = now\<rparr>]\<rparr>))"

definition gate_results_list_for_run :: "uuid \<Rightarrow> db \<Rightarrow> quality_gate_result list" where
  "gate_results_list_for_run rid d =
     sort_key (\<lambda>r. - qr_evaluated_at r) (sql_select (\<lambda>r. qr_evaluation_run_id r = rid) (t_quality_gate_results d))"

definition list_quality_gate_results :: "uuid \<Rightarrow> quality_gate_result list program" where
  "list_quality_gate_results rid =
     bind (get_evaluation_or_404 rid) (\<lambda>_. query (gate_results_list_for_run rid))"

definition metric_values_of :: "(string \<times> pyfloat) list \<Rightarrow> metric_values" where
  "metric_values_of m name = map_option Some (map_of m name)"

text \<open>The write is the authority: what it finds recorded afterwards is the answer.\<close>

definition record_verdict ::
  "(db \<Rightarrow> db) \<Rightarrow> time \<Rightarrow> uuid \<Rightarrow> uuid \<Rightarrow> gate_status \<Rightarrow> json list \<Rightarrow> (quality_gate_result \<times> bool) program" where
  "record_verdict others now rid gid status rule_results =
     bind (interfere others) (\<lambda>_.
     bind (gate_results_record now rid gid status rule_results) (\<lambda>inserted.
     bind (query (find_gate_result rid gid)) (\<lambda>existing.
     case existing of
       None \<Rightarrow> raise (HTTPException 409)
     | Some row \<Rightarrow> ret (row, inserted))))"

definition evaluate_quality_gate ::
  "(db \<Rightarrow> db) \<Rightarrow> time \<Rightarrow> uuid \<Rightarrow> uuid \<Rightarrow> (quality_gate_result \<times> bool) program" where
  "evaluate_quality_gate others now rid gid =
     bind (get_evaluation_or_404 rid) (\<lambda>run.
     bind (get_quality_gate_or_404 gid) (\<lambda>gate.
     if er_status run \<noteq> SUCCEEDED then raise (HTTPException 409)
     else bind (query (metric_map (er_id run) ''all'')) (\<lambda>metrics.
          bind (query_checked (resolve_baseline_metrics run False)) (\<lambda>baseline.
          case gate_evaluate (qg_rules gate) (metric_values_of metrics) (map_option metric_values_of baseline) of
            Inl e \<Rightarrow> raise e
          | Inr (status, rule_results) \<Rightarrow>
              record_verdict others now (er_id run) (qg_id gate) status rule_results))))"

end
