(* ===== verification/JobFrame.thy ===== *)
theory JobFrame
  imports Services
begin

text \<open>
  What the job transactions leave alone.  They write the tables of jobs, attempts, reservations,
  capacity, the outbox, the dead-letter queue and the scheduling decisions, and they never drop a
  job's identifier; so an invariant of the other tables that only asks for jobs to exist is kept by
  every one of them.  The locale turns that one law into the whole contract \<open>repository_laws\<close>.
\<close>

definition same_outside :: "db \<Rightarrow> db \<Rightarrow> bool" where
  "same_outside d d' \<longleftrightarrow> t_artifacts d' = t_artifacts d
   \<and> t_datasets d' = t_datasets d \<and> t_dataset_versions d' = t_dataset_versions d
   \<and> t_models d' = t_models d \<and> t_model_versions d' = t_model_versions d
   \<and> t_training_runs d' = t_training_runs d \<and> t_checkpoints d' = t_checkpoints d
   \<and> t_training_metrics d' = t_training_metrics d \<and> t_training_run_outputs d' = t_training_run_outputs d
   \<and> t_attempt_resume_decisions d' = t_attempt_resume_decisions d
   \<and> t_evaluation_configs d' = t_evaluation_configs d \<and> t_evaluation_runs d' = t_evaluation_runs d
   \<and> t_evaluation_results d' = t_evaluation_results d \<and> t_evaluation_metrics d' = t_evaluation_metrics d
   \<and> t_quality_gates d' = t_quality_gates d \<and> t_quality_gate_results d' = t_quality_gate_results d"

locale job_frame =
  fixes J :: "db \<Rightarrow> bool"
  assumes frame: "\<And>d d'. J d \<Longrightarrow> same_outside d d' \<Longrightarrow> j_id ` set (t_jobs d) \<subseteq> j_id ` set (t_jobs d') \<Longrightarrow> J d'"
begin

lemma frame_execute:
  "(\<And>d. same_outside d (f d) \<and> t_jobs (f d) = t_jobs d) \<Longrightarrow>
   keeps J (execute f)"
  by (rule keeps_execute) (erule frame, simp_all)

lemma frame_update_jobs:
  assumes "\<And>d j. p d j \<Longrightarrow> j_id (f j) = j_id j"
  shows "keeps J (update_jobs p f)"
proof -
  have "J (d\<lparr>t_jobs := sql_update (p d) f (t_jobs d)\<rparr>)" if "J d" for d
  proof (rule frame [OF that])
    have "map j_id (sql_update (p d) f (t_jobs d)) = map j_id (t_jobs d)"
      using assms by (rule map_sql_update_key)
    then show "j_id ` set (t_jobs d) \<subseteq> j_id ` set (t_jobs (d\<lparr>t_jobs := sql_update (p d) f (t_jobs d)\<rparr>))"
      by (simp flip: set_map)
  qed (simp add: same_outside_def)
  then show ?thesis by (simp add: keeps_def kept_def durable_ok_def update_jobs_def)
qed

lemma frame_create:
  "durable_ok J s \<Longrightarrow> J (work s) \<Longrightarrow>
   kept J (jobs_create_and_enqueue j QUEUED s)"
proof -
  assume s: "durable_ok J s" "J (work s)"
  have app: "J (d\<lparr>t_jobs := t_jobs d @ [j]\<rparr>)" if "J d" for d
    using that by (rule frame) (auto simp: same_outside_def)
  have "keeps J (jobs_create_and_enqueue j QUEUED)"
    unfolding jobs_create_and_enqueue_def
    by (intro keeps_intros keeps_execute app frame_update_jobs) simp_all
  from keepsD [OF this s] show ?thesis .
qed

lemma frame_jobs_repo:
  "keeps J (jobs_conditional_transition jid vf st id c)"
  "keeps J (jobs_set_cancel_requested jid)"
  "keeps J (jobs_claim now jid w ls)"
  "keeps J (jobs_heartbeat now jid w n ls)"
  "keeps J (jobs_finalize_attempt jid w n st id c)"
  "keeps J (jobs_finalize_attempt jid w n QUEUED (\<lambda>j. j\<lparr>j_next_retry_at := Some t\<rparr>) c)"
  "keeps J (jobs_reclaim_stale now jid ma t c)"
  "keeps J (jobs_clear_retry_dispatched jid)"
  "keeps J (jobs_update j (\<lambda>r. r\<lparr>j_config := Some cc\<rparr>))"
  "keeps J (jobs_soft_delete now j)"
  unfolding jobs_get_def jobs_conditional_transition_def jobs_set_cancel_requested_def jobs_claim_def
    jobs_heartbeat_def jobs_finalize_attempt_def jobs_reclaim_stale_def jobs_clear_retry_dispatched_def
    jobs_update_def jobs_soft_delete_def
  by (intro keeps_intros frame_update_jobs;
      simp add: claim_set_def finalize_set_def reclaim_set_def)+

lemma frame_history:
  "keeps J (release_reservation now jid n)"
  "keeps J (attempts_insert now jid n w)"
  "keeps J (attempts_finalize now jid n ast em ec fd c)"
  "keeps J (attempts_mark_lost now jid n w c)"
  "keeps J (dlq_insert now jid n em cls k c)"
  "keeps J (outbox_insert_event now jid et)"
  "keeps J (outbox_mark_published now oid)"
  "keeps J (decisions_insert row)"
  unfolding release_reservation_def reservations_release_def capacity_release_def
    attempts_insert_def attempts_finalize_def attempts_mark_lost_def dlq_insert_def
    outbox_insert_event_def outbox_mark_published_def decisions_insert_def Let_def
  by (intro keeps_intros frame_execute; simp add: same_outside_def)+

lemma frame_reserve:
  assumes "durable_ok J s" and "J (work s)"
    and "\<And>a. keeps J (f a)"
  shows "kept J
    (bind (reserve_or_reject cpu mem gpu) (\<lambda>_. bind (reservations_insert now jid n cpu mem gpu) f) s)"
proof -
  have "keeps J
    (bind (reserve_or_reject cpu mem gpu) (\<lambda>_. bind (reservations_insert now jid n cpu mem gpu) f))"
    unfolding reserve_or_reject_def capacity_try_reserve_def capacity_get_def reservations_insert_def Let_def
    by (intro keeps_intros frame_execute assms(3)) (simp_all add: same_outside_def)
  with assms(1,2) show ?thesis by (rule keepsD [rotated 1])
qed

end

sublocale job_frame \<subseteq> repository_laws J
  by unfold_locales
    (simp_all add: frame_create frame_jobs_repo frame_history frame_reserve keepsD)

end
