(* ===== verification/RegistryLaws.thy ===== *)
theory RegistryLaws
  imports Registry JobFrame
begin

text \<open>
  The registry's guarantees.  The locale \<open>versioned\<close> is the discipline the two version tables
  share: rows owned by a parent, numbered by the maximum plus one.  The locale
  \<open>artifact_frame\<close> is what the uploads and the reconciler promise to the other tables.  Both
  carry the invariant \<open>registry_ok\<close> (keys unique, version numbers 1 to n without a gap,
  every reference resolved, only UPLOADED artifacts registered) through every registry
  operation, under races for the next version number included, and \<open>registry_later\<close>: no
  registered row is ever changed or removed.
\<close>

subsection \<open>Version tables\<close>

definition numbers :: "('v \<Rightarrow> uuid) \<Rightarrow> ('v \<Rightarrow> int) \<Rightarrow> uuid \<Rightarrow> 'v list \<Rightarrow> int list" where
  "numbers owner number p t = map number (filter (\<lambda>v. owner v = p) t)"

definition contiguous :: "('v \<Rightarrow> uuid) \<Rightarrow> ('v \<Rightarrow> int) \<Rightarrow> 'v list \<Rightarrow> bool" where
  "contiguous owner number t \<longleftrightarrow>
     (\<forall>p. distinct (numbers owner number p t)
        \<and> set (numbers owner number p t) = {1..int (length (numbers owner number p t))})"

lemma foldr_max: "foldr max ns (n::int) = Max (set (n # ns))"
  by (induction ns) (auto simp: insert_commute max.left_commute max_def)

lemma next_number_Max: "next_number ns = (if ns = [] then 1 else Max (set ns) + 1)"
  by (cases ns) (simp_all add: next_number_def max_or_none_def foldr_max del: list.set)

lemma next_of_range: "set ns = {1..int (length ns)} \<Longrightarrow> next_number ns = int (length ns) + 1"
proof (cases "ns = []")
  case False
  then have "1 \<le> int (length ns)" by (cases ns) simp_all
  then have "Max {1..int (length ns)} = int (length ns)" by (intro Max_eqI) simp_all
  moreover assume "set ns = {1..int (length ns)}"
  ultimately show ?thesis using False by (simp add: next_number_Max)
qed (simp add: next_number_Max)

locale versioned =
  fixes owner :: "'v \<Rightarrow> uuid" and number :: "'v \<Rightarrow> int"
begin

lemma numbers_snoc:
  "numbers owner number p (t @ [v]) = numbers owner number p t @ (if owner v = p then [number v] else [])"
  by (simp add: numbers_def)

lemma next_is_count:
  "contiguous owner number t \<Longrightarrow> next_number (numbers owner number p t) = int (length (numbers owner number p t)) + 1"
  by (simp add: contiguous_def next_of_range)

lemma append_next:
  assumes "contiguous owner number t" and "number v = next_number (numbers owner number (owner v) t)"
  shows "contiguous owner number (t @ [v])"
proof -
  have "{1..int k + 1} = insert (int k + 1) {1..int k}" for k by auto
  then show ?thesis
    using assms(1) assms(2) next_is_count [OF assms(1)]
    by (auto simp: contiguous_def numbers_snoc add.commute)
qed

text \<open>A number read earlier is at most the next one; if it is still unused it is the next one.\<close>

lemma stale_number:
  assumes "contiguous owner number t" and "1 \<le> n" and "n \<le> next_number (numbers owner number p t)"
    and "n \<notin> set (numbers owner number p t)"
  shows "n = next_number (numbers owner number p t)"
  using assms next_is_count [OF assms(1), of p] by (fastforce simp: contiguous_def)

lemma next_mono:
  assumes "contiguous owner number t" and "contiguous owner number t'" and "set t \<subseteq> set t'"
  shows "next_number (numbers owner number p t) \<le> next_number (numbers owner number p t')"
proof -
  have "set (numbers owner number p t) \<subseteq> set (numbers owner number p t')"
    using assms(3) by (auto simp: numbers_def)
  moreover have "distinct (numbers owner number p t)" "distinct (numbers owner number p t')"
    using assms by (simp_all add: contiguous_def)
  ultimately have "length (numbers owner number p t) \<le> length (numbers owner number p t')"
    by (metis card_mono distinct_card finite_set)
  then show ?thesis using next_is_count [OF assms(1)] next_is_count [OF assms(2)] by simp
qed

lemma row_of_number:
  assumes "contiguous owner number t" and "v \<in> set t" and "w \<in> set t"
    and "owner v = owner w" and "number v = number w"
  shows "v = w"
  using assms(1) unfolding contiguous_def numbers_def
  by (rule allE [of _ "owner w"]) (use assms in \<open>auto simp: distinct_map inj_on_def\<close>)

end

interpretation dv: versioned dv_dataset_id dv_version_number .

interpretation mv: versioned mv_model_id mv_version_number .

lemma dataset_numbers_eq: "dataset_numbers p d = numbers dv_dataset_id dv_version_number p (t_dataset_versions d)"
  by (simp add: dataset_numbers_def numbers_def sql_select_def)

lemma model_numbers_eq: "model_numbers p d = numbers mv_model_id mv_version_number p (t_model_versions d)"
  by (simp add: model_numbers_def numbers_def sql_select_def)

subsection \<open>What artifact operations leave alone\<close>

lemma marked_row:
  assumes r: "r \<in> set t" "holds_upload aid u r"
    and row: "sql_one (\<lambda>a. f_id a = aid) (sql_update (holds_upload aid u) (uploaded_set now n) t) = Some a"
    and ids: "distinct (map f_id (sql_update (holds_upload aid u) (uploaded_set now n) t))"
  shows "f_status a = AUploaded"
proof -
  from r have "uploaded_set now n r \<in> set (sql_update (holds_upload aid u) (uploaded_set now n) t)"
    by (auto simp: in_sql_update_iff)
  moreover have "f_id (uploaded_set now n r) = aid" using r(2) by (simp add: holds_upload_def uploaded_set_def)
  moreover have "a \<in> set (sql_update (holds_upload aid u) (uploaded_set now n) t)" "f_id a = aid"
    using sql_one_SomeD [OF row] by auto
  ultimately have "a = uploaded_set now n r" using distinct_map_eqD [OF ids] by metis
  then show ?thesis by (simp add: uploaded_set_def)
qed

locale artifact_frame =
  fixes J :: "db \<Rightarrow> bool"
  assumes update: "\<And>p f d. J d \<Longrightarrow> (\<And>a. p a \<Longrightarrow> f_status a = APending) \<Longrightarrow> (\<And>a. f_id (f a) = f_id a) \<Longrightarrow>
      J (d\<lparr>t_artifacts := sql_update p f (t_artifacts d)\<rparr>)"
    and append: "\<And>d a. J d \<Longrightarrow> f_id a \<notin> f_id ` set (t_artifacts d) \<Longrightarrow>
      J (d\<lparr>t_artifacts := t_artifacts d @ [a]\<rparr>)"
begin

lemma artifact_update:
  "(\<And>a. p a \<Longrightarrow> f_status a = APending) \<Longrightarrow> (\<And>a. f_id (f a) = f_id a) \<Longrightarrow> keeps J (artifact_update aid p f)"
  unfolding artifact_update_def artifacts_get_def
  by (intro keeps_intros)
     (simp add: keeps_def kept_def update_artifacts_def durable_ok_def update)

lemma create_pending: "keeps J (artifacts_create_pending now h ty job att)"
proof -
  have new: "\<forall>x \<in> set t. f_id x \<noteq> fresh_id (map f_id t)" for t
    using fresh_id_not_in [of "map f_id t"] by (auto simp: image_iff)
  show ?thesis
    unfolding artifacts_create_pending_def
    by (auto simp: keeps_def kept_def durable_ok_def prog_defs intro!: append dest: new [rule_format])
qed

lemma claim_upload: "keeps J (claim_upload_lease now aid u secs)"
  unfolding claim_upload_lease_def
  by (rule artifact_update) (auto simp: upload_claim_where_def upload_claim_set_def)

lemma mark_uploaded: "keeps J (mark_uploaded now aid u n)"
  unfolding mark_uploaded_def by (rule artifact_update) (auto simp: holds_upload_def uploaded_set_def)

lemma reconcile_one: "keeps J (reconcile_one hb go now a)"
proof -
  have "keeps J (reconcile_to_uploaded now aid n)" "keeps J (reconcile_to_failed aid)" for aid n
    unfolding reconcile_to_uploaded_def reconcile_to_failed_def
    by (rule artifact_update; auto simp: reconcile_where_def uploaded_set_def failed_set_def)+
  then show ?thesis
    unfolding reconcile_one_def object_exists_with_hash_def object_size_def
    by (auto intro!: keeps_intros split: sum.splits exn.splits)
qed

lemma reconcile: "keeps J (reconcile_pending_artifacts cfg hb go now)"
proof -
  have "keeps J (reconcile_loop hb go now as h f)" for as h f
    by (induction as arbitrary: h f) (auto intro!: keeps_intros reconcile_one split: prod.splits)
  then show ?thesis unfolding reconcile_pending_artifacts_def by (intro keeps_intros)
qed

text \<open>An upload returns a row of the table as it is when it returns, and that row is UPLOADED.\<close>

lemma upload_row:
  assumes "\<And>d. J d \<Longrightarrow> J (others d)"
  shows "triple J J (upload_artifact cfg hb put go others now later data ty u job att)
     (\<lambda>a d. J d \<and> a \<in> set (t_artifacts d) \<and> (distinct (map f_id (t_artifacts d)) \<longrightarrow> f_status a = AUploaded))"
proof -
  let ?Q = "\<lambda>a d. J d \<and> a \<in> set (t_artifacts d) \<and> (distinct (map f_id (t_artifacts d)) \<longrightarrow> f_status a = AUploaded)"
  have get: "triple J J (artifacts_get_by_hash h) (\<lambda>r d. J d \<and> (\<forall>a. r = Some a \<longrightarrow> a \<in> set (t_artifacts d)))" for h
    unfolding artifacts_get_by_hash_def find_by_hash_def by (rule triple_query) (auto dest: sql_one_SomeD)
  have row: "triple J J (case existing of Some a \<Rightarrow> ret a | None \<Rightarrow> artifacts_create_pending now h ty job att) (\<lambda>_. J)"
    for existing h
    unfolding triple_keeps by (cases existing) (auto intro: create_pending keeps_ret)
  have others: "keeps J (interfere others)"
    using assms by (simp add: keeps_def kept_def interfere_def durable_ok_def)
  have put: "keeps J (storage_upload put k data)" for k
    unfolding storage_upload_def by (intro keeps_intros)
  have check: "keeps J (object_exists_with_hash hb go k h)" for k h
    unfolding object_exists_with_hash_def by (auto intro!: keeps_intros split: sum.splits exn.splits)
  have mark: "triple J J (mark_uploaded now' aid u n) (\<lambda>r d. \<forall>a. r = Some a \<longrightarrow> ?Q a d)" for now' aid n
    using mark_uploaded [of now' aid u n]
    unfolding mark_uploaded_def artifact_update_def artifacts_get_def find_artifact_def
    by (auto simp: triple_def keeps_def kept_def bind_def commit_def query_def ret_def update_artifacts_def
        dest: sql_one_SomeD intro: marked_row split: if_splits)
  have found: "triple J (\<lambda>d. \<forall>a. r = Some a \<longrightarrow> ?Q a d)
      (case r of None \<Rightarrow> raise (HTTPException 409) | Some a \<Rightarrow> ret a) ?Q" for r
    by (cases r) (auto intro: triple_raise triple_ret)
  have finish: "triple J J (finish_upload hb go later data u c) ?Q" for c
    unfolding finish_upload_def
    by (rule triple_bind [of J J _ "\<lambda>_. J"], simp add: triple_keeps check, rule triple_if, rule triple_raise,
        rule triple_bind [OF mark found])
  have rest: "triple J J (bind (storage_upload put k data) (\<lambda>_.
      bind (interfere others) (\<lambda>_. finish_upload hb go later data u c))) ?Q" for k c
    by (rule triple_bind [OF put [unfolded triple_keeps [symmetric]]
          triple_bind [OF others [unfolded triple_keeps [symmetric]] finish]])
  have claimed: "triple J J (case r of None \<Rightarrow> raise (HTTPException 409) | Some c \<Rightarrow>
      bind (storage_upload put (f_storage_key c) data) (\<lambda>_.
      bind (interfere others) (\<lambda>_. finish_upload hb go later data u c))) ?Q" for r
    by (cases r) (auto intro: triple_raise rest)
  show ?thesis
    unfolding upload_artifact_def
  proof (rule triple_bind [OF get], rule triple_if)
    fix existing :: "artifact option"
    assume "case existing of None \<Rightarrow> False | Some a \<Rightarrow> f_status a = AUploaded"
    then show "triple J (\<lambda>d. J d \<and> (\<forall>a. existing = Some a \<longrightarrow> a \<in> set (t_artifacts d))) (ret (the existing)) ?Q"
      by (cases existing) (auto intro!: triple_ret)
  next
    fix existing :: "artifact option"
    show "triple J (\<lambda>d. J d \<and> (\<forall>a. existing = Some a \<longrightarrow> a \<in> set (t_artifacts d)))
      (bind (case existing of Some a \<Rightarrow> ret a | None \<Rightarrow> artifacts_create_pending now (hb data) ty job att) (\<lambda>artifact.
        bind (claim_upload_lease now (f_id artifact) u (upload_lease_duration_seconds cfg)) (\<lambda>claimed.
        case claimed of None \<Rightarrow> raise (HTTPException 409) | Some c \<Rightarrow>
          bind (storage_upload put (f_storage_key c) data) (\<lambda>_.
          bind (interfere others) (\<lambda>_. finish_upload hb go later data u c))))) ?Q"
      by (rule triple_weaken [OF triple_bind [OF row triple_bind
            [OF claim_upload [unfolded triple_keeps [symmetric]] claimed]]]) auto
  qed
qed

lemma upload:
  assumes "\<And>d. J d \<Longrightarrow> J (others d)"
  shows "triple J J (upload_artifact cfg hb put go others now later data ty u job att)
     (\<lambda>a d. J d \<and> a \<in> set (t_artifacts d))"
  by (rule triple_weaken [OF upload_row [OF assms]]) simp_all

end

subsection \<open>The registry invariant\<close>

definition has_dataset_version :: "uuid \<Rightarrow> int \<Rightarrow> db \<Rightarrow> bool" where
  "has_dataset_version p n d \<longleftrightarrow> (\<exists>v \<in> set (t_dataset_versions d). dv_dataset_id v = p \<and> dv_version_number v = n)"

definition has_model_version :: "uuid \<Rightarrow> int \<Rightarrow> db \<Rightarrow> bool" where
  "has_model_version p n d \<longleftrightarrow> (\<exists>v \<in> set (t_model_versions d). mv_model_id v = p \<and> mv_version_number v = n)"

definition dataset_version_ok :: "db \<Rightarrow> dataset_version \<Rightarrow> bool" where
  "dataset_version_ok d v \<longleftrightarrow> dv_dataset_id v \<in> ds_id ` set (t_datasets d) \<and> uploaded_id (dv_artifact_id v) d"

definition model_version_ok :: "db \<Rightarrow> model_version \<Rightarrow> bool" where
  "model_version_ok d v \<longleftrightarrow> mv_model_id v \<in> m_id ` set (t_models d) \<and> uploaded_id (mv_artifact_id v) d
   \<and> (\<forall>r. mv_training_run_id v = Some r \<longrightarrow> r \<in> tr_id ` set (t_training_runs d))"

definition training_run_ok :: "db \<Rightarrow> training_run \<Rightarrow> bool" where
  "training_run_ok d t \<longleftrightarrow> tr_job_id t \<in> j_id ` set (t_jobs d)
   \<and> has_dataset_version (tr_dataset_id t) (tr_dataset_version_number t) d
   \<and> (\<forall>m. tr_base_model_id t = Some m \<longrightarrow>
        (\<exists>n. tr_base_model_version_number t = Some n \<and> has_model_version m n d))"

definition registry_ok :: "db \<Rightarrow> bool" where
  "registry_ok d \<longleftrightarrow>
     distinct (map f_id (t_artifacts d))
   \<and> distinct (map ds_id (t_datasets d)) \<and> distinct (map ds_name (t_datasets d))
   \<and> distinct (map m_id (t_models d)) \<and> distinct (map m_name (t_models d))
   \<and> distinct (map mv_artifact_id (t_model_versions d)) \<and> distinct (map tr_id (t_training_runs d))
   \<and> contiguous dv_dataset_id dv_version_number (t_dataset_versions d)
   \<and> contiguous mv_model_id mv_version_number (t_model_versions d)
   \<and> (\<forall>v \<in> set (t_dataset_versions d). dataset_version_ok d v)
   \<and> (\<forall>v \<in> set (t_model_versions d). model_version_ok d v)
   \<and> (\<forall>t \<in> set (t_training_runs d). training_run_ok d t)"

text \<open>Registered rows and uploaded artifacts stay as they are; jobs keep their identifiers.\<close>

definition registry_later :: "db \<Rightarrow> db \<Rightarrow> bool" where
  "registry_later d0 d \<longleftrightarrow>
     set (t_datasets d0) \<subseteq> set (t_datasets d) \<and> set (t_dataset_versions d0) \<subseteq> set (t_dataset_versions d)
   \<and> set (t_models d0) \<subseteq> set (t_models d) \<and> set (t_model_versions d0) \<subseteq> set (t_model_versions d)
   \<and> set (t_training_runs d0) \<subseteq> set (t_training_runs d)
   \<and> {a \<in> set (t_artifacts d0). f_status a = AUploaded} \<subseteq> {a \<in> set (t_artifacts d). f_status a = AUploaded}
   \<and> j_id ` set (t_jobs d0) \<subseteq> j_id ` set (t_jobs d)"

definition registry_inv :: "db \<Rightarrow> db \<Rightarrow> bool" where
  "registry_inv d0 d \<longleftrightarrow> registry_ok d \<and> registry_later d0 d"

definition keeps_registry :: "(db \<Rightarrow> db) \<Rightarrow> bool" where
  "keeps_registry others \<longleftrightarrow> (\<forall>d. registry_ok d \<longrightarrow> registry_inv d (others d))"

lemma registry_later_refl [simp]: "registry_later d d"
  by (simp add: registry_later_def)

lemma registry_later_trans: "registry_later d d' \<Longrightarrow> registry_later d' d'' \<Longrightarrow> registry_later d d''"
  unfolding registry_later_def by (meson subset_trans)

lemma registry_others: "keeps_registry others \<Longrightarrow> registry_inv d0 d \<Longrightarrow> registry_inv d0 (others d)"
  by (auto simp: keeps_registry_def registry_inv_def intro: registry_later_trans)

text \<open>The references of a row survive any later state.\<close>

lemma uploaded_later: "registry_later d d' \<Longrightarrow> uploaded_id aid d \<Longrightarrow> uploaded_id aid d'"
  unfolding registry_later_def uploaded_id_def by blast

lemma versions_later:
  "registry_later d d' \<Longrightarrow> has_dataset_version p n d \<Longrightarrow> has_dataset_version p n d'"
  "registry_later d d' \<Longrightarrow> has_model_version p n d \<Longrightarrow> has_model_version p n d'"
  unfolding registry_later_def has_dataset_version_def has_model_version_def by blast+

lemma keys_later:
  assumes "registry_later d d'"
  shows "x \<in> ds_id ` set (t_datasets d) \<Longrightarrow> x \<in> ds_id ` set (t_datasets d')"
    and "x \<in> m_id ` set (t_models d) \<Longrightarrow> x \<in> m_id ` set (t_models d')"
    and "x \<in> tr_id ` set (t_training_runs d) \<Longrightarrow> x \<in> tr_id ` set (t_training_runs d')"
    and "x \<in> j_id ` set (t_jobs d) \<Longrightarrow> x \<in> j_id ` set (t_jobs d')"
  using assms unfolding registry_later_def by blast+

lemma rows_later:
  assumes "registry_later d d'"
  shows "dataset_version_ok d v \<Longrightarrow> dataset_version_ok d' v"
    and "model_version_ok d w \<Longrightarrow> model_version_ok d' w"
    and "training_run_ok d t \<Longrightarrow> training_run_ok d' t"
proof -
  note later = keys_later [OF assms] uploaded_later [OF assms] versions_later [OF assms]
  show "dataset_version_ok d v \<Longrightarrow> dataset_version_ok d' v"
    unfolding dataset_version_ok_def by (meson later)
  show "model_version_ok d w \<Longrightarrow> model_version_ok d' w"
    unfolding model_version_ok_def by (meson later)
  show "training_run_ok d t \<Longrightarrow> training_run_ok d' t"
    unfolding training_run_ok_def by (meson later)
qed

text \<open>The unique keys, apart from the references.\<close>

definition registry_keys :: "db \<Rightarrow> bool" where
  "registry_keys d \<longleftrightarrow>
     distinct (map f_id (t_artifacts d))
   \<and> distinct (map ds_id (t_datasets d)) \<and> distinct (map ds_name (t_datasets d))
   \<and> distinct (map m_id (t_models d)) \<and> distinct (map m_name (t_models d))
   \<and> distinct (map mv_artifact_id (t_model_versions d)) \<and> distinct (map tr_id (t_training_runs d))
   \<and> contiguous dv_dataset_id dv_version_number (t_dataset_versions d)
   \<and> contiguous mv_model_id mv_version_number (t_model_versions d)"

text \<open>One statement: the old rows keep their references, the rows it added have theirs.\<close>

lemma registry_step:
  assumes "registry_inv d0 d" and later: "registry_later d d'" and keys: "registry_keys d'"
    and new: "\<And>v. v \<in> set (t_dataset_versions d') \<Longrightarrow> v \<notin> set (t_dataset_versions d) \<Longrightarrow> dataset_version_ok d' v"
      "\<And>v. v \<in> set (t_model_versions d') \<Longrightarrow> v \<notin> set (t_model_versions d) \<Longrightarrow> model_version_ok d' v"
      "\<And>t. t \<in> set (t_training_runs d') \<Longrightarrow> t \<notin> set (t_training_runs d) \<Longrightarrow> training_run_ok d' t"
  shows "registry_inv d0 d'"
proof -
  have ok: "registry_ok d" "registry_later d0 d" using assms(1) by (simp_all add: registry_inv_def)
  have "\<forall>v \<in> set (t_dataset_versions d'). dataset_version_ok d' v"
    using ok(1) new(1) rows_later(1) [OF later] unfolding registry_ok_def by blast
  moreover have "\<forall>v \<in> set (t_model_versions d'). model_version_ok d' v"
    using ok(1) new(2) rows_later(2) [OF later] unfolding registry_ok_def by blast
  moreover have "\<forall>t \<in> set (t_training_runs d'). training_run_ok d' t"
    using ok(1) new(3) rows_later(3) [OF later] unfolding registry_ok_def by blast
  ultimately have "registry_ok d'" using keys by (simp add: registry_ok_def registry_keys_def)
  with ok(2) later show ?thesis by (auto simp: registry_inv_def intro: registry_later_trans)
qed

lemma registry_inv_keys: "registry_inv d0 d \<Longrightarrow> registry_keys d"
  by (simp add: registry_inv_def registry_ok_def registry_keys_def)

abbreviation same_registry :: "db \<Rightarrow> db \<Rightarrow> bool" where
  "same_registry d d' \<equiv> t_datasets d' = t_datasets d \<and> t_dataset_versions d' = t_dataset_versions d
   \<and> t_models d' = t_models d \<and> t_model_versions d' = t_model_versions d
   \<and> t_training_runs d' = t_training_runs d"

lemma registry_frame:
  assumes "registry_inv d0 d" and "same_registry d d'" and "t_artifacts d' = t_artifacts d"
    and "j_id ` set (t_jobs d) \<subseteq> j_id ` set (t_jobs d')"
  shows "registry_inv d0 d'"
proof (rule registry_step [OF assms(1)])
  show "registry_later d d'" using assms(2-4) by (simp add: registry_later_def)
  show "registry_keys d'" using registry_inv_keys [OF assms(1)] assms(2,3) by (simp add: registry_keys_def)
qed (use assms(2) in simp_all)

interpretation art: artifact_frame "registry_inv d0" for d0
proof unfold_locales
  fix p :: "artifact \<Rightarrow> bool" and f :: "artifact \<Rightarrow> artifact" and d :: db
  assume inv: "registry_inv d0 d" and pend: "\<And>a. p a \<Longrightarrow> f_status a = APending"
    and id: "\<And>a. f_id (f a) = f_id (a :: artifact)"
  let ?d = "d\<lparr>t_artifacts := sql_update p f (t_artifacts d)\<rparr>"
  have "a \<in> set (sql_update p f (t_artifacts d))" if "a \<in> set (t_artifacts d)" "f_status a = AUploaded" for a
    using that pend [of a] by (auto simp: in_sql_update_iff intro!: bexI [of _ a])
  then have "registry_later d ?d" by (auto simp: registry_later_def)
  moreover have "registry_keys ?d"
    using registry_inv_keys [OF inv] map_sql_update_key [of p f_id f] id by (simp add: registry_keys_def)
  ultimately show "registry_inv d0 ?d" by (rule registry_step [OF inv]) simp_all
next
  fix d :: db and a :: artifact
  assume inv: "registry_inv d0 d" and "f_id a \<notin> f_id ` set (t_artifacts d)"
  then have "registry_keys (d\<lparr>t_artifacts := t_artifacts d @ [a]\<rparr>)"
    using registry_inv_keys [OF inv] by (simp add: registry_keys_def)
  moreover have "registry_later d (d\<lparr>t_artifacts := t_artifacts d @ [a]\<rparr>)"
    by (auto simp: registry_later_def)
  ultimately show "registry_inv d0 (d\<lparr>t_artifacts := t_artifacts d @ [a]\<rparr>)"
    by (intro registry_step [OF inv]) simp_all
qed

subsection \<open>Job transactions leave the registry alone\<close>

interpretation reg: job_frame "registry_inv d0" for d0
  by unfold_locales (erule registry_frame, simp_all add: same_outside_def)

end
