(* ===== verification/RegistrySafety.thy ===== *)
theory RegistrySafety
  imports RegistryLaws
begin

text \<open>
  The registry operations keep the invariant of \<open>RegistryLaws\<close>, at every commit and under
  any well-behaved interference; lookups and lineage in a consistent state and in a later one;
  the exact outcome of a registration.
\<close>

subsection \<open>The inserts\<close>

lemma triple_insert_or_fail:
  "(\<And>d. P d \<Longrightarrow> \<not> violates d \<Longrightarrow> I (ins d) \<and> Q () (ins d)) \<Longrightarrow> triple I P (insert_or_fail violates ins) Q"
  by (simp add: triple_def insert_or_fail_def prog_defs durable_ok_def)

lemma triple_others:
  "keeps_registry others \<Longrightarrow> (\<And>d. P d \<Longrightarrow> Q (others d)) \<Longrightarrow>
   triple (registry_inv d0) P (interfere others) (\<lambda>_. Q)"
  by (simp add: triple_def interfere_def durable_ok_def registry_others)

lemma find_None:
  "find_dataset did d = None \<longleftrightarrow> did \<notin> ds_id ` set (t_datasets d)"
  "find_model mid d = None \<longleftrightarrow> mid \<notin> m_id ` set (t_models d)"
  "find_training_run rid d = None \<longleftrightarrow> rid \<notin> tr_id ` set (t_training_runs d)"
  "find_version_by_artifact aid d = None \<longleftrightarrow> aid \<notin> mv_artifact_id ` set (t_model_versions d)"
  "find_dataset_version did n d = None \<longleftrightarrow> \<not> has_dataset_version did n d"
  "find_model_version mid n d = None \<longleftrightarrow> \<not> has_model_version mid n d"
  by (auto simp: find_dataset_def find_model_def find_training_run_def find_version_by_artifact_def
      find_dataset_version_def find_model_version_def has_dataset_version_def has_model_version_def
      sql_one_None_iff)

lemma fresh_id_new [simp]: "fresh_id (map f t) \<notin> f ` set t"
  using fresh_id_not_in [of "map f t"] by simp

lemma fresh_id_newD: "fresh_id (map f t) = f x \<Longrightarrow> x \<in> set t \<Longrightarrow> False"
  using fresh_id_new [of f t] by force

lemma keeps_datasets_create: "keeps (registry_inv d0) (datasets_create now name description)"
proof -
  have ins: "registry_inv d0 (d\<lparr>t_datasets := t_datasets d @ [x]\<rparr>)"
    if inv: "registry_inv d0 d" and x: "ds_id x \<notin> ds_id ` set (t_datasets d)" "ds_name x \<notin> ds_name ` set (t_datasets d)"
    for d x
  proof (rule registry_step [OF inv])
    show "registry_later d (d\<lparr>t_datasets := t_datasets d @ [x]\<rparr>)" by (auto simp: registry_later_def)
    show "registry_keys (d\<lparr>t_datasets := t_datasets d @ [x]\<rparr>)"
      using registry_inv_keys [OF inv] x by (simp add: registry_keys_def)
  qed simp_all
  have "registry_inv d0 (d\<lparr>t_datasets := t_datasets d @ [\<lparr>ds_id = fresh_id (map ds_id (t_datasets d)), ds_name = name,
      ds_description = description, ds_created_at = now\<rparr>]\<rparr>)"
    if "registry_inv d0 d" "\<forall>r \<in> set (t_datasets d). ds_name r \<noteq> name" for d
    by (rule ins) (use that in auto)
  then show ?thesis
    unfolding datasets_create_def insert_or_fail_def
    by (auto simp: keeps_def kept_def durable_ok_def prog_defs sql_exists_iff)
qed

lemma keeps_models_create: "keeps (registry_inv d0) (models_create now name description)"
proof -
  have ins: "registry_inv d0 (d\<lparr>t_models := t_models d @ [x]\<rparr>)"
    if inv: "registry_inv d0 d" and x: "m_id x \<notin> m_id ` set (t_models d)" "m_name x \<notin> m_name ` set (t_models d)"
    for d x
  proof (rule registry_step [OF inv])
    show "registry_later d (d\<lparr>t_models := t_models d @ [x]\<rparr>)" by (auto simp: registry_later_def)
    show "registry_keys (d\<lparr>t_models := t_models d @ [x]\<rparr>)"
      using registry_inv_keys [OF inv] x by (simp add: registry_keys_def)
  qed simp_all
  have "registry_inv d0 (d\<lparr>t_models := t_models d @ [\<lparr>m_id = fresh_id (map m_id (t_models d)), m_name = name,
      m_description = description, m_created_at = now\<rparr>]\<rparr>)"
    if "registry_inv d0 d" "\<forall>r \<in> set (t_models d). m_name r \<noteq> name" for d
    by (rule ins) (use that in auto)
  then show ?thesis
    unfolding models_create_def insert_or_fail_def
    by (auto simp: keeps_def kept_def durable_ok_def prog_defs sql_exists_iff)
qed

text \<open>A version row whose number was read in an earlier state.\<close>

lemma dataset_version_insert:
  assumes inv: "registry_inv d0 d" and up: "uploaded_id (dv_artifact_id v) d"
    and n: "1 \<le> dv_version_number v" "dv_version_number v \<le> next_number (dataset_numbers (dv_dataset_id v) d)"
    and ok: "\<not> dataset_version_violates v d"
  shows "registry_inv d0 (d\<lparr>t_dataset_versions := t_dataset_versions d @ [v]\<rparr>)"
proof (rule registry_step [OF inv])
  let ?d = "d\<lparr>t_dataset_versions := t_dataset_versions d @ [v]\<rparr>"
  show later: "registry_later d ?d" by (auto simp: registry_later_def)
  have c: "contiguous dv_dataset_id dv_version_number (t_dataset_versions d)"
    using registry_inv_keys [OF inv] by (simp add: registry_keys_def)
  have "dv_version_number v \<notin> set (numbers dv_dataset_id dv_version_number (dv_dataset_id v) (t_dataset_versions d))"
    using ok by (auto simp: dataset_version_violates_def find_None has_dataset_version_def numbers_def)
  then have "contiguous dv_dataset_id dv_version_number (t_dataset_versions d @ [v])"
    using n by (intro dv.append_next [OF c] dv.stale_number [OF c]) (simp_all add: dataset_numbers_eq)
  then show "registry_keys ?d" using registry_inv_keys [OF inv] by (simp add: registry_keys_def)
  show "dataset_version_ok ?d w" if "w \<in> set (t_dataset_versions ?d)" "w \<notin> set (t_dataset_versions d)" for w
    using that ok uploaded_later [OF later up]
    by (auto simp: dataset_version_ok_def dataset_version_violates_def find_None)
qed simp_all

lemma model_version_insert:
  assumes inv: "registry_inv d0 d" and up: "uploaded_id (mv_artifact_id v) d"
    and n: "1 \<le> mv_version_number v" "mv_version_number v \<le> next_number (model_numbers (mv_model_id v) d)"
    and ok: "\<not> model_version_violates v d"
  shows "registry_inv d0 (d\<lparr>t_model_versions := t_model_versions d @ [v]\<rparr>)"
proof (rule registry_step [OF inv])
  let ?d = "d\<lparr>t_model_versions := t_model_versions d @ [v]\<rparr>"
  show later: "registry_later d ?d" by (auto simp: registry_later_def)
  have c: "contiguous mv_model_id mv_version_number (t_model_versions d)"
    using registry_inv_keys [OF inv] by (simp add: registry_keys_def)
  have "mv_version_number v \<notin> set (numbers mv_model_id mv_version_number (mv_model_id v) (t_model_versions d))"
    using ok by (auto simp: model_version_violates_def find_None has_model_version_def numbers_def)
  then have "contiguous mv_model_id mv_version_number (t_model_versions d @ [v])"
    using n by (intro mv.append_next [OF c] mv.stale_number [OF c]) (simp_all add: model_numbers_eq)
  then show "registry_keys ?d"
    using registry_inv_keys [OF inv] ok by (simp add: registry_keys_def model_version_violates_def find_None)
  show "model_version_ok ?d w" if "w \<in> set (t_model_versions ?d)" "w \<notin> set (t_model_versions d)" for w
    using that ok uploaded_later [OF later up]
    by (auto simp: model_version_ok_def model_version_violates_def find_None)
qed simp_all

lemma next_later:
  assumes "registry_ok d" and "registry_inv d d'"
  shows "next_number (dataset_numbers p d) \<le> next_number (dataset_numbers p d')"
    and "next_number (model_numbers p d) \<le> next_number (model_numbers p d')"
  using assms dv.next_mono mv.next_mono
  by (auto simp: dataset_numbers_eq model_numbers_eq registry_ok_def registry_inv_def registry_later_def)

lemma next_pos: "registry_ok d \<Longrightarrow> 1 \<le> next_number (dataset_numbers p d) \<and> 1 \<le> next_number (model_numbers p d)"
  by (simp add: dataset_numbers_eq model_numbers_eq dv.next_is_count mv.next_is_count registry_ok_def)

subsection \<open>Registering versions\<close>

text \<open>What a registration knows between its checks and its insert.\<close>

abbreviation number_known :: "(uuid \<Rightarrow> db \<Rightarrow> int list) \<Rightarrow> db \<Rightarrow> uuid \<Rightarrow> uuid \<Rightarrow> int \<Rightarrow> db \<Rightarrow> bool" where
  "number_known nums d0 p aid n d \<equiv> registry_inv d0 d \<and> uploaded_id aid d \<and> 1 \<le> n \<and> n \<le> next_number (nums p d)"

lemma number_others:
  assumes others: "keeps_registry others"
  shows "number_known dataset_numbers d0 p aid n d \<Longrightarrow> number_known dataset_numbers d0 p aid n (others d)"
    and "number_known model_numbers d0 p aid n d \<Longrightarrow> number_known model_numbers d0 p aid n (others d)"
proof -
  have step: "registry_ok d \<and> registry_inv d (others d) \<and> registry_later d (others d)" if "registry_inv d0 d" for d
    using that others by (auto simp: keeps_registry_def registry_inv_def)
  show "number_known dataset_numbers d0 p aid n d \<Longrightarrow> number_known dataset_numbers d0 p aid n (others d)"
    using step [of d] next_later(1) [of d "others d" p] uploaded_later [of d "others d" aid]
      registry_others [OF others] by fastforce
  show "number_known model_numbers d0 p aid n d \<Longrightarrow> number_known model_numbers d0 p aid n (others d)"
    using step [of d] next_later(2) [of d "others d" p] uploaded_later [of d "others d" aid]
      registry_others [OF others] by fastforce
qed

lemma bind_ret: "bind (ret a) f = f a"
  by (rule ext) (simp add: bind_def ret_def)

lemma triple_datasets_create_version:
  assumes "keeps_registry others"
  shows "triple (registry_inv d0) (\<lambda>d. registry_inv d0 d \<and> uploaded_id aid d)
     (datasets_create_version others now p aid)
     (\<lambda>v d. registry_inv d0 d \<and> v \<in> set (t_dataset_versions d) \<and> dv_dataset_id v = p \<and> dv_artifact_id v = aid)"
proof -
  let ?I = "registry_inv d0"
  let ?K = "\<lambda>n. number_known dataset_numbers d0 p aid n"
  let ?row = "\<lambda>n. \<lparr>dv_dataset_id = p, dv_version_number = n, dv_artifact_id = aid, dv_created_at = now\<rparr>"
  let ?Q = "\<lambda>v d. ?I d \<and> v \<in> set (t_dataset_versions d) \<and> dv_dataset_id v = p \<and> dv_artifact_id v = aid"
  have num: "triple ?I (\<lambda>d. ?I d \<and> uploaded_id aid d) (datasets_next_version_number p) ?K"
    unfolding datasets_next_version_number_def
    by (rule triple_query) (auto simp: registry_inv_def dest: next_pos)
  have wait: "triple ?I (?K n) (interfere others) (\<lambda>_. ?K n)" for n
    using assms number_others(1) [OF assms] by (rule triple_others)
  have ins: "triple ?I (?K n) (insert_or_fail (dataset_version_violates (?row n))
      (\<lambda>d. d\<lparr>t_dataset_versions := t_dataset_versions d @ [?row n]\<rparr>)) (\<lambda>_. ?Q (?row n))" for n
    by (rule triple_insert_or_fail) (auto intro!: dataset_version_insert)
  have finish: "triple ?I (?K n) (bind (interfere others) (\<lambda>_. bind (insert_or_fail (dataset_version_violates (?row n))
      (\<lambda>d. d\<lparr>t_dataset_versions := t_dataset_versions d @ [?row n]\<rparr>)) (\<lambda>_. ret (?row n)))) ?Q" for n
    by (rule triple_bind [OF wait triple_bind [OF ins triple_ret]]) simp
  show ?thesis
    unfolding datasets_create_version_def bind_ret by (rule triple_bind [OF num finish])
qed

lemma triple_models_create_version:
  assumes "keeps_registry others"
  shows "triple (registry_inv d0) (\<lambda>d. registry_inv d0 d \<and> uploaded_id aid d)
     (models_create_version others now p aid rid)
     (\<lambda>v d. registry_inv d0 d \<and> v \<in> set (t_model_versions d) \<and> mv_model_id v = p \<and> mv_artifact_id v = aid)"
proof -
  let ?I = "registry_inv d0"
  let ?K = "\<lambda>n. number_known model_numbers d0 p aid n"
  let ?row = "\<lambda>n. \<lparr>mv_model_id = p, mv_version_number = n, mv_artifact_id = aid, mv_training_run_id = rid, mv_registered_at = now\<rparr>"
  let ?Q = "\<lambda>v d. ?I d \<and> v \<in> set (t_model_versions d) \<and> mv_model_id v = p \<and> mv_artifact_id v = aid"
  have num: "triple ?I (\<lambda>d. ?I d \<and> uploaded_id aid d) (models_next_version_number p) ?K"
    unfolding models_next_version_number_def
    by (rule triple_query) (auto simp: registry_inv_def dest: next_pos)
  have wait: "triple ?I (?K n) (interfere others) (\<lambda>_. ?K n)" for n
    using assms number_others(2) [OF assms] by (rule triple_others)
  have ins: "triple ?I (?K n) (insert_or_fail (model_version_violates (?row n))
      (\<lambda>d. d\<lparr>t_model_versions := t_model_versions d @ [?row n]\<rparr>)) (\<lambda>_. ?Q (?row n))" for n
    by (rule triple_insert_or_fail) (auto intro!: model_version_insert)
  have finish: "triple ?I (?K n) (bind (interfere others) (\<lambda>_. bind (insert_or_fail (model_version_violates (?row n))
      (\<lambda>d. d\<lparr>t_model_versions := t_model_versions d @ [?row n]\<rparr>)) (\<lambda>_. ret (?row n)))) ?Q" for n
    by (rule triple_bind [OF wait triple_bind [OF ins triple_ret]]) simp
  show ?thesis
    unfolding models_create_version_def bind_ret by (rule triple_bind [OF num finish])
qed


lemma keeps_create_dataset_version:
  assumes "keeps_registry others"
  shows "keeps (registry_inv d0) (create_dataset_version cfg hb put go others now later p data u)"
proof -
  let ?I = "registry_inv d0"
  have up: "triple ?I ?I (upload_artifact cfg hb put go others now later data ty u None None)
      (\<lambda>a d. ?I d \<and> a \<in> set (t_artifacts d))" for ty
    using registry_others [OF assms] by (rule art.upload)
  have reg: "triple ?I (\<lambda>d. ?I d \<and> a \<in> set (t_artifacts d))
      (if f_status a \<noteq> AUploaded then raise (HTTPException 502)
       else datasets_create_version others later p (f_id a)) (\<lambda>_. ?I)" for a
    by (rule triple_if [OF triple_raise], rule triple_weaken [OF triple_datasets_create_version [OF assms]])
       (auto simp: uploaded_id_def)
  have "triple ?I ?I (get_dataset_or_404 p) (\<lambda>_. ?I)"
    unfolding triple_keeps get_dataset_or_404_def by (intro keeps_intros)
  then show ?thesis
    unfolding create_dataset_version_def triple_keeps [symmetric]
    by (rule triple_bind [OF _ triple_bind [OF up reg]])
qed

lemma triple_register_version:
  assumes "keeps_registry others"
  shows "triple (registry_inv d0) (registry_inv d0) (register_version others now p aid rid)
     (\<lambda>v d. registry_inv d0 d \<and> v \<in> set (t_model_versions d) \<and> mv_model_id v = p \<and> mv_artifact_id v = aid)"
proof -
  let ?I = "registry_inv d0" and ?U = "\<lambda>d. registry_inv d0 d \<and> uploaded_id aid d"
  let ?missing = "\<lambda>found. case found of None \<Rightarrow> True | Some a \<Rightarrow> f_status a \<noteq> AUploaded"
  let ?Q = "\<lambda>v d. ?I d \<and> v \<in> set (t_model_versions d) \<and> mv_model_id v = p \<and> mv_artifact_id v = aid"
  have get: "triple ?I ?I (get_model_or_404 p) (\<lambda>_. ?I)"
    unfolding triple_keeps get_model_or_404_def by (intro keeps_intros)
  have art: "triple ?I ?I (artifacts_get aid) (\<lambda>r d. ?I d \<and> (\<not> ?missing r \<longrightarrow> uploaded_id aid d))"
    unfolding artifacts_get_def find_artifact_def
    by (rule triple_query) (auto simp: uploaded_id_def dest!: sql_one_SomeD split: option.splits)
  have dup: "triple ?I ?U (query (find_version_by_artifact aid)) (\<lambda>_. ?U)"
    by (rule triple_query)
  have reg: "triple ?I ?U (if r \<noteq> None then raise (HTTPException 409)
      else models_create_version others now p aid rid) ?Q" for r :: "model_version option"
    by (rule triple_if [OF triple_raise triple_models_create_version [OF assms]])
  have rest: "triple ?I (\<lambda>d. ?I d \<and> (\<not> ?missing r \<longrightarrow> uploaded_id aid d))
      (if ?missing r then raise (HTTPException 409)
       else bind (query (find_version_by_artifact aid)) (\<lambda>existing.
          if existing \<noteq> None then raise (HTTPException 409)
          else models_create_version others now p aid rid)) ?Q" for r
    by (rule triple_if [OF triple_raise], rule triple_weaken [OF triple_bind [OF dup reg]]) auto
  show ?thesis
    unfolding register_version_def by (rule triple_bind [OF get triple_bind [OF art rest]])
qed

lemma keeps_create_training_run:
  assumes "keeps_registry others"
  shows "keeps (registry_inv d0) (create_training_run others now p)"
proof -
  have ins: "registry_inv d0 (d\<lparr>t_training_runs := t_training_runs d @ [t]\<rparr>)"
    if inv: "registry_inv d0 d" and new: "tr_id t \<notin> tr_id ` set (t_training_runs d)"
      and ok: "\<not> training_run_violates t d"
      and base: "tr_base_model_id t \<noteq> None \<longrightarrow> tr_base_model_version_number t \<noteq> None" for d t
  proof (rule registry_step [OF inv])
    let ?d = "d\<lparr>t_training_runs := t_training_runs d @ [t]\<rparr>"
    show "registry_later d ?d" by (auto simp: registry_later_def)
    show "registry_keys ?d" using registry_inv_keys [OF inv] new by (simp add: registry_keys_def)
    have job: "tr_job_id t \<in> j_id ` set (t_jobs d)"
      using ok unfolding training_run_violates_def sql_exists_iff by (metis image_eqI)
    show "training_run_ok ?d r" if "r \<in> set (t_training_runs ?d)" "r \<notin> set (t_training_runs d)" for r
      using that ok base job
      by (auto simp: training_run_ok_def training_run_violates_def find_None sql_exists_iff
          has_dataset_version_def has_model_version_def)
  qed simp_all
  have run: "keeps (registry_inv d0) (training_runs_create t)"
    if "tr_base_model_id t \<noteq> None \<longrightarrow> tr_base_model_version_number t \<noteq> None" for t
    unfolding training_runs_create_def insert_or_fail_def
    using that by (auto simp: keeps_def kept_def durable_ok_def prog_defs intro!: ins dest: fresh_id_newD)
  have others: "keeps (registry_inv d0) (interfere others)"
    using registry_others [OF assms] by (simp add: keeps_def kept_def interfere_def durable_ok_def)
  have rest: "keeps (registry_inv d0) (bind (create_job now jc) (\<lambda>j. bind (interfere others) (\<lambda>_.
      training_runs_create (new_training_run now (j_id j) p))))"
    if "tc_base_model_id p \<noteq> None \<longrightarrow> tc_base_model_version_number p \<noteq> None" for jc
    by (intro keeps_intros reg.create_job others run) (use that in \<open>simp add: new_training_run_def\<close>)
  have pre: "triple (registry_inv d0) (registry_inv d0)
      (query (base_version_missing (tc_base_model_id p) (tc_base_model_version_number p)))
      (\<lambda>m d. registry_inv d0 d \<and> (\<not> m \<longrightarrow> tc_base_model_id p \<noteq> None \<longrightarrow> tc_base_model_version_number p \<noteq> None))"
    by (rule triple_query) (auto simp: base_version_missing_def split: option.splits)
  show ?thesis
    unfolding create_training_run_def triple_keeps [symmetric]
    by (rule triple_bind [OF triple_query], assumption, rule triple_if [OF triple_raise],
        rule triple_bind [OF pre], rule triple_if [OF triple_raise])
       (rule triple_pre [where c = "tc_base_model_id p \<noteq> None \<longrightarrow> tc_base_model_version_number p \<noteq> None"],
        simp, rule triple_weaken [OF rest [unfolded triple_keeps [symmetric]]], auto)
qed

subsection \<open>Lineage\<close>

lemma find_row:
  assumes "registry_ok d"
  shows "x \<in> set (t_datasets d) \<Longrightarrow> find_dataset (ds_id x) d = Some x"
    and "t \<in> set (t_training_runs d) \<Longrightarrow> find_training_run (tr_id t) d = Some t"
    and "a \<in> set (t_artifacts d) \<Longrightarrow> find_artifact (f_id a) d = Some a"
  using assms unfolding find_dataset_def find_training_run_def find_artifact_def registry_ok_def
  by (auto intro: sql_one_unique)

lemma find_version_row:
  assumes "registry_ok d"
  shows "v \<in> set (t_dataset_versions d) \<Longrightarrow> find_dataset_version (dv_dataset_id v) (dv_version_number v) d = Some v"
    and "w \<in> set (t_model_versions d) \<Longrightarrow> find_model_version (mv_model_id w) (mv_version_number w) d = Some w"
proof -
  have c: "contiguous dv_dataset_id dv_version_number (t_dataset_versions d)"
    "contiguous mv_model_id mv_version_number (t_model_versions d)" using assms by (simp_all add: registry_ok_def)
  show "find_dataset_version (dv_dataset_id v) (dv_version_number v) d = Some v" if v: "v \<in> set (t_dataset_versions d)"
  proof (cases "find_dataset_version (dv_dataset_id v) (dv_version_number v) d")
    case None
    with v show ?thesis by (auto simp: find_None has_dataset_version_def)
  next
    case (Some u)
    then have "u \<in> set (t_dataset_versions d)" "dv_dataset_id u = dv_dataset_id v"
      "dv_version_number u = dv_version_number v"
      by (auto simp: find_dataset_version_def dest: sql_one_SomeD)
    with dv.row_of_number [OF c(1) _ v] Some show ?thesis by simp
  qed
  show "find_model_version (mv_model_id w) (mv_version_number w) d = Some w" if w: "w \<in> set (t_model_versions d)"
  proof (cases "find_model_version (mv_model_id w) (mv_version_number w) d")
    case None
    with w show ?thesis by (auto simp: find_None has_model_version_def)
  next
    case (Some u)
    then have "u \<in> set (t_model_versions d)" "mv_model_id u = mv_model_id w"
      "mv_version_number u = mv_version_number w"
      by (auto simp: find_model_version_def dest: sql_one_SomeD)
    with mv.row_of_number [OF c(2) _ w] Some show ?thesis by simp
  qed
qed

lemma find_dataset_version_SomeD:
  "find_dataset_version p n d = Some v \<Longrightarrow> v \<in> set (t_dataset_versions d) \<and> dv_dataset_id v = p \<and> dv_version_number v = n"
  by (auto simp: find_dataset_version_def dest: sql_one_SomeD)

lemma find_model_version_SomeD:
  "find_model_version p n d = Some v \<Longrightarrow> v \<in> set (t_model_versions d) \<and> mv_model_id v = p \<and> mv_version_number v = n"
  by (auto simp: find_model_version_def dest: sql_one_SomeD)

text \<open>A reference that resolves in one state resolves to the same row in a later one.\<close>

lemma lookups_later:
  assumes "registry_ok d" and "registry_inv d d'"
  shows "x \<in> ds_id ` set (t_datasets d) \<Longrightarrow> find_dataset x d' = find_dataset x d"
    and "x \<in> tr_id ` set (t_training_runs d) \<Longrightarrow> find_training_run x d' = find_training_run x d"
    and "uploaded_id aid d \<Longrightarrow> find_artifact aid d' = find_artifact aid d"
    and "has_dataset_version p n d \<Longrightarrow> find_dataset_version p n d' = find_dataset_version p n d"
    and "has_model_version p n d \<Longrightarrow> find_model_version p n d' = find_model_version p n d"
proof -
  have d': "registry_ok d'" and later: "registry_later d d'" using assms(2) by (simp_all add: registry_inv_def)
  note rows = find_row [OF assms(1)] find_row [OF d'] find_version_row [OF assms(1)] find_version_row [OF d']
  show "x \<in> ds_id ` set (t_datasets d) \<Longrightarrow> find_dataset x d' = find_dataset x d"
    using later rows(1,4) by (fastforce simp: registry_later_def)
  show "x \<in> tr_id ` set (t_training_runs d) \<Longrightarrow> find_training_run x d' = find_training_run x d"
    using later rows(2,5) by (fastforce simp: registry_later_def)
  show "uploaded_id aid d \<Longrightarrow> find_artifact aid d' = find_artifact aid d"
    using later rows(3,6) by (fastforce simp: registry_later_def uploaded_id_def)
  show "has_dataset_version p n d \<Longrightarrow> find_dataset_version p n d' = find_dataset_version p n d"
    using later rows(7,9) by (fastforce simp: registry_later_def has_dataset_version_def)
  show "has_model_version p n d \<Longrightarrow> find_model_version p n d' = find_model_version p n d"
    using later rows(8,10) by (fastforce simp: registry_later_def has_model_version_def)
qed

text \<open>What the invariant says about the row a lineage starts from, and about its training run.\<close>

lemma version_refs:
  assumes "registry_ok d" and "find_model_version p n d = Some v"
  shows "uploaded_id (mv_artifact_id v) d"
    and "mv_training_run_id v = Some r \<Longrightarrow> \<exists>t. find_training_run r d = Some t \<and> tr_id t = r \<and> training_run_ok d t"
proof -
  have ok: "model_version_ok d v"
    using assms find_model_version_SomeD [OF assms(2)] by (simp add: registry_ok_def)
  then show "uploaded_id (mv_artifact_id v) d" by (simp add: model_version_ok_def)
  assume "mv_training_run_id v = Some r"
  with ok obtain t where "t \<in> set (t_training_runs d)" "tr_id t = r" by (auto simp: model_version_ok_def)
  with assms(1) find_row(2) [OF assms(1)] show "\<exists>t. find_training_run r d = Some t \<and> tr_id t = r \<and> training_run_ok d t"
    by (auto simp: registry_ok_def)
qed

lemma run_refs:
  assumes "registry_ok d" and "training_run_ok d t"
  shows "tr_dataset_id t \<in> ds_id ` set (t_datasets d)"
    and "has_dataset_version (tr_dataset_id t) (tr_dataset_version_number t) d"
    and "tr_base_model_id t = Some m \<Longrightarrow> \<exists>k. tr_base_model_version_number t = Some k \<and> has_model_version m k d"
proof -
  show v: "has_dataset_version (tr_dataset_id t) (tr_dataset_version_number t) d"
    using assms(2) by (simp add: training_run_ok_def)
  then show "tr_dataset_id t \<in> ds_id ` set (t_datasets d)"
    using assms(1) unfolding has_dataset_version_def registry_ok_def dataset_version_ok_def by metis
  show "tr_base_model_id t = Some m \<Longrightarrow> \<exists>k. tr_base_model_version_number t = Some k \<and> has_model_version m k d"
    using assms(2) by (simp add: training_run_ok_def)
qed

lemma lineage_of_registered:
  assumes ok: "registry_ok d" and get: "get_lineage model_id version_number d = Some l"
  shows "(\<exists>a. ln_artifact l = Some a \<and> f_status a = AUploaded \<and> f_id a = mv_artifact_id (ln_model_version l))
    \<and> (\<forall>r. mv_training_run_id (ln_model_version l) = Some r \<longrightarrow>
        (\<exists>t v. ln_training_run l = Some t \<and> tr_id t = r \<and> ln_dataset l \<noteq> None
          \<and> ln_dataset_version l = Some v \<and> dv_dataset_id v = tr_dataset_id t
          \<and> dv_version_number v = tr_dataset_version_number t
          \<and> (tr_base_model_id t \<noteq> None \<longrightarrow> ln_base_model_version l \<noteq> None)))"
proof -
  obtain v where v: "find_model_version model_id version_number d = Some v" and l: "l = lineage_of d v"
    using get by (auto simp: get_lineage_def split: option.splits)
  obtain a where a: "a \<in> set (t_artifacts d)" "f_id a = mv_artifact_id v" "f_status a = AUploaded"
    using version_refs(1) [OF ok v] by (auto simp: uploaded_id_def)
  then have "find_artifact (mv_artifact_id v) d = Some a" using find_row(3) [OF ok a(1)] by simp
  moreover have "\<exists>t w. ln_training_run l = Some t \<and> tr_id t = r \<and> ln_dataset l \<noteq> None
      \<and> ln_dataset_version l = Some w \<and> dv_dataset_id w = tr_dataset_id t
      \<and> dv_version_number w = tr_dataset_version_number t
      \<and> (tr_base_model_id t \<noteq> None \<longrightarrow> ln_base_model_version l \<noteq> None)"
    if r: "mv_training_run_id v = Some r" for r
  proof -
    obtain t where t: "find_training_run r d = Some t" "tr_id t = r" "training_run_ok d t"
      using version_refs(2) [OF ok v r] by blast
    obtain w where "find_dataset_version (tr_dataset_id t) (tr_dataset_version_number t) d = Some w"
      using run_refs(2) [OF ok t(3)] find_None(5) [of "tr_dataset_id t" "tr_dataset_version_number t" d] by auto
    moreover have "find_dataset (tr_dataset_id t) d \<noteq> None"
      using run_refs(1) [OF ok t(3)] by (simp add: find_None del: not_None_eq)
    moreover have "ln_base_model_version l \<noteq> None" if base: "tr_base_model_id t = Some m" for m
    proof -
      obtain k where k: "tr_base_model_version_number t = Some k" "has_model_version m k d"
        using run_refs(3) [OF ok t(3) base] by blast
      then obtain b where "find_model_version m k d = Some b"
        using find_None(6) [of m k d] by auto
      with k(1) base t(1) r show ?thesis by (simp add: l lineage_of_def)
    qed
    ultimately show ?thesis
      using t r find_dataset_version_SomeD by (auto simp: l lineage_of_def)
  qed
  moreover have "ln_model_version l = v" "ln_artifact l = find_artifact (mv_artifact_id v) d"
    by (simp_all add: l lineage_of_def Let_def)
  ultimately show ?thesis using a(2,3) by auto
qed

lemma lineage_later:
  assumes inv: "registry_inv d d'" and "registry_ok d" and "get_lineage model_id version_number d = Some l"
  shows "\<exists>j. get_lineage model_id version_number d' = Some (l\<lparr>ln_job := j\<rparr>)"
proof -
  obtain v where v: "find_model_version model_id version_number d = Some v" and l: "l = lineage_of d v"
    using assms(3) by (auto simp: get_lineage_def split: option.splits)
  note later = lookups_later [OF assms(2) inv]
  have "has_model_version model_id version_number d"
    using find_model_version_SomeD [OF v] by (auto simp: has_model_version_def)
  with v have v': "find_model_version model_id version_number d' = Some v" by (simp add: later(5))
  have art: "find_artifact (mv_artifact_id v) d' = find_artifact (mv_artifact_id v) d"
    using version_refs(1) [OF assms(2) v] by (rule later(3))
  have "lineage_of d' v = (lineage_of d v)\<lparr>ln_job := ln_job (lineage_of d' v)\<rparr>"
  proof (cases "mv_training_run_id v")
    case None
    then show ?thesis by (simp add: lineage_of_def art)
  next
    case (Some r)
    then obtain t where t: "find_training_run r d = Some t" "tr_id t = r" "training_run_ok d t"
      using version_refs(2) [OF assms(2) v] by blast
    have "r \<in> tr_id ` set (t_training_runs d)"
      using t(1) find_None(3) [of r d] by auto
    with t(1) have t': "find_training_run r d' = Some t" using later(2) [of r] by simp
    note refs = run_refs [OF assms(2) t(3)]
    have "(case tr_base_model_id t of None \<Rightarrow> None | Some m \<Rightarrow>
        (case tr_base_model_version_number t of None \<Rightarrow> None | Some n \<Rightarrow> find_model_version m n d'))
      = (case tr_base_model_id t of None \<Rightarrow> None | Some m \<Rightarrow>
        (case tr_base_model_version_number t of None \<Rightarrow> None | Some n \<Rightarrow> find_model_version m n d))"
      using refs(3) later(5) by (auto split: option.splits)
    then show ?thesis
      using later(1) [OF refs(1)] later(4) [OF refs(2)]
      by (simp add: lineage_of_def art Some t(1) t')
  qed
  with v' l show ?thesis by (auto simp: get_lineage_def)
qed

subsection \<open>The exact outcome of a registration\<close>

definition registered :: "time \<Rightarrow> uuid \<Rightarrow> uuid \<Rightarrow> uuid option \<Rightarrow> db \<Rightarrow> model_version" where
  "registered now model_id artifact_id training_run_id d =
     \<lparr>mv_model_id = model_id, mv_version_number = int (length (model_numbers model_id d)) + 1,
      mv_artifact_id = artifact_id, mv_training_run_id = training_run_id, mv_registered_at = now\<rparr>"

text \<open>Registering an artifact as a version of a model, undisturbed, in any consistent state: 404 for
  an unknown model; 409 for an artifact that is missing, not UPLOADED or already registered; an
  integrity error for an unknown training run; none of these changes anything.  Otherwise exactly one
  row is added, numbered one more than the model has versions.\<close>

theorem register_exact:
  assumes "registry_ok d"
  shows "if model_id \<notin> m_id ` set (t_models d)
      then result (register_version (\<lambda>x. x) now model_id artifact_id training_run_id) d = Inl (HTTPException 404)
        \<and> final_db (register_version (\<lambda>x. x) now model_id artifact_id training_run_id) d = d
    else if \<not> uploaded_id artifact_id d \<or> artifact_id \<in> mv_artifact_id ` set (t_model_versions d)
      then result (register_version (\<lambda>x. x) now model_id artifact_id training_run_id) d = Inl (HTTPException 409)
        \<and> final_db (register_version (\<lambda>x. x) now model_id artifact_id training_run_id) d = d
    else if \<exists>r. training_run_id = Some r \<and> r \<notin> tr_id ` set (t_training_runs d)
      then result (register_version (\<lambda>x. x) now model_id artifact_id training_run_id) d = Inl IntegrityError
        \<and> final_db (register_version (\<lambda>x. x) now model_id artifact_id training_run_id) d = d
    else result (register_version (\<lambda>x. x) now model_id artifact_id training_run_id) d
          = Inr (registered now model_id artifact_id training_run_id d)
        \<and> final_db (register_version (\<lambda>x. x) now model_id artifact_id training_run_id) d
          = d\<lparr>t_model_versions := t_model_versions d @ [registered now model_id artifact_id training_run_id d]\<rparr>"
proof -
  have c: "contiguous mv_model_id mv_version_number (t_model_versions d)"
    using assms by (simp add: registry_ok_def)
  let ?n = "int (length (model_numbers model_id d)) + 1"
  have num: "next_number (model_numbers model_id d) = ?n"
    using mv.next_is_count [OF c] by (simp add: model_numbers_eq)
  have "?n \<notin> set (numbers mv_model_id mv_version_number model_id (t_model_versions d))"
    using c by (simp add: contiguous_def model_numbers_eq)
  then have fresh: "find_model_version model_id ?n d = None"
    unfolding find_None has_model_version_def numbers_def by (fastforce simp: image_iff)
  have art: "uploaded_id artifact_id d \<longleftrightarrow> (case find_artifact artifact_id d of None \<Rightarrow> False
      | Some a \<Rightarrow> f_status a = AUploaded)"
    using find_row(3) [OF assms]
    by (auto simp: uploaded_id_def find_artifact_def split: option.splits dest: sql_one_SomeD)
  show ?thesis
    using num fresh art find_None(2) [of model_id d] find_None(4) [of artifact_id d] find_None(3) [of _ d]
    by (auto simp: register_version_def get_model_or_404_def artifacts_get_def models_create_version_def
        models_next_version_number_def insert_or_fail_def model_version_violates_def interfere_def
        prog_defs run_defs registered_def split: option.splits)
qed

subsection \<open>A sample registry\<close>

definition sample_file :: "uuid \<Rightarrow> string \<Rightarrow> artifact" where
  "sample_file aid h = \<lparr>f_id = aid, f_content_hash = h, f_storage_key = storage_key_for_hash h,
     f_artifact_type = ''DATASET'', f_size_bytes = Some 1, f_attempt_number = None, f_job_id = None,
     f_status = AUploaded, f_uploader_id = Some ''api'', f_upload_lease_expires_at = None,
     f_created_at = 0, f_uploaded_at = Some 0\<rparr>"

definition sample_run :: training_run where
  "sample_run = \<lparr>tr_id = 1, tr_job_id = 1, tr_dataset_id = 1, tr_dataset_version_number = 1,
     tr_base_model_id = None, tr_base_model_version_number = None, tr_training_config = JObj [],
     tr_code_commit = ''abc'', tr_container_image = ''img'', tr_random_seed = Some 7, tr_created_at = 0\<rparr>"

definition sample_registry :: db where
  "sample_registry = empty_db\<lparr>
     t_jobs := [new_job 0 1 \<lparr>jc_job_type = ''train'', jc_config = None, jc_priority = 50\<rparr>],
     t_artifacts := [sample_file 1 ''x'', sample_file 2 ''y''],
     t_datasets := [\<lparr>ds_id = 1, ds_name = ''d'', ds_description = None, ds_created_at = 0\<rparr>],
     t_dataset_versions := [\<lparr>dv_dataset_id = 1, dv_version_number = 1, dv_artifact_id = 1, dv_created_at = 0\<rparr>],
     t_models := [\<lparr>m_id = 1, m_name = ''m'', m_description = None, m_created_at = 0\<rparr>],
     t_training_runs := [sample_run]\<rparr>"

definition sample_version :: model_version where
  "sample_version = \<lparr>mv_model_id = 1, mv_version_number = 1, mv_artifact_id = 2,
     mv_training_run_id = Some 1, mv_registered_at = 5\<rparr>"

definition sample_registered :: db where
  "sample_registered = sample_registry\<lparr>t_model_versions := [sample_version]\<rparr>"

lemma sample_registry_ok: "registry_ok sample_registry"
  by (simp add: registry_ok_def sample_registry_def empty_db_def sample_file_def sample_run_def new_job_def
      contiguous_def numbers_def dataset_version_ok_def training_run_ok_def has_dataset_version_def uploaded_id_def)

lemma sample_registration:
  "result (register_version (\<lambda>x. x) 5 1 2 (Some 1)) sample_registry = Inr sample_version
   \<and> final_db (register_version (\<lambda>x. x) 5 1 2 (Some 1)) sample_registry = sample_registered"
  using register_exact [OF sample_registry_ok, of 1 5 2 "Some 1"]
  by (simp add: sample_registered_def sample_version_def registered_def sample_registry_def empty_db_def
      sample_file_def sample_run_def model_numbers_def uploaded_id_def)

lemma sample_registration_commits:
  "sample_registered \<in> set (commits (register_version (\<lambda>x. x) 5 1 2 (Some 1)) sample_registry)"
  by (simp add: register_version_def get_model_or_404_def artifacts_get_def models_create_version_def
      models_next_version_number_def insert_or_fail_def model_version_violates_def interfere_def
      prog_defs run_defs find_model_def find_artifact_def find_version_by_artifact_def find_model_version_def
      find_training_run_def sample_registered_def sample_version_def sample_registry_def empty_db_def
      sample_file_def sample_run_def model_numbers_def next_number_def max_or_none_def)

lemmas sample_registry_defs = sample_registered_def sample_version_def sample_registry_def empty_db_def
  sample_file_def sample_run_def

theorem register_exact_witness:
  "result (register_version (\<lambda>x. x) 5 1 2 (Some 1)) sample_registry = Inr sample_version"
  using register_exact [OF sample_registry_ok, of 1 5 2 "Some 1"]
  by (simp add: sample_registry_defs registered_def model_numbers_def uploaded_id_def)

definition sample_lineage :: lineage where
  "sample_lineage = lineage_of sample_registered sample_version"

lemma sample_get_lineage: "get_lineage 1 1 sample_registered = Some sample_lineage"
  by (simp add: get_lineage_def sample_lineage_def find_model_version_def sample_registered_def sample_version_def)

end
