(* ===== verification/Records.thy ===== *)
theory Records
  imports Evaluation RegistrySafety
begin

text \<open>
  What training and evaluation persist.  \<open>records_ok\<close> is the schema the migrations 0019 to 0023
  declare: primary keys and unique columns without duplicates, foreign keys resolved; a checkpoint
  or an output moreover names an UPLOADED artifact.  \<open>records_later\<close>: nothing persisted is ever
  changed or removed, except the status and completion time of an evaluation run.  The locale
  \<open>records_frame\<close> is the contract under which everything outside training and evaluation keeps
  such an invariant.
\<close>

subsection \<open>The schema\<close>

definition decision_key :: "attempt_resume_decision \<Rightarrow> uuid \<times> int" where
  "decision_key r = (rd_training_run_id r, rd_attempt_number r)"

definition result_key :: "evaluation_result \<Rightarrow> uuid \<times> string" where
  "result_key r = (ex_evaluation_run_id r, ex_example_id r)"

definition gate_result_key :: "quality_gate_result \<Rightarrow> uuid \<times> uuid" where
  "gate_result_key r = (qr_evaluation_run_id r, qr_quality_gate_id r)"

definition record_keys :: "db \<Rightarrow> bool" where
  "record_keys d \<longleftrightarrow>
     distinct (map checkpoint_key (t_checkpoints d)) \<and> distinct (map c_artifact_id (t_checkpoints d))
   \<and> distinct (map to_training_run_id (t_training_run_outputs d))
   \<and> distinct (map to_final_artifact_id (t_training_run_outputs d))
   \<and> distinct (map tm_id (t_training_metrics d))
   \<and> distinct (map decision_key (t_attempt_resume_decisions d))
   \<and> distinct (map ec_id (t_evaluation_configs d)) \<and> distinct (map er_id (t_evaluation_runs d))
   \<and> distinct (map result_key (t_evaluation_results d))
   \<and> distinct (map evaluation_metric_key (t_evaluation_metrics d))
   \<and> distinct (map qg_id (t_quality_gates d)) \<and> distinct (map qr_id (t_quality_gate_results d))
   \<and> distinct (map gate_result_key (t_quality_gate_results d))"

definition evaluation_run_ok :: "db \<Rightarrow> evaluation_run \<Rightarrow> bool" where
  "evaluation_run_ok d e \<longleftrightarrow>
     er_evaluation_config_id e \<in> ec_id ` set (t_evaluation_configs d)
   \<and> er_job_id e \<in> j_id ` set (t_jobs d)
   \<and> has_model_version (er_model_id e) (er_model_version_number e) d
   \<and> has_dataset_version (er_dataset_id e) (er_dataset_version_number e) d
   \<and> (\<forall>mid. er_baseline_model_id e = Some mid \<longrightarrow>
        (\<exists>n. er_baseline_model_version_number e = Some n \<and> has_model_version mid n d))
   \<and> er_status e \<in> {QUEUED, RUNNING, SUCCEEDED, FAILED}
   \<and> (er_completed_at e \<noteq> None \<longleftrightarrow> er_status e = SUCCEEDED)"

definition record_refs :: "db \<Rightarrow> bool" where
  "record_refs d \<longleftrightarrow>
     (\<forall>c \<in> set (t_checkpoints d). c_training_run_id c \<in> tr_id ` set (t_training_runs d) \<and> uploaded_id (c_artifact_id c) d)
   \<and> (\<forall>x \<in> set (t_training_run_outputs d).
        to_training_run_id x \<in> tr_id ` set (t_training_runs d) \<and> uploaded_id (to_final_artifact_id x) d)
   \<and> (\<forall>m \<in> set (t_training_metrics d). tm_training_run_id m \<in> tr_id ` set (t_training_runs d))
   \<and> (\<forall>r \<in> set (t_attempt_resume_decisions d). rd_training_run_id r \<in> tr_id ` set (t_training_runs d))
   \<and> (\<forall>e \<in> set (t_evaluation_runs d). evaluation_run_ok d e)
   \<and> (\<forall>r \<in> set (t_evaluation_results d). ex_evaluation_run_id r \<in> er_id ` set (t_evaluation_runs d))
   \<and> (\<forall>m \<in> set (t_evaluation_metrics d). em_evaluation_run_id m \<in> er_id ` set (t_evaluation_runs d))
   \<and> (\<forall>r \<in> set (t_quality_gate_results d). qr_evaluation_run_id r \<in> er_id ` set (t_evaluation_runs d)
        \<and> qr_quality_gate_id r \<in> qg_id ` set (t_quality_gates d))"

definition records_ok :: "db \<Rightarrow> bool" where
  "records_ok d \<longleftrightarrow> record_keys d \<and> record_refs d"

definition same_run :: "evaluation_run \<Rightarrow> evaluation_run \<Rightarrow> bool" where
  "same_run e e' \<longleftrightarrow> e'\<lparr>er_status := er_status e, er_completed_at := er_completed_at e\<rparr> = e"

definition records_later :: "db \<Rightarrow> db \<Rightarrow> bool" where
  "records_later d0 d \<longleftrightarrow>
     set (t_checkpoints d0) \<subseteq> set (t_checkpoints d)
   \<and> set (t_training_run_outputs d0) \<subseteq> set (t_training_run_outputs d)
   \<and> set (t_training_metrics d0) \<subseteq> set (t_training_metrics d)
   \<and> set (t_attempt_resume_decisions d0) \<subseteq> set (t_attempt_resume_decisions d)
   \<and> set (t_evaluation_configs d0) \<subseteq> set (t_evaluation_configs d)
   \<and> set (t_evaluation_results d0) \<subseteq> set (t_evaluation_results d)
   \<and> set (t_evaluation_metrics d0) \<subseteq> set (t_evaluation_metrics d)
   \<and> set (t_quality_gates d0) \<subseteq> set (t_quality_gates d)
   \<and> set (t_quality_gate_results d0) \<subseteq> set (t_quality_gate_results d)
   \<and> (\<forall>e \<in> set (t_evaluation_runs d0). \<exists>e' \<in> set (t_evaluation_runs d). same_run e e')"

definition records_inv :: "db \<Rightarrow> db \<Rightarrow> bool" where
  "records_inv d0 d \<longleftrightarrow> records_ok d \<and> records_later d0 d"

lemma same_run_refl [simp]: "same_run e e"
  by (simp add: same_run_def)

lemma same_run_trans: "same_run e f \<Longrightarrow> same_run f g \<Longrightarrow> same_run e g"
  by (cases e; cases f; cases g) (simp add: same_run_def)

lemma same_run_id: "same_run e e' \<Longrightarrow> er_id e' = er_id e"
  by (cases e; cases e') (simp add: same_run_def)

lemma records_later_refl [simp]: "records_later d d"
  by (auto simp: records_later_def intro: same_run_refl)

lemma records_later_trans: "records_later a b \<Longrightarrow> records_later b c \<Longrightarrow> records_later a c"
  unfolding records_later_def by (elim conjE, intro conjI; (erule subset_trans, assumption | metis same_run_trans))

lemma run_ids_later: "records_later d d' \<Longrightarrow> er_id ` set (t_evaluation_runs d) \<subseteq> er_id ` set (t_evaluation_runs d')"
  unfolding records_later_def using same_run_id by (metis (no_types, lifting) image_iff image_subsetI)

subsection \<open>The frame\<close>

text \<open>What the rest of the platform may change: the tables of training and evaluation stay, and what
  their rows refer to stays there.\<close>

definition same_records :: "db \<Rightarrow> db \<Rightarrow> bool" where
  "same_records d d' \<longleftrightarrow>
     t_checkpoints d' = t_checkpoints d \<and> t_training_metrics d' = t_training_metrics d
   \<and> t_training_run_outputs d' = t_training_run_outputs d
   \<and> t_attempt_resume_decisions d' = t_attempt_resume_decisions d
   \<and> t_evaluation_configs d' = t_evaluation_configs d \<and> t_evaluation_runs d' = t_evaluation_runs d
   \<and> t_evaluation_results d' = t_evaluation_results d \<and> t_evaluation_metrics d' = t_evaluation_metrics d
   \<and> t_quality_gates d' = t_quality_gates d \<and> t_quality_gate_results d' = t_quality_gate_results d"

definition refs_later :: "db \<Rightarrow> db \<Rightarrow> bool" where
  "refs_later d d' \<longleftrightarrow>
     j_id ` set (t_jobs d) \<subseteq> j_id ` set (t_jobs d')
   \<and> set (t_training_runs d) \<subseteq> set (t_training_runs d')
   \<and> set (t_model_versions d) \<subseteq> set (t_model_versions d')
   \<and> set (t_dataset_versions d) \<subseteq> set (t_dataset_versions d')
   \<and> {a \<in> set (t_artifacts d). f_status a = AUploaded} \<subseteq> {a \<in> set (t_artifacts d'). f_status a = AUploaded}"

lemma refs_later_keys:
  assumes "refs_later d d'"
  shows "x \<in> j_id ` set (t_jobs d) \<Longrightarrow> x \<in> j_id ` set (t_jobs d')"
    and "y \<in> tr_id ` set (t_training_runs d) \<Longrightarrow> y \<in> tr_id ` set (t_training_runs d')"
    and "has_model_version p n d \<Longrightarrow> has_model_version p n d'"
    and "has_dataset_version p n d \<Longrightarrow> has_dataset_version p n d'"
    and "uploaded_id aid d \<Longrightarrow> uploaded_id aid d'"
  using assms unfolding refs_later_def has_model_version_def has_dataset_version_def uploaded_id_def by blast+

locale records_frame =
  fixes K :: "db \<Rightarrow> bool"
  assumes frame: "\<And>d d'. K d \<Longrightarrow> same_records d d' \<Longrightarrow> refs_later d d' \<Longrightarrow> K d'"
begin

lemma interfere: "(\<And>d. K d \<Longrightarrow> K (others d)) \<Longrightarrow> keeps K (interfere others)"
  by (simp add: keeps_def kept_def interfere_def durable_ok_def)

lemma frame_insert:
  "(\<And>d. same_records d (ins d) \<and> refs_later d (ins d)) \<Longrightarrow> keeps K (insert_or_fail violates ins)"
  unfolding insert_or_fail_def by (intro keeps_intros keeps_execute) (blast intro: frame)

end

sublocale records_frame \<subseteq> jf: job_frame K
  by unfold_locales (erule frame; auto simp: same_outside_def same_records_def refs_later_def)

sublocale records_frame \<subseteq> af: artifact_frame K
proof unfold_locales
  fix p :: "artifact \<Rightarrow> bool" and f :: "artifact \<Rightarrow> artifact" and d :: db
  assume "K d" and pend: "\<And>a. p a \<Longrightarrow> f_status a = APending" and "\<And>a. f_id (f a) = f_id (a :: artifact)"
  have "a \<in> set (sql_update p f (t_artifacts d))" if "a \<in> set (t_artifacts d)" "f_status a = AUploaded" for a
    using that pend [of a] by (auto simp: in_sql_update_iff intro!: bexI [of _ a])
  then show "K (d\<lparr>t_artifacts := sql_update p f (t_artifacts d)\<rparr>)"
    by (intro frame [OF \<open>K d\<close>]) (auto simp: same_records_def refs_later_def)
next
  fix d :: db and a :: artifact
  assume "K d"
  then show "K (d\<lparr>t_artifacts := t_artifacts d @ [a]\<rparr>)"
    by (rule frame) (auto simp: same_records_def refs_later_def)
qed

context records_frame begin

lemma upload:
  assumes "\<And>d. K d \<Longrightarrow> K (others d)"
  shows "keeps K (upload_artifact cfg hb put go others now later data ty u job att)"
  unfolding triple_keeps [symmetric] by (rule triple_weaken [OF af.upload [OF assms]]) simp_all

lemma datasets_create: "keeps K (datasets_create now name description)"
  unfolding datasets_create_def
  by (intro keeps_intros frame_insert) (simp_all add: same_records_def refs_later_def)

lemma models_create: "keeps K (models_create now name description)"
  unfolding models_create_def
  by (intro keeps_intros frame_insert) (simp_all add: same_records_def refs_later_def)

lemma create_dataset_version:
  assumes "\<And>d. K d \<Longrightarrow> K (others d)"
  shows "keeps K (create_dataset_version cfg hb put go others now later p data u)"
  unfolding create_dataset_version_def get_dataset_or_404_def datasets_create_version_def
    datasets_next_version_number_def
  by (intro keeps_intros upload frame_insert interfere assms) (auto simp: same_records_def refs_later_def)

lemma register_version:
  assumes "\<And>d. K d \<Longrightarrow> K (others d)"
  shows "keeps K (register_version others now p aid rid)"
  unfolding register_version_def get_model_or_404_def artifacts_get_def models_create_version_def
    models_next_version_number_def
  by (intro keeps_intros frame_insert interfere assms) (auto simp: same_records_def refs_later_def)

lemma create_training_run:
  assumes "\<And>d. K d \<Longrightarrow> K (others d)"
  shows "keeps K (create_training_run others now p)"
  unfolding create_training_run_def training_runs_create_def
  by (intro keeps_intros frame_insert interfere jf.create_job assms) (auto simp: same_records_def refs_later_def)

end

subsection \<open>Fenced writes keep the schema\<close>

lemma triple_insert_select:
  assumes "\<And>d. P d \<Longrightarrow> I d"
    and "\<And>d. P d \<Longrightarrow> fence d \<Longrightarrow> \<not> conflict d \<Longrightarrow> \<not> violates d \<Longrightarrow> I (ins d)"
  shows "triple I P (insert_select fence conflict violates ins) (\<lambda>_. I)"
  using assms by (auto simp: triple_def insert_select_def prog_defs durable_ok_def)

text \<open>What the executors bring to a write: an UPLOADED artifact, a status they write.\<close>

fun write_ok :: "fenced_write \<Rightarrow> db \<Rightarrow> bool" where
  "write_ok (WCheckpoint c) d = uploaded_id (c_artifact_id c) d"
| "write_ok (WOutput out) d = uploaded_id (to_final_artifact_id out) d"
| "write_ok (WStatus now rid status set_completed) d =
     (status \<in> {RUNNING, SUCCEEDED, FAILED} \<and> (set_completed \<longleftrightarrow> status = SUCCEEDED))"
| "write_ok _ d = True"

lemmas records_defs = records_inv_def records_ok_def record_keys_def record_refs_def

lemma has_training_run_iff: "has_training_run rid d \<longleftrightarrow> rid \<in> tr_id ` set (t_training_runs d)"
  by (simp add: has_training_run_def find_None)

lemma has_evaluation_run_iff: "has_evaluation_run rid d \<longleftrightarrow> rid \<in> er_id ` set (t_evaluation_runs d)"
  by (auto simp: has_evaluation_run_def sql_exists_iff)

lemma evaluation_run_ok_mono:
  "evaluation_run_ok d e \<Longrightarrow> refs_later d d' \<Longrightarrow> set (t_evaluation_configs d) \<subseteq> set (t_evaluation_configs d') \<Longrightarrow>
   evaluation_run_ok d' e"
  unfolding evaluation_run_ok_def by (meson image_mono refs_later_keys subsetD)

text \<open>Statements that do not touch what the rows refer to.\<close>

lemma refs_same [simp]:
  "evaluation_run_ok (d\<lparr>t_checkpoints := x0\<rparr>) = evaluation_run_ok d"
  "evaluation_run_ok (d\<lparr>t_training_metrics := x1\<rparr>) = evaluation_run_ok d"
  "evaluation_run_ok (d\<lparr>t_training_run_outputs := x2\<rparr>) = evaluation_run_ok d"
  "evaluation_run_ok (d\<lparr>t_attempt_resume_decisions := x3\<rparr>) = evaluation_run_ok d"
  "evaluation_run_ok (d\<lparr>t_evaluation_runs := x4\<rparr>) = evaluation_run_ok d"
  "evaluation_run_ok (d\<lparr>t_evaluation_results := x5\<rparr>) = evaluation_run_ok d"
  "evaluation_run_ok (d\<lparr>t_evaluation_metrics := x6\<rparr>) = evaluation_run_ok d"
  "evaluation_run_ok (d\<lparr>t_quality_gates := x7\<rparr>) = evaluation_run_ok d"
  "evaluation_run_ok (d\<lparr>t_quality_gate_results := x8\<rparr>) = evaluation_run_ok d"
  "uploaded_id aid (d\<lparr>t_checkpoints := y0\<rparr>) = uploaded_id aid d"
  "uploaded_id aid (d\<lparr>t_training_metrics := y1\<rparr>) = uploaded_id aid d"
  "uploaded_id aid (d\<lparr>t_training_run_outputs := y2\<rparr>) = uploaded_id aid d"
  "uploaded_id aid (d\<lparr>t_attempt_resume_decisions := y3\<rparr>) = uploaded_id aid d"
  "uploaded_id aid (d\<lparr>t_evaluation_runs := y4\<rparr>) = uploaded_id aid d"
  "uploaded_id aid (d\<lparr>t_evaluation_results := y5\<rparr>) = uploaded_id aid d"
  "uploaded_id aid (d\<lparr>t_evaluation_metrics := y6\<rparr>) = uploaded_id aid d"
  "uploaded_id aid (d\<lparr>t_quality_gates := y7\<rparr>) = uploaded_id aid d"
  "uploaded_id aid (d\<lparr>t_quality_gate_results := y8\<rparr>) = uploaded_id aid d"
  "uploaded_id aid (d\<lparr>t_evaluation_configs := y9\<rparr>) = uploaded_id aid d"
  by (simp_all add: fun_eq_iff evaluation_run_ok_def uploaded_id_def has_model_version_def has_dataset_version_def)

lemmas insert_simps = records_defs records_later_def sql_exists_iff has_training_run_iff has_evaluation_run_iff

lemma keeps_checkpoint_row:
  "records_inv d0 d \<Longrightarrow> \<not> checkpoint_violates c d \<Longrightarrow> uploaded_id (c_artifact_id c) d \<Longrightarrow>
   records_inv d0 (d\<lparr>t_checkpoints := t_checkpoints d @ [c]\<rparr>)"
  by (auto simp: insert_simps checkpoint_violates_def)

lemma keeps_output_row:
  "records_inv d0 d \<Longrightarrow> \<not> output_violates x d \<Longrightarrow> uploaded_id (to_final_artifact_id x) d \<Longrightarrow>
   records_inv d0 (d\<lparr>t_training_run_outputs := t_training_run_outputs d @ [x]\<rparr>)"
  by (auto simp: insert_simps output_violates_def)

lemma keeps_decision_row:
  "records_inv d0 d \<Longrightarrow> \<not> decision_violates r d \<Longrightarrow>
   records_inv d0 (d\<lparr>t_attempt_resume_decisions := t_attempt_resume_decisions d @ [r]\<rparr>)"
  by (auto simp: insert_simps decision_violates_def decision_key_def)

lemma keeps_training_metric_row:
  "records_inv d0 d \<Longrightarrow> has_training_run (tm_training_run_id m) d \<Longrightarrow> tm_id m \<notin> tm_id ` set (t_training_metrics d) \<Longrightarrow>
   records_inv d0 (d\<lparr>t_training_metrics := t_training_metrics d @ [m]\<rparr>)"
  by (auto simp: insert_simps)

lemma keeps_result_row:
  "records_inv d0 d \<Longrightarrow> has_evaluation_run (ex_evaluation_run_id r) d \<Longrightarrow> result_key r \<notin> result_key ` set (t_evaluation_results d) \<Longrightarrow>
   records_inv d0 (d\<lparr>t_evaluation_results := t_evaluation_results d @ [r]\<rparr>)"
  by (auto simp: insert_simps)

lemma keeps_metric_row:
  "records_inv d0 d \<Longrightarrow> has_evaluation_run (em_evaluation_run_id m) d \<Longrightarrow>
   evaluation_metric_key m \<notin> evaluation_metric_key ` set (t_evaluation_metrics d) \<Longrightarrow>
   records_inv d0 (d\<lparr>t_evaluation_metrics := t_evaluation_metrics d @ [m]\<rparr>)"
  by (auto simp: insert_simps)

lemma same_run_status: "same_run e (e\<lparr>er_status := st, er_completed_at := c\<rparr>)"
  by (simp add: same_run_def)

lemma keeps_status:
  assumes "records_inv d0 d" and "st \<in> {RUNNING, SUCCEEDED, FAILED}" and "c \<noteq> None \<longleftrightarrow> st = SUCCEEDED"
  shows "records_inv d0 (d\<lparr>t_evaluation_runs := sql_update p (\<lambda>e. e\<lparr>er_status := st, er_completed_at := c\<rparr>)
     (t_evaluation_runs d)\<rparr>)"
proof -
  let ?f = "\<lambda>e. e\<lparr>er_status := st, er_completed_at := c\<rparr>"
  let ?t = "sql_update p ?f (t_evaluation_runs d)"
  have ids: "map er_id ?t = map er_id (t_evaluation_runs d)" by (rule map_sql_update_key) simp
  then have id_set: "er_id ` set ?t = er_id ` set (t_evaluation_runs d)" by (metis set_map)
  have ok: "evaluation_run_ok d e" if "e \<in> set (t_evaluation_runs d)" for e
    using that assms(1) by (simp add: records_defs)
  have upd: "evaluation_run_ok d (?f e)" if "evaluation_run_ok d e" for e
    using that assms(2,3) by (simp add: evaluation_run_ok_def)
  have "evaluation_run_ok d e" if "e \<in> set ?t" for e
    using that ok upd by (fastforce simp: sql_update_def)
  moreover have "\<exists>e' \<in> set ?t. same_run e e'" if "e \<in> set (t_evaluation_runs d)" for e
  proof (cases "p e")
    case True
    with that have "?f e \<in> set ?t" by (auto simp: in_sql_update_iff)
    then show ?thesis using same_run_status by blast
  next
    case False
    with that have "e \<in> set ?t" by (auto simp: in_sql_update_iff)
    then show ?thesis using same_run_refl by blast
  qed
  ultimately show ?thesis
    using assms(1) by (simp add: insert_simps ids id_set) (meson same_run_trans)
qed

lemma triple_mark_status:
  assumes "st \<in> {RUNNING, SUCCEEDED, FAILED}" and "completed \<longleftrightarrow> st = SUCCEEDED"
  shows "triple (records_inv d0) (records_inv d0) (mark_status now rid st completed jid wk n) (\<lambda>_. records_inv d0)"
proof -
  let ?f = "\<lambda>d. d\<lparr>t_evaluation_runs := sql_update (\<lambda>e. er_id e = rid)
    (\<lambda>e. e\<lparr>er_status := st, er_completed_at := if completed then Some now else None\<rparr>) (t_evaluation_runs d)\<rparr>"
  have "keeps (records_inv d0) (execute ?f)"
    by (rule keeps_execute) (rule keeps_status, assumption, use assms in auto)
  then show ?thesis
    unfolding mark_status_def triple_keeps do_if_def by (intro keeps_intros)
qed

lemma triple_perform:
  "triple (records_inv d0) (\<lambda>d. records_inv d0 d \<and> write_ok w d) (perform w jid wk n) (\<lambda>_. records_inv d0)"
proof (cases w)
  case (WCheckpoint c)
  show ?thesis
    unfolding WCheckpoint perform.simps write_ok.simps checkpoints_register_def
    by (rule triple_insert_select) (blast intro: keeps_checkpoint_row)+
next
  case (WTrainingMetric m)
  have "records_inv d0 (d\<lparr>t_training_metrics := t_training_metrics d @ [m\<lparr>tm_id := fresh_id (map tm_id (t_training_metrics d))\<rparr>]\<rparr>)"
    if "records_inv d0 d" "has_training_run (tm_training_run_id m) d" for d
    by (rule keeps_training_metric_row) (use that in simp_all)
  then show ?thesis
    unfolding WTrainingMetric perform.simps write_ok.simps training_metrics_record_def
    by (intro triple_insert_select) blast+
next
  case (WOutput out)
  show ?thesis
    unfolding WOutput perform.simps write_ok.simps outputs_register_def
    by (rule triple_insert_select) (blast intro: keeps_output_row)+
next
  case (WResumeDecision r)
  show ?thesis
    unfolding WResumeDecision perform.simps write_ok.simps resume_decisions_record_def
    by (rule triple_insert_select) (blast intro: keeps_decision_row)+
next
  case (WResult r)
  have "records_inv d0 (d\<lparr>t_evaluation_results := t_evaluation_results d @ [r]\<rparr>)"
    if "records_inv d0 d" "has_evaluation_run (ex_evaluation_run_id r) d"
      "\<not> sql_exists (\<lambda>x. ex_evaluation_run_id x = ex_evaluation_run_id r \<and> ex_example_id x = ex_example_id r) (t_evaluation_results d)" for d
    by (rule keeps_result_row) (use that in \<open>auto simp: sql_exists_iff result_key_def\<close>)
  then show ?thesis
    unfolding WResult perform.simps write_ok.simps evaluation_results_record_def
    by (intro triple_insert_select) blast+
next
  case (WMetric m)
  have "records_inv d0 (d\<lparr>t_evaluation_metrics := t_evaluation_metrics d @ [m]\<rparr>)"
    if "records_inv d0 d" "has_evaluation_run (em_evaluation_run_id m) d"
      "\<not> sql_exists (\<lambda>x. evaluation_metric_key x = evaluation_metric_key m) (t_evaluation_metrics d)" for d
    by (rule keeps_metric_row) (use that in \<open>auto simp: sql_exists_iff image_iff\<close>)
  then show ?thesis
    unfolding WMetric perform.simps write_ok.simps evaluation_metrics_record_def
    by (intro triple_insert_select) blast+
next
  case (WStatus now rid st completed)
  show ?thesis
    unfolding WStatus perform.simps
    by (rule triple_pre [where c = "write_ok (WStatus now rid st completed) empty_db"], simp,
        rule triple_weaken [OF triple_mark_status]) simp_all
qed

end
