(* ===== verification/System.thy ===== *)
theory System
  imports Records
begin

text \<open>
  The whole platform: job transactions, uploads and reconciliation, the registry, the fenced
  writes of the executors, the evaluation services.  \<open>system_step\<close> is one operation of any of
  them stopped at any commit; what the other processes commit in the middle of an operation is
  itself a run of the system.  Every state it reaches satisfies the declared schema, and what was
  persisted is never changed.
\<close>

definition system_inv :: "db \<Rightarrow> db \<Rightarrow> bool" where
  "system_inv d0 d \<longleftrightarrow> registry_inv d0 d \<and> records_inv d0 d"

definition system_ok :: "db \<Rightarrow> bool" where
  "system_ok d \<longleftrightarrow> registry_ok d \<and> records_ok d"

lemma system_inv_refl: "system_ok d \<Longrightarrow> system_inv d d"
  by (simp add: system_ok_def system_inv_def registry_inv_def records_inv_def)

lemma system_inv_ok: "system_inv d0 d \<Longrightarrow> system_ok d"
  by (simp add: system_ok_def system_inv_def registry_inv_def records_inv_def)

subsection \<open>What is outside training and evaluation keeps the records\<close>

interpretation rec: records_frame "records_inv d0" for d0
proof unfold_locales
  fix d d' assume inv: "records_inv d0 d" and same: "same_records d d'" and refs: "refs_later d d'"
  note keys = refs_later_keys [OF refs]
  have "evaluation_run_ok d' e" if "evaluation_run_ok d e" for e
    using that refs by (rule evaluation_run_ok_mono) (use same in \<open>simp add: same_records_def\<close>)
  then have "record_refs d'"
    using inv same keys by (simp add: records_defs same_records_def)
  with inv same show "records_inv d0 d'"
    by (simp add: records_inv_def records_ok_def record_keys_def records_later_def same_records_def)
qed

subsection \<open>What training and evaluation write keeps the registry\<close>

lemma registry_execute:
  "(\<And>d. same_registry d (f d) \<and> t_artifacts (f d) = t_artifacts d \<and> t_jobs (f d) = t_jobs d) \<Longrightarrow>
   keeps (registry_inv d0) (execute f)"
  by (rule keeps_execute) (rule registry_frame, assumption, simp_all)

lemma registry_insert_select:
  "(\<And>d. same_registry d (ins d) \<and> t_artifacts (ins d) = t_artifacts d \<and> t_jobs (ins d) = t_jobs d) \<Longrightarrow>
   keeps (registry_inv d0) (insert_select fence conflict violates ins)"
  unfolding insert_select_def do_if_def by (intro keeps_intros registry_execute)

lemma registry_perform: "keeps (registry_inv d0) (perform w jid wk n)"
  by (cases w)
     (simp_all add: checkpoints_register_def training_metrics_record_def outputs_register_def
       resume_decisions_record_def evaluation_results_record_def evaluation_metrics_record_def
       registry_insert_select mark_status_def do_if_def keeps_intros registry_execute)

subsection \<open>The evaluation services\<close>

lemma keeps_config_row:
  assumes "records_inv d0 d" and "ec_id x \<notin> ec_id ` set (t_evaluation_configs d)"
  shows "records_inv d0 (d\<lparr>t_evaluation_configs := t_evaluation_configs d @ [x]\<rparr>)"
proof -
  let ?d = "d\<lparr>t_evaluation_configs := t_evaluation_configs d @ [x]\<rparr>"
  have "evaluation_run_ok ?d e" if "evaluation_run_ok d e" for e
    using that by (rule evaluation_run_ok_mono) (auto simp: refs_later_def)
  then show ?thesis using assms by (auto simp: records_defs records_later_def)
qed

lemma keeps_create_evaluation_config:
  "keeps (registry_inv d0) (create_evaluation_config now p)"
  "keeps (records_inv d0) (create_evaluation_config now p)"
proof -
  show "keeps (registry_inv d0) (create_evaluation_config now p)"
    unfolding create_evaluation_config_def by (intro keeps_intros registry_execute) simp_all
  show "keeps (records_inv d0) (create_evaluation_config now p)"
    unfolding create_evaluation_config_def
    by (auto simp: keeps_def kept_def durable_ok_def prog_defs new_evaluation_config_def
        intro!: keeps_config_row dest: fresh_id_newD)
qed

lemma keeps_gate_row:
  "records_inv d0 d \<Longrightarrow> qg_id x \<notin> qg_id ` set (t_quality_gates d) \<Longrightarrow>
   records_inv d0 (d\<lparr>t_quality_gates := t_quality_gates d @ [x]\<rparr>)"
  by (auto simp: records_defs records_later_def)

lemma keeps_create_quality_gate:
  "keeps (registry_inv d0) (create_quality_gate now name rules)"
  "keeps (records_inv d0) (create_quality_gate now name rules)"
proof -
  show "keeps (registry_inv d0) (create_quality_gate now name rules)"
    unfolding create_quality_gate_def by (intro keeps_intros registry_execute) simp_all
  show "keeps (records_inv d0) (create_quality_gate now name rules)"
    unfolding create_quality_gate_def
    by (auto simp: keeps_def kept_def durable_ok_def prog_defs intro!: keeps_gate_row dest: fresh_id_newD)
qed

lemma keeps_evaluation_run_row:
  assumes "records_inv d0 d" and "er_id e \<notin> er_id ` set (t_evaluation_runs d)" and "evaluation_run_ok d e"
  shows "records_inv d0 (d\<lparr>t_evaluation_runs := t_evaluation_runs d @ [e]\<rparr>)"
  using assms by (auto simp: records_defs records_later_def)

lemma find_evaluation_keys:
  "find_evaluation_config cid d = None \<longleftrightarrow> cid \<notin> ec_id ` set (t_evaluation_configs d)"
  "sql_exists (\<lambda>j. j_id j = jid) (t_jobs d) \<longleftrightarrow> jid \<in> j_id ` set (t_jobs d)"
  by (auto simp: find_evaluation_config_def sql_one_None_iff sql_exists_iff)

text \<open>What every invariant needs of the two kinds of operation with interference.\<close>

lemma keeps_wait: "(\<And>d. I d \<Longrightarrow> I (others d)) \<Longrightarrow> keeps I (interfere others)"
  by (simp add: keeps_def kept_def interfere_def durable_ok_def)

lemma keeps_query_checked: "keeps I (query_checked f)"
  by (simp add: keeps_def kept_def query_checked_def)

lemma create_evaluation_by_parts:
  assumes job: "\<And>jc. keeps I (create_job now jc)" and others: "\<And>d. I d \<Longrightarrow> I (others d)"
    and run: "\<And>e. er_status e = QUEUED \<Longrightarrow> er_completed_at e = None \<Longrightarrow>
      er_baseline_model_id e \<noteq> None \<longrightarrow> er_baseline_model_version_number e \<noteq> None \<Longrightarrow> keeps I (evaluation_runs_create e)"
  shows "keeps I (create_evaluation others now p)"
proof -
  have rest: "keeps I (bind (create_job now jc) (\<lambda>j. bind (interfere others) (\<lambda>_.
      evaluation_runs_create (new_evaluation_run now (j_id j) config p))))"
    if "ev_baseline_model_id p \<noteq> None \<longrightarrow> ev_baseline_model_version_number p \<noteq> None" for jc config
    by (intro keeps_intros job keeps_wait others run) (use that in \<open>simp_all add: new_evaluation_run_def\<close>)
  have pre: "triple I I
      (query (base_version_missing (ev_baseline_model_id p) (ev_baseline_model_version_number p)))
      (\<lambda>m d. I d \<and> (\<not> m \<longrightarrow> ev_baseline_model_id p \<noteq> None \<longrightarrow> ev_baseline_model_version_number p \<noteq> None))"
    by (rule triple_query) (auto simp: base_version_missing_def split: option.splits)
  have tail: "keeps I (bind (query (base_version_missing (ev_baseline_model_id p)
        (ev_baseline_model_version_number p))) (\<lambda>missing. if missing then raise (HTTPException 404)
      else bind (create_job now jc) (\<lambda>j. bind (interfere others) (\<lambda>_.
        evaluation_runs_create (new_evaluation_run now (j_id j) config p)))))" for jc config
    unfolding triple_keeps [symmetric]
    by (rule triple_bind [OF pre], rule triple_if [OF triple_raise],
        rule triple_pre [where c = "ev_baseline_model_id p \<noteq> None \<longrightarrow> ev_baseline_model_version_number p \<noteq> None"],
        simp, rule triple_weaken [OF rest [unfolded triple_keeps [symmetric]]], auto)
  show ?thesis
    unfolding create_evaluation_def get_evaluation_config_or_404_def artifacts_get_def
    by (intro keeps_intros tail)
qed

lemma evaluation_run_row_ok:
  assumes "\<not> evaluation_run_violates e d" "er_status e = QUEUED" "er_completed_at e = None"
    and "er_baseline_model_id e \<noteq> None \<longrightarrow> er_baseline_model_version_number e \<noteq> None"
  shows "evaluation_run_ok d e"
  using assms by (auto simp: evaluation_run_ok_def evaluation_run_violates_def find_None find_evaluation_keys)

lemma keeps_create_evaluation:
  "(\<And>d. registry_inv d0 d \<Longrightarrow> registry_inv d0 (others d)) \<Longrightarrow> keeps (registry_inv d0) (create_evaluation others now p)"
  "(\<And>d. records_inv d0 d \<Longrightarrow> records_inv d0 (others d)) \<Longrightarrow> keeps (records_inv d0) (create_evaluation others now p)"
proof -
  have "keeps (registry_inv d0) (evaluation_runs_create e)" for e
    unfolding evaluation_runs_create_def insert_or_fail_def
    by (intro keeps_intros registry_execute) simp_all
  then show "(\<And>d. registry_inv d0 d \<Longrightarrow> registry_inv d0 (others d)) \<Longrightarrow> keeps (registry_inv d0) (create_evaluation others now p)"
    by (intro create_evaluation_by_parts reg.create_job)
  have "keeps (records_inv d0) (evaluation_runs_create e)"
    if "er_status e = QUEUED" "er_completed_at e = None"
      "er_baseline_model_id e \<noteq> None \<longrightarrow> er_baseline_model_version_number e \<noteq> None" for e
  proof -
    have "evaluation_run_ok d (e\<lparr>er_id := k\<rparr>)" if "\<not> evaluation_run_violates (e\<lparr>er_id := k\<rparr>) d" for d k
      using that \<open>er_status e = QUEUED\<close> \<open>er_completed_at e = None\<close>
        \<open>er_baseline_model_id e \<noteq> None \<longrightarrow> er_baseline_model_version_number e \<noteq> None\<close>
      by (intro evaluation_run_row_ok) simp_all
    then show ?thesis
      unfolding evaluation_runs_create_def insert_or_fail_def
      by (auto simp: keeps_def kept_def durable_ok_def prog_defs intro!: keeps_evaluation_run_row dest: fresh_id_newD)
  qed
  then show "(\<And>d. records_inv d0 d \<Longrightarrow> records_inv d0 (others d)) \<Longrightarrow> keeps (records_inv d0) (create_evaluation others now p)"
    by (intro create_evaluation_by_parts rec.jf.create_job)
qed

lemma keeps_gate_result_row:
  "records_inv d0 d \<Longrightarrow> qr_evaluation_run_id r \<in> er_id ` set (t_evaluation_runs d) \<Longrightarrow>
   qr_quality_gate_id r \<in> qg_id ` set (t_quality_gates d) \<Longrightarrow> qr_id r \<notin> qr_id ` set (t_quality_gate_results d) \<Longrightarrow>
   gate_result_key r \<notin> gate_result_key ` set (t_quality_gate_results d) \<Longrightarrow>
   records_inv d0 (d\<lparr>t_quality_gate_results := t_quality_gate_results d @ [r]\<rparr>)"
  by (auto simp: records_defs records_later_def)

lemma keeps_gate_results_record:
  "keeps (registry_inv d0) (gate_results_record now rid gid st rr)"
  "keeps (records_inv d0) (gate_results_record now rid gid st rr)"
proof -
  show "keeps (registry_inv d0) (gate_results_record now rid gid st rr)"
    unfolding gate_results_record_def by (intro keeps_intros registry_insert_select) simp_all
  have row: "records_inv d0 (d\<lparr>t_quality_gate_results := t_quality_gate_results d @
      [\<lparr>qr_id = fresh_id (map qr_id (t_quality_gate_results d)), qr_evaluation_run_id = rid,
        qr_quality_gate_id = gid, qr_status = st, qr_rule_results = JArr rr, qr_evaluated_at = now\<rparr>]\<rparr>)"
    if "records_inv d0 d" "run_succeeded rid d" "\<not> find_gate_result rid gid d \<noteq> None"
      "\<not> find_quality_gate gid d = None" for d
    using that
    by (intro keeps_gate_result_row)
       (auto simp: run_succeeded_def sql_exists_iff find_gate_result_def find_quality_gate_def
         sql_one_None_iff gate_result_key_def dest: sql_one_SomeD)
  show "keeps (records_inv d0) (gate_results_record now rid gid st rr)"
    unfolding gate_results_record_def
    by (intro keeps_intros, unfold triple_keeps [symmetric], rule triple_insert_select) (assumption, rule row)
qed

lemma keeps_evaluate_quality_gate:
  "(\<And>d. registry_inv d0 d \<Longrightarrow> registry_inv d0 (others d)) \<Longrightarrow> keeps (registry_inv d0) (evaluate_quality_gate others now rid gid)"
  "(\<And>d. records_inv d0 d \<Longrightarrow> records_inv d0 (others d)) \<Longrightarrow> keeps (records_inv d0) (evaluate_quality_gate others now rid gid)"
  unfolding evaluate_quality_gate_def record_verdict_def get_evaluation_or_404_def get_quality_gate_or_404_def
  by (intro keeps_intros keeps_query_checked keeps_wait keeps_gate_results_record, assumption?)+

subsection \<open>The steps of the system\<close>

inductive system_step :: "settings \<Rightarrow> db \<Rightarrow> db \<Rightarrow> bool" for cfg :: settings where
  job: "txn cfg d d' \<Longrightarrow> system_step cfg d d'"
| upload: "(\<And>x. (system_step cfg)\<^sup>*\<^sup>* x (others x)) \<Longrightarrow>
    d' \<in> set (commits (upload_artifact cfg hb put go others now later data ty u job att) d) \<Longrightarrow> system_step cfg d d'"
| reconcile: "d' \<in> set (commits (reconcile_pending_artifacts cfg hb go now) d) \<Longrightarrow> system_step cfg d d'"
| dataset: "d' \<in> set (commits (datasets_create now name description) d) \<Longrightarrow> system_step cfg d d'"
| dataset_version: "(\<And>x. (system_step cfg)\<^sup>*\<^sup>* x (others x)) \<Longrightarrow>
    d' \<in> set (commits (create_dataset_version cfg hb put go others now later p data u) d) \<Longrightarrow> system_step cfg d d'"
| model: "d' \<in> set (commits (models_create now name description) d) \<Longrightarrow> system_step cfg d d'"
| model_version: "(\<And>x. (system_step cfg)\<^sup>*\<^sup>* x (others x)) \<Longrightarrow>
    d' \<in> set (commits (register_version others now p aid rid) d) \<Longrightarrow> system_step cfg d d'"
| training_run: "(\<And>x. (system_step cfg)\<^sup>*\<^sup>* x (others x)) \<Longrightarrow>
    d' \<in> set (commits (create_training_run others now tc) d) \<Longrightarrow> system_step cfg d d'"
| fenced: "write_ok w d \<Longrightarrow> d' \<in> set (commits (perform w jid wk n) d) \<Longrightarrow> system_step cfg d d'"
| evaluation_config: "d' \<in> set (commits (create_evaluation_config now ec) d) \<Longrightarrow> system_step cfg d d'"
| evaluation: "(\<And>x. (system_step cfg)\<^sup>*\<^sup>* x (others x)) \<Longrightarrow>
    d' \<in> set (commits (create_evaluation others now ev) d) \<Longrightarrow> system_step cfg d d'"
| gate: "d' \<in> set (commits (create_quality_gate now name rules) d) \<Longrightarrow> system_step cfg d d'"
| decision: "(\<And>x. (system_step cfg)\<^sup>*\<^sup>* x (others x)) \<Longrightarrow>
    d' \<in> set (commits (evaluate_quality_gate others now rid gid) d) \<Longrightarrow> system_step cfg d d'"

text \<open>Each of the two invariants is kept for itself, whatever the starting point of the history.\<close>

definition step_keeps :: "db \<Rightarrow> db \<Rightarrow> bool" where
  "step_keeps d d' \<longleftrightarrow> (\<forall>d0. registry_inv d0 d \<longrightarrow> registry_inv d0 d') \<and> (\<forall>d0. records_inv d0 d \<longrightarrow> records_inv d0 d')"

lemma step_keeps_run:
  "(\<lambda>x y. R x y \<and> step_keeps x y)\<^sup>*\<^sup>* x y \<Longrightarrow> step_keeps x y"
  by (induction rule: rtranclp_induct) (auto simp: step_keeps_def)

lemma step_keeps_commits:
  assumes "d' \<in> set (commits m d)" and "\<And>d0. keeps (registry_inv d0) m" and "\<And>d0. keeps (records_inv d0) m"
  shows "step_keeps d d'"
  using assms keeps_commits unfolding step_keeps_def by blast

lemma step_keeps_others:
  assumes "\<And>x. step_keeps x (others x)"
  shows "keeps_registry others" and "records_inv d0 d \<Longrightarrow> records_inv d0 (others d)"
proof -
  have "registry_inv d d" if "registry_ok d" for d using that by (simp add: registry_inv_def)
  with assms show "keeps_registry others" unfolding keeps_registry_def step_keeps_def by blast
  show "records_inv d0 d \<Longrightarrow> records_inv d0 (others d)" using assms by (simp add: step_keeps_def)
qed

lemma system_step_keeps: "system_step cfg d d' \<Longrightarrow> step_keeps d d'"
proof (induction rule: system_step.induct)
  case (job d d')
  then show ?case using reg.txn_keeps rec.jf.txn_keeps by (auto simp: step_keeps_def)
next
  case (upload others d' hb put go now later data ty u job att d)
  note env = step_keeps_others [OF step_keeps_run [OF upload(1)]]
  have "keeps (registry_inv d0) (upload_artifact cfg hb put go others now later data ty u job att)" for d0
    unfolding triple_keeps [symmetric]
    by (rule triple_weaken [OF art.upload]) (use registry_others [OF env(1)] in auto)
  moreover have "keeps (records_inv d0) (upload_artifact cfg hb put go others now later data ty u job att)" for d0
    by (rule rec.upload) (rule env(2))
  ultimately show ?case by (rule step_keeps_commits [OF upload(2)])
next
  case (reconcile d' hb go now d)
  then show ?case by (rule step_keeps_commits; intro art.reconcile rec.af.reconcile)
next
  case (dataset d' now name description d)
  then show ?case by (rule step_keeps_commits; intro keeps_datasets_create rec.datasets_create)
next
  case (dataset_version others d' hb put go now later p data u d)
  note env = step_keeps_others [OF step_keeps_run [OF dataset_version(1)]]
  from dataset_version(2) show ?case
    by (rule step_keeps_commits; intro keeps_create_dataset_version rec.create_dataset_version env)
next
  case (model d' now name description d)
  then show ?case by (rule step_keeps_commits; intro keeps_models_create rec.models_create)
next
  case (model_version others d' now p aid rid d)
  note env = step_keeps_others [OF step_keeps_run [OF model_version(1)]]
  have "keeps (registry_inv d0) (register_version others now p aid rid)" for d0
    unfolding triple_keeps [symmetric]
    by (rule triple_weaken [OF triple_register_version [OF env(1)]]) simp_all
  with model_version(2) show ?case by (rule step_keeps_commits; intro rec.register_version env(2))
next
  case (training_run others d' now tc d)
  note env = step_keeps_others [OF step_keeps_run [OF training_run(1)]]
  from training_run(2) show ?case
    by (rule step_keeps_commits; intro keeps_create_training_run rec.create_training_run env)
next
  case (fenced w d d' jid wk n)
  have "registry_inv d0 d'" if "registry_inv d0 d" for d0
    using keeps_commits [OF registry_perform that fenced(2)] .
  moreover have "records_inv d0 d'" if "records_inv d0 d" for d0
    using triple_commits [OF triple_perform] that fenced by blast
  ultimately show ?case by (simp add: step_keeps_def)
next
  case (evaluation_config d' now ec d)
  then show ?case by (rule step_keeps_commits; intro keeps_create_evaluation_config)
next
  case (evaluation others d' now ev d)
  note env = step_keeps_others [OF step_keeps_run [OF evaluation(1)]]
  from evaluation(2) show ?case
    by (rule step_keeps_commits)
      (rule keeps_create_evaluation(1), erule registry_others [OF env(1)], rule keeps_create_evaluation(2), erule env(2))
next
  case (gate d' now name rules d)
  then show ?case by (rule step_keeps_commits; intro keeps_create_quality_gate)
next
  case (decision others d' now rid gid d)
  note env = step_keeps_others [OF step_keeps_run [OF decision(1)]]
  from decision(2) show ?case
    by (rule step_keeps_commits)
      (rule keeps_evaluate_quality_gate(1), erule registry_others [OF env(1)], rule keeps_evaluate_quality_gate(2), erule env(2))
qed

lemma system_run_keeps: "(system_step cfg)\<^sup>*\<^sup>* d d' \<Longrightarrow> step_keeps d d'"
  by (induction rule: rtranclp_induct) (auto simp: step_keeps_def dest!: system_step_keeps)

lemma system_run_inv: "(system_step cfg)\<^sup>*\<^sup>* d d' \<Longrightarrow> system_ok d \<Longrightarrow> system_inv d d'"
  using system_run_keeps [of cfg d d'] system_inv_refl [of d]
  by (simp add: step_keeps_def system_inv_def)

lemma system_run_registry: "(system_step cfg)\<^sup>*\<^sup>* d d' \<Longrightarrow> registry_ok d \<Longrightarrow> registry_inv d d'"
  using system_run_keeps [of cfg d d'] registry_later_refl [of d] unfolding step_keeps_def registry_inv_def by blast

lemma system_run_records: "(system_step cfg)\<^sup>*\<^sup>* d d' \<Longrightarrow> records_ok d \<Longrightarrow> records_inv d d'"
  using system_run_keeps [of cfg d d'] records_later_refl [of d] unfolding step_keeps_def records_inv_def by blast

subsection \<open>The registry in every reachable state\<close>

text \<open>C17: In every state the system can reach, through job processing, executors, uploads,
  reconciliation and registrations racing each other, the versions of each dataset and of each
  model are numbered 1 to n without a gap or a duplicate, where n is how many it has.\<close>

theorem version_numbers_contiguous:
  assumes "(system_step cfg)\<^sup>*\<^sup>* d0 d" and "registry_ok d0"
  shows "distinct (dataset_numbers p d) \<and> set (dataset_numbers p d) = {1..int (length (dataset_numbers p d))}
    \<and> distinct (model_numbers p d) \<and> set (model_numbers p d) = {1..int (length (model_numbers p d))}"
  using system_run_registry [OF assms]
  by (simp add: registry_inv_def registry_ok_def contiguous_def dataset_numbers_eq model_numbers_eq)

text \<open>In every reachable state a registered version, of a dataset or a model, refers to an artifact
  that is UPLOADED, and no artifact is the artifact of two model versions.\<close>

theorem registered_artifacts_uploaded:
  assumes "(system_step cfg)\<^sup>*\<^sup>* d0 d" and "registry_ok d0"
  shows "(\<forall>v \<in> set (t_dataset_versions d). uploaded_id (dv_artifact_id v) d)
    \<and> (\<forall>v \<in> set (t_model_versions d). uploaded_id (mv_artifact_id v) d)
    \<and> distinct (map mv_artifact_id (t_model_versions d))"
  using system_run_registry [OF assms]
  by (simp add: registry_inv_def registry_ok_def dataset_version_ok_def model_version_ok_def)

text \<open>What is registered is permanent: datasets, models, their versions, training runs and uploaded
  artifacts of any state are in every later state, unchanged.\<close>

theorem registry_immutable:
  assumes "(system_step cfg)\<^sup>*\<^sup>* d0 d" and "registry_ok d0"
  shows "set (t_datasets d0) \<subseteq> set (t_datasets d) \<and> set (t_dataset_versions d0) \<subseteq> set (t_dataset_versions d)
    \<and> set (t_models d0) \<subseteq> set (t_models d) \<and> set (t_model_versions d0) \<subseteq> set (t_model_versions d)
    \<and> set (t_training_runs d0) \<subseteq> set (t_training_runs d)
    \<and> (\<forall>a \<in> set (t_artifacts d0). f_status a = AUploaded \<longrightarrow> a \<in> set (t_artifacts d))"
  using system_run_registry [OF assms] by (auto simp: registry_inv_def registry_later_def)


text \<open>The lineage of a model version is an immutable record: whatever the system does next, the
  same query returns the same version, artifact, training run, dataset, dataset version and base
  model version; only the job row may have moved on.\<close>

theorem lineage_stable:
  assumes "(system_step cfg)\<^sup>*\<^sup>* d d'" and "registry_ok d" and "get_lineage model_id version_number d = Some l"
  shows "\<exists>j. get_lineage model_id version_number d' = Some (l\<lparr>ln_job := j\<rparr>)"
  using system_run_registry [OF assms(1,2)] assms(2,3) by (rule lineage_later)

lemma sample_steps: "(system_step cfg)\<^sup>*\<^sup>* sample_registry sample_registered"
  by (rule r_into_rtranclp, rule system_step.model_version [OF _ sample_registration_commits]) simp

theorem version_numbers_contiguous_witness: "set (model_numbers 1 sample_registered) = {1..1}"
  using version_numbers_contiguous [OF sample_steps sample_registry_ok, of 1]
  by (simp add: model_numbers_def sample_registry_defs)

theorem registered_artifacts_uploaded_witness: "uploaded_id (mv_artifact_id sample_version) sample_registered"
  using registered_artifacts_uploaded [OF sample_steps sample_registry_ok]
  by (simp add: sample_registered_def)

theorem registry_immutable_witness: "set (t_training_runs sample_registry) \<subseteq> set (t_training_runs sample_registered)"
  using registry_immutable [OF sample_steps sample_registry_ok] by blast


lemma sample_registered_ok: "registry_ok sample_registered"
  using system_run_registry [OF sample_steps sample_registry_ok] by (simp add: registry_inv_def)

theorem lineage_stable_witness: "\<exists>j. get_lineage 1 1 sample_registered = Some (sample_lineage\<lparr>ln_job := j\<rparr>)"
  using lineage_stable [OF rtranclp.rtrancl_refl sample_registered_ok sample_get_lineage] .

end
