(* ===== verification/Platform.thy ===== *)
theory Platform
  imports System Accounting Evolution
begin

text \<open>
  The job invariants in the whole system.  The locale \<open>job_side\<close> is the contract of an
  invariant of the job tables: the transactions keep it and it reads nothing else.  Then every
  step of the system keeps it, uploads, registrations, fenced writes and evaluations included, and
  the properties of capacity, of the history of jobs and of fencing hold in every state the
  platform reaches.
\<close>

definition same_job_tables :: "db \<Rightarrow> db \<Rightarrow> bool" where
  "same_job_tables d d' \<longleftrightarrow> t_jobs d' = t_jobs d \<and> t_attempts d' = t_attempts d
   \<and> t_reservations d' = t_reservations d \<and> t_capacity d' = t_capacity d \<and> t_outbox d' = t_outbox d
   \<and> t_dlq d' = t_dlq d \<and> t_scheduling_decisions d' = t_scheduling_decisions d"

locale job_side = repository_laws K for K :: "db \<Rightarrow> bool" +
  assumes cong: "\<And>d d'. K d \<Longrightarrow> same_job_tables d d' \<Longrightarrow> K d'"
begin

lemma side_execute: "(\<And>d. same_job_tables d (f d)) \<Longrightarrow> keeps K (execute f)"
  by (rule keeps_execute) (blast intro: cong)

lemma side_insert: "(\<And>d. same_job_tables d (ins d)) \<Longrightarrow> keeps K (insert_or_fail violates ins)"
  unfolding insert_or_fail_def by (intro keeps_intros side_execute)

lemma side_insert_select:
  "(\<And>d. same_job_tables d (ins d)) \<Longrightarrow> keeps K (insert_select fence conflict violates ins)"
  unfolding insert_select_def do_if_def by (intro keeps_intros side_execute)

end

sublocale job_side \<subseteq> art: artifact_frame K
  by unfold_locales (erule cong; simp add: same_job_tables_def)+

context job_side begin

lemma uploads:
  assumes "\<And>d. K d \<Longrightarrow> K (others d)"
  shows "keeps K (upload_artifact cfg hb put go others now later data ty u job att)"
  unfolding triple_keeps [symmetric] by (rule triple_weaken [OF art.upload [OF assms]]) simp_all

lemma registry_creates:
  "keeps K (datasets_create now name description)" "keeps K (models_create now name description)"
  unfolding datasets_create_def models_create_def
  by (intro keeps_intros side_insert; simp add: same_job_tables_def)+

lemma registry_versions:
  assumes "\<And>d. K d \<Longrightarrow> K (others d)"
  shows "keeps K (create_dataset_version cfg hb put go others now later p data u)"
    and "keeps K (register_version others now p aid rid)"
    and "keeps K (create_training_run others now tc)"
  unfolding create_dataset_version_def get_dataset_or_404_def datasets_create_version_def
    datasets_next_version_number_def register_version_def get_model_or_404_def artifacts_get_def
    models_create_version_def models_next_version_number_def create_training_run_def training_runs_create_def
  by (intro keeps_intros uploads side_insert keeps_wait create_job assms; simp add: same_job_tables_def)+

lemma perform: "keeps K (perform w jid wk n)"
  by (cases w)
     (simp_all add: checkpoints_register_def training_metrics_record_def outputs_register_def
       resume_decisions_record_def evaluation_results_record_def evaluation_metrics_record_def
       side_insert_select same_job_tables_def mark_status_def do_if_def keeps_intros side_execute)

lemma evaluation_creates:
  "keeps K (create_evaluation_config now ec)" "keeps K (create_quality_gate now name rules)"
  unfolding create_evaluation_config_def create_quality_gate_def
  by (intro keeps_intros side_execute; simp add: same_job_tables_def)+

lemma evaluations:
  assumes "\<And>d. K d \<Longrightarrow> K (others d)"
  shows "keeps K (create_evaluation others now ev)" and "keeps K (evaluate_quality_gate others now rid gid)"
proof -
  have "keeps K (evaluation_runs_create e)" for e
    unfolding evaluation_runs_create_def by (intro keeps_intros side_insert) (simp add: same_job_tables_def)
  then show "keeps K (create_evaluation others now ev)"
    by (intro create_evaluation_by_parts create_job assms)
  show "keeps K (evaluate_quality_gate others now rid gid)"
    unfolding evaluate_quality_gate_def record_verdict_def get_evaluation_or_404_def get_quality_gate_or_404_def gate_results_record_def
    by (intro keeps_intros keeps_query_checked keeps_wait side_insert_select assms; simp add: same_job_tables_def)
qed

lemma env_keeps: "(\<lambda>x y. R x y \<and> (K x \<longrightarrow> K y))\<^sup>*\<^sup>* x y \<Longrightarrow> K x \<Longrightarrow> K y"
  by (induction rule: rtranclp_induct) auto

lemma step_keeps: "system_step cfg d d' \<Longrightarrow> K d \<longrightarrow> K d'"
proof (induction rule: system_step.induct)
  case (job d d')
  then show ?case using txn_keeps by blast
next
  case (upload others d' hb put go now later data ty u job att d)
  then show ?case using keeps_commits [OF uploads [OF env_keeps]] by meson
next
  case (reconcile d' hb go now d)
  then show ?case using keeps_commits [OF art.reconcile] by blast
next
  case (dataset d' now name description d)
  then show ?case using keeps_commits [OF registry_creates(1)] by blast
next
  case (dataset_version others d' hb put go now later p data u d)
  then show ?case using keeps_commits [OF registry_versions(1) [OF env_keeps]] by meson
next
  case (model d' now name description d)
  then show ?case using keeps_commits [OF registry_creates(2)] by blast
next
  case (model_version others d' now p aid rid d)
  then show ?case using keeps_commits [OF registry_versions(2) [OF env_keeps]] by meson
next
  case (training_run others d' now tc d)
  then show ?case using keeps_commits [OF registry_versions(3) [OF env_keeps]] by meson
next
  case (fenced w d d' jid wk n)
  then show ?case using keeps_commits [OF perform] by blast
next
  case (evaluation_config d' now ec d)
  then show ?case using keeps_commits [OF evaluation_creates(1)] by blast
next
  case (evaluation others d' now ev d)
  then show ?case using keeps_commits [OF evaluations(1) [OF env_keeps]] by meson
next
  case (gate d' now name rules d)
  then show ?case using keeps_commits [OF evaluation_creates(2)] by blast
next
  case (decision others d' now rid gid d)
  then show ?case using keeps_commits [OF evaluations(2) [OF env_keeps]] by meson
qed

lemma system_run: "(system_step cfg)\<^sup>*\<^sup>* d d' \<Longrightarrow> K d \<Longrightarrow> K d'"
  by (induction rule: rtranclp_induct) (auto dest: step_keeps)

end

interpretation accs: job_side accounting
  by unfold_locales (simp add: same_job_tables_def cong: accounting_cong)

interpretation evos: job_side "evolves d0" for d0
  by unfold_locales (simp add: same_job_tables_def cong: evolves_cong)

lemma txn_run_system: "(txn cfg)\<^sup>*\<^sup>* d d' \<Longrightarrow> (system_step cfg)\<^sup>*\<^sup>* d d'"
  by (induction rule: rtranclp_induct) (auto intro: rtranclp.rtrancl_into_rtrancl system_step.job)

lemmas sample_system_run = sample_run [THEN txn_run_system]

subsection \<open>Capacity\<close>

lemma accounting_reachable_system: "(system_step cfg)\<^sup>*\<^sup>* (initial_db cpu mem gpu) d \<Longrightarrow> accounting d"
  using accs.system_run accounting_initial by blast

text \<open>C3: The conservation invariant of the capacity model (the audit of
  \<^verbatim>\<open>sum_active\<close>): from the state the migrations leave, after any interleaving of the
  transactions of the API, the scheduler, the workers with their executors, recovery, the relay,
  the reconciler and the evaluation services, with crashes between commits and with arguments
  that may be stale, there is a capacity row and its allocated counters are exactly the sums over
  the ACTIVE reservations, whose keys are unique.\<close>

theorem capacity_conserved:
  assumes "(system_step cfg)\<^sup>*\<^sup>* (initial_db cpu mem gpu) d"
  shows "conserved d \<and> reservation_keys_ok d"
  using accounting_reachable_system [OF assms] by (simp add: accounting_def)

theorem capacity_conserved_witness:
  "map_option allocated_cpu (t_capacity sample_admitted) = Some 1
   \<and> conserved sample_admitted \<and> reservation_keys_ok sample_admitted"
  using capacity_conserved [OF sample_system_run(1)] by (simp add: sample_admitted_tables)

text \<open>C29: No overcommitment: in every reachable state in which no reservation was made for a
  negative amount, every allocated counter lies between zero and its total.\<close>

theorem capacity_never_overcommitted:
  assumes "(system_step cfg)\<^sup>*\<^sup>* (initial_db cpu mem gpu) d" and "t_capacity d = Some c"
    and "\<forall>r \<in> set (t_reservations d). reservation_nonneg r" and "capacity_nonneg c"
  shows "0 \<le> allocated_cpu c \<and> allocated_cpu c \<le> total_cpu c
     \<and> 0 \<le> allocated_memory_mb c \<and> allocated_memory_mb c \<le> total_memory_mb c
     \<and> 0 \<le> allocated_gpu c \<and> allocated_gpu c \<le> total_gpu c"
proof -
  from accounting_reachable_system [OF assms(1)] have "accounting d" .
  then have "reserve_where 0 0 0 c" "conserved d"
    using assms by (auto simp: accounting_def not_overcommitted_def)
  moreover have "0 \<le> sum_rows is_active r_cpu (t_reservations d)"
    "0 \<le> sum_rows is_active r_memory_mb (t_reservations d)"
    "0 \<le> sum_rows is_active r_gpu (t_reservations d)"
    using assms(3) by (auto simp: reservation_nonneg_def intro!: sum_rows_nonneg)
  ultimately show ?thesis
    using assms(2) by (simp add: reserve_where_def conserved_def reservations_sum_active_def)
qed

theorem capacity_never_overcommitted_witness:
  "\<exists>c. t_capacity sample_admitted = Some c \<and> allocated_cpu c = 1 \<and> allocated_cpu c \<le> total_cpu c"
  using capacity_never_overcommitted [OF sample_system_run(1) sample_admitted_tables(4)]
  by (simp add: sample_admitted_tables sample_reservation_def reservation_nonneg_def capacity_nonneg_def)

subsection \<open>The history of jobs\<close>

lemma evolves_system: "(system_step cfg)\<^sup>*\<^sup>* d d' \<Longrightarrow> job_ids_ok d \<Longrightarrow> evolves d d'"
  using evos.system_run evolves_refl by blast

text \<open>C16: The history of a job row.  From any state with unique job identifiers and after any
  run of the system, the row of a job is still there, once; its attempt number has not
  decreased; if its status was terminal it is unchanged; it never went back to PENDING; a
  cancel request and a deletion stay; what the client submitted (type, priority, creation
  time) is what it was; and a worker that holds the lease of the same attempt held it before.\<close>

theorem job_history:
  assumes "(system_step cfg)\<^sup>*\<^sup>* d d'" and "job_ids_ok d" and "j \<in> set (t_jobs d)"
  shows "\<exists>j'. {k \<in> set (t_jobs d'). j_id k = j_id j} = {j'} \<and> job_evolves j j'"
proof -
  have ev: "evolves d d'" by (rule evolves_system [OF assms(1,2)])
  then obtain k where k: "k \<in> set (t_jobs d')" "job_evolves j k"
    using assms(3) unfolding evolves_def by blast
  have "distinct (map j_id (t_jobs d'))" using ev by (simp add: evolves_def job_ids_ok_def)
  then have "{l \<in> set (t_jobs d'). j_id l = j_id j} = {k}"
    using k by (auto simp: job_evolves_def intro: distinct_map_eqD)
  with k show ?thesis by blast
qed

theorem job_history_witness:
  "\<exists>j'. {k \<in> set (t_jobs sample_started). j_id k = 1} = {j'} \<and> job_evolves sample_job j'"
  using job_history [OF sample_system_run(2) job_ids_ok_admitted, of sample_job]
  by (simp add: sample_admitted_tables sample_job_def new_job_def)

text \<open>C6: Two workers never own the same attempt: if a worker holds the lease of attempt \<open>n\<close> of
  a job in one state, and a worker holds it in a state any run later, they are the same
  worker.\<close>

theorem one_owner_per_attempt:
  assumes "(system_step cfg)\<^sup>*\<^sup>* d d'" and "job_ids_ok d"
    and "j \<in> set (t_jobs d)" and "holds_lease jid w n j"
    and "j' \<in> set (t_jobs d')" and "holds_lease jid w' n j'"
  shows "w = w'"
proof -
  have "job_evolves j j'"
    using evolves_row [OF evolves_system [OF assms(1,2)] assms(3,5)] assms(4,6) by (simp add: holds_lease_def)
  then show ?thesis
    using assms(4,6) by (auto simp: job_evolves_def holds_lease_own holds_own_lease_def)
qed

theorem one_owner_per_attempt_witness:
  "holds_lease 1 ''w1'' 1 sample_running \<and> \<not> holds_lease 1 ''w2'' 1 sample_running"
proof (intro conjI notI)
  show h1: "holds_lease 1 ''w1'' 1 sample_running"
    by (simp add: holds_lease_def sample_running_def sample_job_def new_job_def)
  assume h: "holds_lease 1 ''w2'' 1 sample_running"
  have "(system_step default_settings)\<^sup>*\<^sup>* sample_claimed sample_started"
    by (rule txn_run_system) (use sample_txns(4) in simp)
  moreover have "job_ids_ok sample_claimed"
    by (simp add: job_ids_ok_def sample_claimed_tables waiting_unowned_def sample_running_def)
  ultimately have "''w1'' = ''w2''"
    by (rule one_owner_per_attempt [OF _ _ _ h1 _ h])
      (simp_all add: sample_claimed_tables sample_started_tables)
  then show False by simp
qed

subsection \<open>Fencing\<close>

text \<open>C5: A worker that lost its lease cannot write: once an attempt is over for a worker, then
  after any further run of the system its heartbeat is refused; every write of its executor, a
  checkpoint, a metric, an output, a result, the status of an evaluation, answers that it did not
  take effect and commits nothing new; and whatever outcome it brings, the final transaction
  commits nothing and never reports success.\<close>

theorem zombie_worker_is_fenced:
  assumes "(system_step cfg)\<^sup>*\<^sup>* d d'" and "job_ids_ok d" and "superseded jid w n d"
  shows "result (jobs_heartbeat now jid w n ls) d' = Inr False
     \<and> final_db (jobs_heartbeat now jid w n ls) d' = d'
     \<and> result (perform x jid w n) d' = Inr False \<and> set (commits (perform x jid w n) d') = {d'}
     \<and> commits (finish_decided cfg now u jid w n out b) d' = [d']
     \<and> result (finish_decided cfg now u jid w n out b) d' \<in> {Inr ''fenced_out'', Inl PyOverflowError}"
proof -
  have no: "\<forall>j \<in> set (t_jobs d'). \<not> holds_lease jid w n j"
    by (rule superseded_later [OF evolves_system [OF assms(1,2)] assms(3)])
  then have lost: "\<not> owns jid w n d'" by (simp add: owns_def sql_exists_iff)
  from no have "\<forall>j \<in> set (t_jobs (work (begin_session d'))). \<not> holds_lease jid w n j"
    by (simp add: begin_session_def)
  then obtain r where r: "finish_decided cfg now u jid w n out b (begin_session d')
        = (r, (begin_session d')\<lparr>work := work (snd (finish_decided cfg now u jid w n out b (begin_session d')))\<rparr>)"
      "r \<in> {Inr ''fenced_out'', Inl PyOverflowError}"
    using fenced_finish_decided by blast
  have "commits (finish_decided cfg now u jid w n out b) d' = [d']"
    unfolding commits_def by (subst r(1)) (simp add: begin_session_def)
  moreover have "result (finish_decided cfg now u jid w n out b) d' = r"
    unfolding result_def by (subst r(1)) simp
  ultimately show ?thesis
    using no r(2) fw.no_effect [OF lost] by (simp add: run_defs prog_defs sql_update_unmatched)
qed

theorem zombie_worker_is_fenced_witness:
  "result (jobs_heartbeat 50000000 1 ''w1'' 1 30) sample_reclaimed = Inr False
   \<and> result (perform (WStatus 5 7 SUCCEEDED True) 1 ''w1'' 1) sample_reclaimed = Inr False
   \<and> commits (finish_decided default_settings 50000000 0 1 ''w1'' 1 succeeded False) sample_reclaimed
       = [sample_reclaimed]"
proof -
  have "job_ids_ok sample_reclaimed" "superseded 1 ''w1'' 1 sample_reclaimed"
    by (simp_all add: job_ids_ok_def superseded_def sample_reclaimed_tables waiting_unowned_def
        sample_running_def holds_lease_def sample_job_def new_job_def)
  from zombie_worker_is_fenced [OF rtranclp.rtrancl_refl this] show ?thesis by blast
qed

end
