(* ===== verification/EvaluationSafety.thy ===== *)
theory EvaluationSafety
  imports Platform
begin

text \<open>
  What the evaluation control plane guarantees: gate decisions are taken once and are earned by
  persisted metrics, baselines are comparable, evaluations are created only for what exists and is
  uploaded, and the schema of everything persisted holds in every reachable state.
\<close>

subsection \<open>The schema and its permanence\<close>

lemma records_ok_initial: "records_ok (initial_db cpu mem gpu)"
  by (simp add: records_defs initial_db_def empty_db_def)

text \<open>C12: In every state the system reaches from the one the migrations leave, the schema they declare
  for training and evaluation holds: no two rows share a primary key or a unique column (one
  checkpoint per run, attempt and step and per artifact, one output per run, one decision per
  attempt, one result per example, one metric per name and split, one verdict per run and gate),
  every foreign key resolves, checkpoints and outputs name UPLOADED artifacts, and an evaluation
  run is completed exactly if it is SUCCEEDED.\<close>

theorem schema_respected:
  assumes "(system_step cfg)\<^sup>*\<^sup>* (initial_db cpu mem gpu) d"
  shows "record_keys d \<and> record_refs d"
  using system_run_records [OF assms records_ok_initial] by (simp add: records_inv_def records_ok_def)

theorem schema_respected_witness: "record_keys sample_started \<and> length (t_jobs sample_started) = 1"
  using schema_respected [OF rtranclp_trans [OF sample_system_run(1) sample_system_run(2)]]
  by (simp add: sample_started_tables)


subsection \<open>Gate decisions\<close>

lemma find_gate_result_unique:
  assumes "records_ok d" and "row \<in> set (t_quality_gate_results d)"
  shows "find_gate_result (qr_evaluation_run_id row) (qr_quality_gate_id row) d = Some row"
proof -
  have "sql_one (\<lambda>x. gate_result_key x = gate_result_key row) (t_quality_gate_results d) = Some row"
    using assms by (intro sql_one_unique [where k = gate_result_key]) (auto simp: records_defs)
  then show ?thesis by (simp add: find_gate_result_def gate_result_key_def)
qed

lemma find_gate_result_SomeD:
  "find_gate_result rid gid d = Some row \<Longrightarrow>
   row \<in> set (t_quality_gate_results d) \<and> qr_evaluation_run_id row = rid \<and> qr_quality_gate_id row = gid"
  by (auto simp: find_gate_result_def dest: sql_one_SomeD)

lemma find_keys:
  "find_evaluation_run rid d = Some run \<Longrightarrow> er_id run = rid \<and> run \<in> set (t_evaluation_runs d)"
  "find_quality_gate gid d = Some gate \<Longrightarrow> qg_id gate = gid \<and> gate \<in> set (t_quality_gates d)"
  by (auto simp: find_evaluation_run_def find_quality_gate_def dest: sql_one_SomeD)

definition verdict_row :: "time \<Rightarrow> uuid \<Rightarrow> uuid \<Rightarrow> gate_status \<Rightarrow> json list \<Rightarrow> db \<Rightarrow> quality_gate_result" where
  "verdict_row now rid gid status rule_results d =
     \<lparr>qr_id = fresh_id (map qr_id (t_quality_gate_results d)), qr_evaluation_run_id = rid,
      qr_quality_gate_id = gid, qr_status = status, qr_rule_results = JArr rule_results, qr_evaluated_at = now\<rparr>"

lemma sql_one_snoc: "sql_one p t = None \<Longrightarrow> p r \<Longrightarrow> sql_one p (t @ [r]) = Some r"
  by (induction t) (auto simp: sql_one_def split: if_splits)

lemma find_gate_result_snoc:
  "find_gate_result rid gid d = None \<Longrightarrow> qr_evaluation_run_id row = rid \<Longrightarrow> qr_quality_gate_id row = gid \<Longrightarrow>
   find_gate_result rid gid (d\<lparr>t_quality_gate_results := t_quality_gate_results d @ [row]\<rparr>) = Some row"
  unfolding find_gate_result_def sql_one_def by (simp add: sql_one_snoc [unfolded sql_one_def])

text \<open>Recording a verdict, branch by branch.\<close>

lemma record_verdict_unstorable:
  "\<not> storable (JArr rr) \<Longrightarrow>
   record_verdict others now rid gid st rr (begin_session d)
     = (Inl DBError, \<lparr>work = others d, durable = [others d, d]\<rparr>)"
  by (simp add: record_verdict_def gate_results_record_def interfere_def bind_def raise_def begin_session_def)

lemma record_verdict_existing:
  assumes "storable (JArr rr)" and "find_gate_result rid gid (others d) = Some row"
  shows "record_verdict others now rid gid st rr (begin_session d)
     = (Inr (row, False), \<lparr>work = others d, durable = [others d, others d, d]\<rparr>)"
  using assms
  by (simp add: record_verdict_def gate_results_record_def interfere_def insert_select_def bind_def
      query_def do_if_def ret_def commit_def begin_session_def)

lemma record_verdict_rejected:
  assumes "storable (JArr rr)" and "find_gate_result rid gid (others d) = None" and "\<not> run_succeeded rid (others d)"
  shows "record_verdict others now rid gid st rr (begin_session d)
     = (Inl (HTTPException 409), \<lparr>work = others d, durable = [others d, others d, d]\<rparr>)"
  using assms
  by (simp add: record_verdict_def gate_results_record_def interfere_def insert_select_def bind_def
      query_def do_if_def ret_def commit_def begin_session_def raise_def)

lemma record_verdict_new:
  assumes "storable (JArr rr)" and "find_gate_result rid gid (others d) = None" and "run_succeeded rid (others d)"
    and "find_quality_gate gid (others d) \<noteq> None"
  shows "record_verdict others now rid gid st rr (begin_session d)
     = (let e = others d; row = verdict_row now rid gid st rr e;
            f = e\<lparr>t_quality_gate_results := t_quality_gate_results e @ [row]\<rparr>
        in (Inr (row, True), \<lparr>work = f, durable = [f, e, d]\<rparr>))"
proof -
  have "find_gate_result rid gid ((others d)\<lparr>t_quality_gate_results := t_quality_gate_results (others d) @
      [verdict_row now rid gid st rr (others d)]\<rparr>) = Some (verdict_row now rid gid st rr (others d))"
    by (rule find_gate_result_snoc [OF assms(2)]) (simp_all add: verdict_row_def)
  with assms show ?thesis
    by (simp add: record_verdict_def gate_results_record_def interfere_def insert_select_def bind_def
        query_def do_if_def ret_def commit_def execute_def begin_session_def verdict_row_def Let_def del: not_None_eq)
qed

lemma resolve_lenient: "\<exists>m. resolve_baseline_metrics run False d = Inr m"
  by (simp add: resolve_baseline_metrics_def Let_def split: option.split)

text \<open>An evaluation of a gate either stops before it writes, or comes to the recording of the verdict of
  the engine on the persisted metrics.\<close>

lemma evaluate_gate_cases:
  obtains (stopped) e where "evaluate_quality_gate others now rid gid (begin_session d) = (Inl e, begin_session d)"
  | (verdict) run gate baseline st rr where "find_evaluation_run rid d = Some run" "er_status run = SUCCEEDED"
      "find_quality_gate gid d = Some gate" "resolve_baseline_metrics run False d = Inr baseline"
      "gate_evaluate (qg_rules gate) (metric_values_of (metric_map rid ''all'' d)) (map_option metric_values_of baseline) = Inr (st, rr)"
      "evaluate_quality_gate others now rid gid (begin_session d) = record_verdict others now rid gid st rr (begin_session d)"
proof (cases "\<exists>run gate. find_evaluation_run rid d = Some run \<and> er_status run = SUCCEEDED \<and> find_quality_gate gid d = Some gate")
  case False
  then show ?thesis
    by (cases "find_evaluation_run rid d"; cases "find_quality_gate gid d")
       (auto intro!: stopped simp: evaluate_quality_gate_def get_evaluation_or_404_def get_quality_gate_or_404_def
         bind_def query_def raise_def ret_def begin_session_def)
next
  case True
  then obtain run gate where r: "find_evaluation_run rid d = Some run" "er_status run = SUCCEEDED"
    "find_quality_gate gid d = Some gate" by blast
  obtain baseline where b: "resolve_baseline_metrics run False d = Inr baseline" using resolve_lenient by blast
  have w: "work (begin_session d) = d" by (simp add: begin_session_def)
  have ids: "er_id run = rid" "qg_id gate = gid" using find_keys r by auto
  have run: "evaluate_quality_gate others now rid gid (begin_session d) =
      (case gate_evaluate (qg_rules gate) (metric_values_of (metric_map rid ''all'' d)) (map_option metric_values_of baseline) of
         Inl e \<Rightarrow> raise e
       | Inr (status, rule_results) \<Rightarrow> record_verdict others now rid gid status rule_results) (begin_session d)"
    using r b
    by (simp add: ids evaluate_quality_gate_def get_evaluation_or_404_def get_quality_gate_or_404_def
        bind_def query_def query_checked_def ret_def w split: sum.split)
  show ?thesis
  proof (cases "gate_evaluate (qg_rules gate) (metric_values_of (metric_map rid ''all'' d)) (map_option metric_values_of baseline)")
    case (Inl e)
    with run show ?thesis by (intro stopped) (simp add: raise_def)
  next
    case (Inr p)
    with run r b show ?thesis by (cases p) (auto intro!: verdict)
  qed
qed


text \<open>A new row carries the verdict of the engine.\<close>

lemma record_verdict_inserted:
  assumes "fst (record_verdict others now rid gid st rr (begin_session d)) = Inr (row, True)"
  shows "row = verdict_row now rid gid st rr (others d) \<and> run_succeeded rid (others d)
    \<and> row \<in> set (t_quality_gate_results (hd (durable (snd (record_verdict others now rid gid st rr (begin_session d))))))"
proof -
  have stor: "storable (JArr rr)"
    using assms record_verdict_unstorable [of rr others now rid gid st d] by (cases "storable (JArr rr)") simp_all
  have none: "find_gate_result rid gid (others d) = None"
    using assms record_verdict_existing [where others = others and d = d, OF stor, of rid gid _ now st]
    by (cases "find_gate_result rid gid (others d)") auto
  have succ: "run_succeeded rid (others d)"
    using assms record_verdict_rejected [where others = others and d = d, OF stor none, of now st]
    by (cases "run_succeeded rid (others d)") simp_all
  have gate: "find_quality_gate gid (others d) \<noteq> None"
  proof
    assume "find_quality_gate gid (others d) = None"
    with assms stor none succ show False
      by (simp add: record_verdict_def gate_results_record_def interfere_def insert_select_def bind_def
          query_def raise_def begin_session_def del: storable.simps)
  qed
  note new = record_verdict_new [where others = others and d = d, OF stor none succ gate, of now st]
  from assms have row: "row = verdict_row now rid gid st rr (others d)" by (simp add: new Let_def)
  with succ show ?thesis by (simp add: new Let_def)
qed

text \<open>C19: A verdict is earned: when an evaluation of a gate records a new one, the run existed and was
  SUCCEEDED, when its metrics were read and when the verdict was written, and the verdict is PASS
  exactly if the metrics persisted for the split \<open>all\<close>, with those of the baseline, satisfy the
  declared rules, whatever other processes committed in between.\<close>

theorem gate_pass_is_earned:
  assumes "result (evaluate_quality_gate others now rid gid) d = Inr (row, True)"
  shows "\<exists>run gate baseline. find_evaluation_run rid d = Some run \<and> er_status run = SUCCEEDED
    \<and> run_succeeded rid (others d) \<and> find_quality_gate gid d = Some gate
    \<and> resolve_baseline_metrics run False d = Inr baseline
    \<and> qr_evaluation_run_id row = rid \<and> qr_quality_gate_id row = gid
    \<and> (qr_status row = GPass \<longleftrightarrow>
         gate_satisfied (qg_rules gate) (metric_values_of (metric_map rid ''all'' d)) (map_option metric_values_of baseline))
    \<and> row \<in> set (t_quality_gate_results (final_db (evaluate_quality_gate others now rid gid) d))"
proof (cases rule: evaluate_gate_cases [where others = others and now = now and rid = rid and gid = gid and d = d])
  case (stopped e)
  with assms show ?thesis by (simp add: result_def)
next
  case (verdict run gate baseline st rr)
  note eq = verdict(6)
  from assms have "fst (record_verdict others now rid gid st rr (begin_session d)) = Inr (row, True)"
    by (simp add: result_def eq)
  note new = record_verdict_inserted [OF this, THEN conjunct1] record_verdict_inserted [OF this, THEN conjunct2]
  have row: "qr_status row = st" "qr_evaluation_run_id row = rid" "qr_quality_gate_id row = gid"
    by (simp_all add: new(1) verdict_row_def)
  have "qr_status row = GPass \<longleftrightarrow>
      gate_satisfied (qg_rules gate) (metric_values_of (metric_map rid ''all'' d)) (map_option metric_values_of baseline)"
    using gate_pass_iff [OF verdict(5)] row by simp
  then show ?thesis
    using verdict(1-4) new(2) row
    by (intro exI [of _ run] exI [of _ gate] exI [of _ baseline]) (simp add: final_db_def eq)
qed


subsection \<open>Baselines\<close>

lemma find_sorted_first:
  assumes "find p (sort_key k xs) = Some x"
  shows "x \<in> set xs \<and> p x \<and> (\<forall>y \<in> set xs. p y \<longrightarrow> k x \<le> k y)"
proof -
  have "sorted (map k (sort_key k xs))" by simp
  moreover have "find p ys = Some x \<Longrightarrow> sorted (map k ys) \<Longrightarrow> x \<in> set ys \<and> p x \<and> (\<forall>y \<in> set ys. p y \<longrightarrow> k x \<le> k y)" for ys
    by (induction ys) (auto split: if_splits)
  ultimately show ?thesis using assms by (metis set_sort)
qed

lemma find_filter: "find p (filter q xs) = find (\<lambda>x. q x \<and> p x) xs"
  by (induction xs) simp_all

text \<open>A comparison is never with the wrong run: the baseline metrics are those of a SUCCEEDED run of the
  requested model version on the same dataset version with a compatible configuration, the newest
  such run; the strict comparison answers 409 or such metrics when a baseline was requested, the
  lenient one of the gates never fails, and without a request there is no baseline.\<close>

theorem baseline_is_comparable:
  shows "(\<forall>m. resolve_baseline_metrics run strict d = Inr (Some m) \<longrightarrow>
      (\<exists>b \<in> set (t_evaluation_runs d). er_status b = SUCCEEDED
         \<and> er_baseline_model_id run = Some (er_model_id b)
         \<and> er_baseline_model_version_number run = Some (er_model_version_number b)
         \<and> comparable run d b \<and> m = metric_map (er_id b) ''all'' d
         \<and> (\<forall>c \<in> set (t_evaluation_runs d). er_status c = SUCCEEDED \<and> er_model_id c = er_model_id b
              \<and> er_model_version_number c = er_model_version_number b \<and> comparable run d c \<longrightarrow>
              er_created_at c \<le> er_created_at b)))
    \<and> (\<forall>e. resolve_baseline_metrics run strict d = Inl e \<longrightarrow> strict \<and> e = HTTPException 409)
    \<and> (resolve_baseline_metrics run True d = Inr None \<longleftrightarrow> er_baseline_model_id run = None)"
proof (cases "er_baseline_model_id run")
  case None
  then show ?thesis by (simp add: resolve_baseline_metrics_def)
next
  case (Some mid)
  let ?p = "\<lambda>e. er_model_id e = mid \<and> er_baseline_model_version_number run = Some (er_model_version_number e)"
  have "\<exists>b \<in> set (t_evaluation_runs d). er_status b = SUCCEEDED \<and> ?p b \<and> comparable run d b
      \<and> m = metric_map (er_id b) ''all'' d
      \<and> (\<forall>c \<in> set (t_evaluation_runs d). er_status c = SUCCEEDED \<and> ?p c \<and> comparable run d c \<longrightarrow> er_created_at c \<le> er_created_at b)"
    if m: "resolve_baseline_metrics run strict d = Inr (Some m)" for m
  proof -
    from m Some obtain b where b: "find (\<lambda>c. er_status c = SUCCEEDED \<and> comparable run d c)
        (sort_key (\<lambda>e. - er_created_at e) (sql_select ?p (t_evaluation_runs d))) = Some b"
      and mm: "m = metric_map (er_id b) ''all'' d"
      by (auto simp: resolve_baseline_metrics_def list_for_model_version_def Let_def find_filter
          split: if_splits option.splits)
    from find_sorted_first [OF b] mm show ?thesis
      by (intro bexI [of _ b]) (auto simp: sql_select_def)
  qed
  moreover have "resolve_baseline_metrics run strict d = Inl e \<Longrightarrow> strict \<and> e = HTTPException 409" for e
    using Some by (auto simp: resolve_baseline_metrics_def Let_def split: if_splits option.splits)
  moreover have "resolve_baseline_metrics run True d \<noteq> Inr None"
    using Some by (simp add: resolve_baseline_metrics_def Let_def split: option.split)
  ultimately show ?thesis using Some by fastforce
qed

subsection \<open>Creating an evaluation\<close>

definition created_job :: "time \<Rightarrow> job_create \<Rightarrow> db \<Rightarrow> job" where
  "created_job now p d = (new_job now (fresh_id (map j_id (t_jobs d))) p)\<lparr>j_status := QUEUED\<rparr>"

lemma create_job_run:
  "pred_option storable (jc_config p) \<Longrightarrow> create_job now p s = (Inr (created_job now p (work s)),
     s\<lparr>work := (work s)\<lparr>t_jobs := t_jobs (work s) @ [created_job now p (work s)]\<rparr>,
       durable := (work s)\<lparr>t_jobs := t_jobs (work s) @ [created_job now p (work s)]\<rparr> # durable s\<rparr>)"
  "\<not> pred_option storable (jc_config p) \<Longrightarrow> create_job now p s = (Inl DBError, s)"
proof -
  let ?i = "fresh_id (map j_id (t_jobs (work s)))"
  have "?i \<notin> j_id ` set (t_jobs (work s))" using fresh_id_not_in [of "map j_id (t_jobs (work s))"] by simp
  then have "sql_update (\<lambda>r. j_id r = ?i) (\<lambda>r. r\<lparr>j_status := QUEUED\<rparr>) (t_jobs (work s)) = t_jobs (work s)"
    by (auto simp: image_iff intro!: sql_update_unmatched)
  then show "pred_option storable (jc_config p) \<Longrightarrow> create_job now p s = (Inr (created_job now p (work s)),
     s\<lparr>work := (work s)\<lparr>t_jobs := t_jobs (work s) @ [created_job now p (work s)]\<rparr>,
       durable := (work s)\<lparr>t_jobs := t_jobs (work s) @ [created_job now p (work s)]\<rparr> # durable s\<rparr>)"
    "\<not> pred_option storable (jc_config p) \<Longrightarrow> create_job now p s = (Inl DBError, s)"
    by (simp_all add: prog_defs new_job_def created_job_def)
qed

definition evaluation_job :: "evaluation_create \<Rightarrow> job_create" where
  "evaluation_job p = \<lparr>jc_job_type = ev_job_type p, jc_config = ev_job_config p, jc_priority = ev_priority p\<rparr>"

lemma evaluation_job_config [simp]: "jc_config (evaluation_job p) = ev_job_config p"
  by (simp add: evaluation_job_def)

definition model_uploaded :: "evaluation_create \<Rightarrow> db \<Rightarrow> bool" where
  "model_uploaded p d \<longleftrightarrow> (case find_model_version (ev_model_id p) (ev_model_version_number p) d of
     None \<Rightarrow> False
   | Some mv \<Rightarrow> (case find_artifact (mv_artifact_id mv) d of None \<Rightarrow> False | Some a \<Rightarrow> f_status a = AUploaded))"

text \<open>Creating an evaluation, undisturbed, in any state: an unknown configuration, model version,
  dataset version or baseline version is a 404, a model whose artifact is not UPLOADED a 409, a job
  configuration the database does not take as JSON a database error, and then nothing changes; otherwise a QUEUED job and a QUEUED run that refers to it and carries the
  code commit and image of the configuration are the only change, and no constraint can reject it.\<close>

theorem create_evaluation_exact:
  "let r = result (create_evaluation (\<lambda>x. x) now p) d; d' = final_db (create_evaluation (\<lambda>x. x) now p) d
   in case find_evaluation_config (ev_evaluation_config_id p) d of
     None \<Rightarrow> r = Inl (HTTPException 404) \<and> d' = d
   | Some config \<Rightarrow>
       if find_model_version (ev_model_id p) (ev_model_version_number p) d = None
       then r = Inl (HTTPException 404) \<and> d' = d
       else if \<not> model_uploaded p d then r = Inl (HTTPException 409) \<and> d' = d
       else if find_dataset_version (ev_dataset_id p) (ev_dataset_version_number p) d = None
         \<or> base_version_missing (ev_baseline_model_id p) (ev_baseline_model_version_number p) d
       then r = Inl (HTTPException 404) \<and> d' = d
       else if \<not> pred_option storable (ev_job_config p) then r = Inl DBError \<and> d' = d
       else \<exists>j e. r = Inr e \<and> d' = d\<lparr>t_jobs := t_jobs d @ [j], t_evaluation_runs := t_evaluation_runs d @ [e]\<rparr>
         \<and> j = created_job now (evaluation_job p) d \<and> j_status j = QUEUED \<and> j_id j \<notin> j_id ` set (t_jobs d)
         \<and> e = (new_evaluation_run now (j_id j) config p)\<lparr>er_id := er_id e\<rparr> \<and> er_id e \<notin> er_id ` set (t_evaluation_runs d)"
proof (cases "find_evaluation_config (ev_evaluation_config_id p) d")
  case None
  then show ?thesis by (simp add: create_evaluation_def get_evaluation_config_or_404_def prog_defs run_defs)
next
  case (Some config)
  note config = Some
  show ?thesis
  proof (cases "find_model_version (ev_model_id p) (ev_model_version_number p) d")
    case None
    with config show ?thesis by (simp add: create_evaluation_def get_evaluation_config_or_404_def prog_defs run_defs)
  next
    case (Some mv)
    note mv = Some
    show ?thesis
    proof (cases "model_uploaded p d \<and> find_dataset_version (ev_dataset_id p) (ev_dataset_version_number p) d \<noteq> None
        \<and> \<not> base_version_missing (ev_baseline_model_id p) (ev_baseline_model_version_number p) d")
      case False
      with config mv show ?thesis
        by (auto simp: create_evaluation_def get_evaluation_config_or_404_def artifacts_get_def model_uploaded_def
            bind_def query_def raise_def ret_def run_defs split: option.split)
    next
      case True
      note go = True
      let ?j = "created_job now (evaluation_job p) d" and ?d = "d\<lparr>t_jobs := t_jobs d @ [created_job now (evaluation_job p) d]\<rparr>"
      let ?e = "(new_evaluation_run now (j_id (created_job now (evaluation_job p) d)) config p)
        \<lparr>er_id := fresh_id (map er_id (t_evaluation_runs d))\<rparr>"
      have "base_version_missing (ev_baseline_model_id p) (ev_baseline_model_version_number p) d = False" using True by simp
      then have ok: "\<not> evaluation_run_violates ?e ?d"
        using config mv True
        by (auto simp: evaluation_run_violates_def new_evaluation_run_def find_evaluation_config_def
            find_model_version_def find_dataset_version_def sql_exists_iff base_version_missing_def split: option.splits)
      obtain a where a: "find_artifact (mv_artifact_id mv) d = Some a" "f_status a = AUploaded"
        using True mv by (auto simp: model_uploaded_def split: option.splits)
      obtain dv where dv: "find_dataset_version (ev_dataset_id p) (ev_dataset_version_number p) d = Some dv"
        using True by blast
      have w: "work (begin_session d) = d" "durable (begin_session d) = [d]" by (simp_all add: begin_session_def)
      show ?thesis
      proof (cases "pred_option storable (ev_job_config p)")
        case True
        note json = True
        have "create_evaluation (\<lambda>x. x) now p (begin_session d)
            = (Inr ?e, (begin_session d)\<lparr>work := ?d\<lparr>t_evaluation_runs := t_evaluation_runs d @ [?e]\<rparr>,
                durable := [?d\<lparr>t_evaluation_runs := t_evaluation_runs d @ [?e]\<rparr>, ?d, ?d, d]\<rparr>)"
          using config mv a dv go json ok
          by (simp add: create_evaluation_def get_evaluation_config_or_404_def artifacts_get_def
              bind_def query_def ret_def w create_job_run evaluation_job_def [symmetric] interfere_def
              evaluation_runs_create_def insert_or_fail_def execute_def commit_def)
        moreover have "er_id ?e \<notin> er_id ` set (t_evaluation_runs d)" by simp
        moreover have "j_id ?j \<notin> j_id ` set (t_jobs d)" by (simp add: created_job_def new_job_def)
        moreover have "j_status ?j = QUEUED" by (simp add: created_job_def)
        ultimately show ?thesis
          using config mv go json by (auto simp: result_def final_db_def Let_def)
      next
        case False
        then have "create_evaluation (\<lambda>x. x) now p (begin_session d) = (Inl DBError, begin_session d)"
          using config mv a dv go
          by (simp add: create_evaluation_def get_evaluation_config_or_404_def artifacts_get_def
              bind_def query_def ret_def w create_job_run evaluation_job_def [symmetric])
        with False show ?thesis using config mv go w by (auto simp: result_def final_db_def Let_def)
      qed
    qed
  qed
qed

subsection \<open>A sample evaluation\<close>

definition sample_config :: evaluation_config where
  "sample_config = \<lparr>ec_id = 1, ec_task_type = ''text'', ec_metric_definitions = JObj [], ec_batch_size = 1,
     ec_max_examples = None, ec_max_sequence_length = None, ec_evaluator_code_commit = ''abc'',
     ec_container_image = ''img'', ec_random_seed = None, ec_created_at = 0\<rparr>"

definition sample_evaluation :: evaluation_run where
  "sample_evaluation = \<lparr>er_id = 1, er_model_id = 1, er_model_version_number = 1, er_dataset_id = 1,
     er_dataset_version_number = 1, er_evaluation_config_id = 1, er_job_id = 1, er_baseline_model_id = None,
     er_baseline_model_version_number = None, er_status = SUCCEEDED, er_evaluator_code_commit = ''abc'',
     er_container_image = ''img'', er_created_at = 6, er_completed_at = Some 8\<rparr>"

definition sample_metric :: "string \<Rightarrow> evaluation_metric" where
  "sample_metric split = \<lparr>em_evaluation_run_id = 1, em_metric_name = ''exact_match'', em_split = split,
     em_metric_value = Fin (3/4), em_sample_count = 4, em_attempt_number = 1, em_created_at = 8\<rparr>"

definition sample_gate :: quality_gate where
  "sample_gate = \<lparr>qg_id = 1, qg_name = ''g'', qg_rules = JObj [(''all'', JArr [
     JObj [(''metric'', JStr ''exact_match''), (''operator'', JStr ''>=''), (''value'', JFloat (Fin (1/2)))]])],
     qg_created_at = 0\<rparr>"

definition sample_evaluated :: "string \<Rightarrow> db" where
  "sample_evaluated split = sample_registered\<lparr>t_evaluation_configs := [sample_config],
     t_evaluation_runs := [sample_evaluation], t_evaluation_metrics := [sample_metric split],
     t_quality_gates := [sample_gate]\<rparr>"

lemmas sample_evaluated_defs = sample_evaluated_def sample_config_def sample_evaluation_def sample_metric_def
  sample_gate_def sample_registry_defs

lemma sample_evaluated_ok: "records_ok (sample_evaluated split)"
  by (simp add: records_defs sample_evaluated_defs evaluation_run_ok_def has_model_version_def
      has_dataset_version_def new_job_def)

lemma sample_lookups:
  "find_evaluation_run 1 (sample_evaluated split) = Some sample_evaluation"
  "find_quality_gate 1 (sample_evaluated split) = Some sample_gate"
  "find_gate_result 1 1 (sample_evaluated split) = None" "run_succeeded 1 (sample_evaluated split)"
  "resolve_baseline_metrics sample_evaluation False (sample_evaluated split) = Inr None"
  by (simp_all add: find_evaluation_run_def find_quality_gate_def find_gate_result_def run_succeeded_def
      sql_exists_iff sample_evaluated_defs resolve_baseline_metrics_def)

definition sample_leaf :: "gate_status \<Rightarrow> json list" where
  "sample_leaf st = [leaf_json (if st = GPass then \<lparr>lr_status = GPass,
       lr_fields = [(''metric'', JStr ''exact_match''), (''operator'', JStr ''>=''), (''value'', JFloat (Fin (1/2))),
         (''candidate'', JFloat (Fin (3/4)))]\<rparr>
     else \<lparr>lr_status = GError, lr_fields = [(''metric'', JStr ''exact_match''), (''operator'', JStr ''>=''),
         (''reason'', JStr ''metric not present in evaluation results'')]\<rparr>)]"

lemma sample_verdict:
  "gate_evaluate (qg_rules sample_gate) (metric_values_of (metric_map 1 ''all'' (sample_evaluated split))) None
     = (if split = ''all'' then Inr (GPass, sample_leaf GPass) else Inr (GError, sample_leaf GError))"
  by (simp add: metric_map_def metric_values_of_def sample_evaluated_defs gate_defs sample_leaf_def sql_select_def)

lemma sample_answer:
  "result (evaluate_quality_gate (\<lambda>x. x) 9 1 1) (sample_evaluated split)
     = Inr (verdict_row 9 1 1 (if split = ''all'' then GPass else GError)
         (sample_leaf (if split = ''all'' then GPass else GError)) (sample_evaluated split), True)
   \<and> final_db (evaluate_quality_gate (\<lambda>x. x) 9 1 1) (sample_evaluated split)
     = (sample_evaluated split)\<lparr>t_quality_gate_results := [verdict_row 9 1 1 (if split = ''all'' then GPass else GError)
         (sample_leaf (if split = ''all'' then GPass else GError)) (sample_evaluated split)]\<rparr>"
proof -
  let ?st = "if split = ''all'' then GPass else GError"
  have stor: "storable (JArr (sample_leaf ?st))" by (simp add: sample_leaf_def leaf_json_def)
  have none: "t_quality_gate_results (sample_evaluated split) = []" by (simp add: sample_evaluated_defs)
  have "er_status sample_evaluation = SUCCEEDED" "er_id sample_evaluation = 1" "qg_id sample_gate = 1"
    by (simp_all add: sample_evaluation_def sample_gate_def)
  with sample_lookups(1,2,5) sample_verdict
  have "evaluate_quality_gate (\<lambda>x. x) 9 1 1 (begin_session (sample_evaluated split))
      = record_verdict (\<lambda>x. x) 9 1 1 ?st (sample_leaf ?st) (begin_session (sample_evaluated split))"
    by (simp add: evaluate_quality_gate_def get_evaluation_or_404_def get_quality_gate_or_404_def
        bind_def query_def query_checked_def ret_def begin_session_def del: One_nat_def)
  also have "\<dots> = (let row = verdict_row 9 1 1 ?st (sample_leaf ?st) (sample_evaluated split);
      f = (sample_evaluated split)\<lparr>t_quality_gate_results := [row]\<rparr>
      in (Inr (row, True), \<lparr>work = f, durable = [f, sample_evaluated split, sample_evaluated split]\<rparr>))"
    using record_verdict_new [OF stor, where others = "\<lambda>x. x" and rid = 1 and gid = 1 and d = "sample_evaluated split"
        and now = 9 and st = "if split = ''all'' then GPass else GError"]
    by (simp add: sample_lookups none Let_def del: One_nat_def)
  finally show ?thesis by (simp add: result_def final_db_def Let_def)
qed

theorem gate_pass_is_earned_witness:
  "gate_satisfied (qg_rules sample_gate) (metric_values_of (metric_map 1 ''all'' (sample_evaluated ''all''))) None"
  using gate_pass_is_earned [OF sample_answer [THEN conjunct1], of "''all''"] sample_lookups
  by (auto simp: verdict_row_def)




definition sample_candidate :: evaluation_run where
  "sample_candidate = sample_evaluation\<lparr>er_id := 2, er_baseline_model_id := Some 1, er_baseline_model_version_number := Some 1\<rparr>"

theorem baseline_is_comparable_witness:
  "\<exists>b \<in> set (t_evaluation_runs (sample_evaluated ''all'')).
     er_model_id b = 1 \<and> comparable sample_candidate (sample_evaluated ''all'') b"
proof -
  have "resolve_baseline_metrics sample_candidate True (sample_evaluated ''all'') = Inr (Some [(''exact_match'', Fin (3/4))])"
    by (simp add: resolve_baseline_metrics_def sample_candidate_def sample_evaluated_defs list_for_model_version_def
        sql_select_def metric_map_def comparable_def config_compatible_def)
  with baseline_is_comparable [of sample_candidate True "sample_evaluated ''all''"] show ?thesis
    by (fastforce simp: sample_candidate_def)
qed

end
