(* ===== verification/Runs.thy ===== *)
theory Runs
  imports Platform
begin

text \<open>
  Long operations as runs of the system.  \<open>appends m\<close>: \<open>m\<close> depends on the session only through its
  working view and the last committed state, and only adds commits.  \<open>runs R P m Q\<close>: started in a
  committed state with \<open>P\<close>, every state \<open>m\<close> commits is reached by steps of \<open>R\<close>, and when it returns
  nothing is uncommitted and \<open>Q\<close> holds.  The rules follow the combinators, so an executor is a run of
  the system because its parts are steps of it.
\<close>

subsection \<open>Programs that only add commits\<close>

definition extend :: "db list \<Rightarrow> ('a \<times> session) \<Rightarrow> ('a \<times> session)" where
  "extend t p = (fst p, (snd p)\<lparr>durable := durable (snd p) @ t\<rparr>)"

definition appends :: "'a program \<Rightarrow> bool" where
  "appends m \<longleftrightarrow> (\<forall>w h t. m \<lparr>work = w, durable = h # t\<rparr> = extend t (m \<lparr>work = w, durable = [h]\<rparr>)
     \<and> durable (snd (m \<lparr>work = w, durable = [h]\<rparr>)) \<noteq> [])"

named_theorems appends_intros

lemma appendsI:
  "(\<And>w h t. m \<lparr>work = w, durable = h # t\<rparr> = extend t (m \<lparr>work = w, durable = [h]\<rparr>)) \<Longrightarrow>
   (\<And>w h. durable (snd (m \<lparr>work = w, durable = [h]\<rparr>)) \<noteq> []) \<Longrightarrow> appends m"
  unfolding appends_def by blast

lemma appends_simple [appends_intros]:
  "appends (ret a)" "appends (raise e)" "appends (query f)" "appends (query_checked g)"
  by (rule appendsI; simp add: extend_def ret_def raise_def query_def query_checked_def)+

lemma appends_execute [appends_intros]: "appends (execute f)"
  by (rule appendsI) (simp_all add: extend_def execute_def)

lemma appends_commit [appends_intros]: "appends commit"
  by (rule appendsI) (simp_all add: extend_def commit_def)

lemma appends_rollback [appends_intros]: "appends rollback"
  by (rule appendsI) (simp_all add: extend_def rollback_def)

lemma appends_interfere [appends_intros]: "appends (interfere k)"
  by (rule appendsI) (simp_all add: extend_def interfere_def)

lemma appends_update_jobs [appends_intros]: "appends (update_jobs p u)"
  by (rule appendsI) (simp_all add: extend_def update_jobs_def)

lemma appendsD:
  assumes "appends m" and "m \<lparr>work = w, durable = [h]\<rparr> = (r, \<lparr>work = w1, durable = l\<rparr>)"
  shows "l \<noteq> [] \<and> m \<lparr>work = w, durable = h # t\<rparr> = (r, \<lparr>work = w1, durable = l @ t\<rparr>)"
proof -
  have "m \<lparr>work = w, durable = h # t\<rparr> = extend t (m \<lparr>work = w, durable = [h]\<rparr>)"
    "durable (snd (m \<lparr>work = w, durable = [h]\<rparr>)) \<noteq> []"
    using assms(1) unfolding appends_def by blast+
  then show ?thesis by (simp only: assms(2) extend_def fst_conv snd_conv session.select_convs session.update_convs) simp
qed

lemma session_result:
  obtains r w l where "m (s :: session) = (r, \<lparr>work = w, durable = l\<rparr>)"
  by (metis session.cases surj_pair)

lemma appends_bind [appends_intros]:
  assumes m: "appends m" and f: "\<And>a. appends (f a)"
  shows "appends (bind m f)"
  unfolding appends_def
proof (intro allI)
  fix w h t
  obtain r w1 l where m1: "m \<lparr>work = w, durable = [h]\<rparr> = (r, \<lparr>work = w1, durable = l\<rparr>)"
    by (rule session_result)
  note m2 = appendsD [OF m m1, of t]
  then obtain h1 t1 where l: "l = h1 # t1" by (cases l) auto
  show "bind m f \<lparr>work = w, durable = h # t\<rparr> = extend t (bind m f \<lparr>work = w, durable = [h]\<rparr>)
     \<and> durable (snd (bind m f \<lparr>work = w, durable = [h]\<rparr>)) \<noteq> []"
  proof (cases r)
    case (Inl e)
    with m2 l show ?thesis by (simp add: bind_def m1 extend_def)
  next
    case (Inr a)
    obtain r2 w2 l2 where f1: "f a \<lparr>work = w1, durable = [h1]\<rparr> = (r2, \<lparr>work = w2, durable = l2\<rparr>)"
      by (rule session_result)
    note f2 = appendsD [OF f f1]
    from m2 l f2 show ?thesis by (simp add: bind_def m1 Inr extend_def)
  qed
qed

lemma appends_cases [appends_intros]:
  "appends m \<Longrightarrow> appends m' \<Longrightarrow> appends (if b then m else m')"
  "appends m \<Longrightarrow> (\<And>a. appends (f a)) \<Longrightarrow> appends (case x of None \<Rightarrow> m | Some a \<Rightarrow> f a)"
  "(\<And>e. appends (g e)) \<Longrightarrow> (\<And>a. appends (f a)) \<Longrightarrow> appends (case y of Inl e \<Rightarrow> g e | Inr a \<Rightarrow> f a)"
  "(\<And>a b. appends (k a b)) \<Longrightarrow> appends (case z of (a, b) \<Rightarrow> k a b)"
  by (simp_all split: option.split sum.split prod.split)

lemma appends_do_if [appends_intros]: "appends m \<Longrightarrow> appends (do_if c m)" "appends (commit_if c)"
  by (simp_all add: do_if_def commit_if_def appends_intros)

subsection \<open>Runs\<close>

definition runs :: "(db \<Rightarrow> db \<Rightarrow> bool) \<Rightarrow> (db \<Rightarrow> bool) \<Rightarrow> 'a program \<Rightarrow> ('a \<Rightarrow> db \<Rightarrow> bool) \<Rightarrow> bool" where
  "runs R P m Q \<longleftrightarrow> appends m \<and> (\<forall>d. P d \<longrightarrow> (\<forall>x \<in> set (commits m d). R\<^sup>*\<^sup>* d x)
     \<and> (\<forall>a. result m d = Inr a \<longrightarrow> work (snd (m (begin_session d))) = final_db m d \<and> Q a (final_db m d)))"

lemma runs_bind:
  assumes m: "runs R P m M" and f: "\<And>a. runs R (M a) (f a) Q"
  shows "runs R P (bind m f) Q"
proof -
  have app: "appends (bind m f)" using m f by (simp add: runs_def appends_bind)
  have "(\<forall>x \<in> set (commits (bind m f) d). R\<^sup>*\<^sup>* d x) \<and> (\<forall>b. result (bind m f) d = Inr b \<longrightarrow>
      work (snd (bind m f (begin_session d))) = final_db (bind m f) d \<and> Q b (final_db (bind m f) d))"
    if P: "P d" for d
  proof -
    obtain r w l where m1: "m (begin_session d) = (r, \<lparr>work = w, durable = l\<rparr>)"
    by (rule session_result)
  have am: "appends m" using m by (simp add: runs_def)
  have "l \<noteq> []" using appendsD [OF am m1 [unfolded begin_session_def]] by blast
  then obtain h t where l: "l = h # t" by (cases l) auto
  have steps: "\<forall>x \<in> set l. R\<^sup>*\<^sup>* d x" using m P m1 by (simp add: runs_def commits_def)
  show ?thesis
  proof (cases r)
    case (Inl e)
    with steps show ?thesis by (simp add: commits_def result_def bind_def m1)
  next
    case (Inr a)
    with m P m1 l have w: "w = h" and M: "M a h"
      by (auto simp: runs_def result_def final_db_def)
    obtain r2 w2 l2 where f1: "f a \<lparr>work = h, durable = [h]\<rparr> = (r2, \<lparr>work = w2, durable = l2\<rparr>)"
      by (rule session_result)
    have fa: "appends (f a)" using f [of a] by (simp add: runs_def)
    have f2: "f a \<lparr>work = h, durable = h # t\<rparr> = (r2, \<lparr>work = w2, durable = l2 @ t\<rparr>)" and "l2 \<noteq> []"
      using appendsD [OF fa f1] by auto
    have b: "bind m f (begin_session d) = (r2, \<lparr>work = w2, durable = l2 @ t\<rparr>)"
      by (simp add: bind_def m1 Inr w l f2)
    have fr: "(\<forall>x \<in> set l2. R\<^sup>*\<^sup>* h x) \<and> (\<forall>c. r2 = Inr c \<longrightarrow> w2 = hd l2 \<and> Q c (hd l2))"
      using f [of a] M by (auto simp: runs_def commits_def result_def final_db_def begin_session_def f1)
    have "R\<^sup>*\<^sup>* d h" using steps l by simp
    with fr steps l have "\<forall>x \<in> set (l2 @ t). R\<^sup>*\<^sup>* d x" by (auto intro: rtranclp_trans)
    with fr \<open>l2 \<noteq> []\<close> show ?thesis by (simp add: commits_def result_def final_db_def b)
  qed
  qed
  with app show ?thesis by (simp add: runs_def)
qed

abbreviation anywhere :: "db \<Rightarrow> bool" where
  "anywhere \<equiv> \<lambda>_. True"

abbreviation any_result :: "'a \<Rightarrow> db \<Rightarrow> bool" where
  "any_result \<equiv> \<lambda>_ _. True"

named_theorems runs_intros

lemma runs_weaken:
  "runs R P m Q \<Longrightarrow> (\<And>d. P' d \<Longrightarrow> P d) \<Longrightarrow> (\<And>a d. Q a d \<Longrightarrow> Q' a d) \<Longrightarrow> runs R P' m Q'"
  unfolding runs_def by blast

lemma runs_commits: "runs R P m Q \<Longrightarrow> P d \<Longrightarrow> d' \<in> set (commits m d) \<Longrightarrow> R\<^sup>*\<^sup>* d d'"
  unfolding runs_def by blast

lemma runs_result: "runs R P m Q \<Longrightarrow> P d \<Longrightarrow> result m d = Inr a \<Longrightarrow> Q a (final_db m d)"
  unfolding runs_def by blast

lemma runs_ret [runs_intros]: "(\<And>d. P d \<Longrightarrow> Q a d) \<Longrightarrow> runs R P (ret a) Q"
  by (simp add: runs_def appends_simple run_defs ret_def)

lemma runs_raise [runs_intros]: "runs R P (raise e) Q"
  by (simp add: runs_def appends_simple run_defs raise_def)

lemma runs_query [runs_intros]: "(\<And>d. P d \<Longrightarrow> Q (f d) d) \<Longrightarrow> runs R P (query f) Q"
  by (simp add: runs_def appends_simple run_defs query_def)

lemma runs_query_checked [runs_intros]: "(\<And>d a. P d \<Longrightarrow> Q a d) \<Longrightarrow> runs R P (query_checked f) Q"
  by (simp add: runs_def appends_simple run_defs query_checked_def)

lemma runs_interfere [runs_intros]:
  "(\<And>x. R\<^sup>*\<^sup>* x (others x)) \<Longrightarrow> (\<And>d. P d \<Longrightarrow> Q () (others d)) \<Longrightarrow> runs R P (interfere others) Q"
  by (simp add: runs_def appends_interfere run_defs interfere_def)

lemma runs_if [runs_intros]:
  "(b \<Longrightarrow> runs R P m Q) \<Longrightarrow> (\<not> b \<Longrightarrow> runs R P m' Q) \<Longrightarrow> runs R P (if b then m else m') Q"
  by simp

lemma runs_option [runs_intros]:
  "(x = None \<Longrightarrow> runs R P m Q) \<Longrightarrow> (\<And>a. x = Some a \<Longrightarrow> runs R P (f a) Q) \<Longrightarrow>
   runs R P (case x of None \<Rightarrow> m | Some a \<Rightarrow> f a) Q"
  by (cases x) simp_all

lemma runs_sum [runs_intros]:
  "(\<And>e. x = Inl e \<Longrightarrow> runs R P (g e) Q) \<Longrightarrow> (\<And>a. x = Inr a \<Longrightarrow> runs R P (f a) Q) \<Longrightarrow>
   runs R P (case x of Inl e \<Rightarrow> g e | Inr a \<Rightarrow> f a) Q"
  by (cases x) simp_all

lemma runs_prod [runs_intros]:
  "(\<And>a b. x = (a, b) \<Longrightarrow> runs R P (f a b) Q) \<Longrightarrow> runs R P (case x of (a, b) \<Rightarrow> f a b) Q"
  by (cases x) simp

lemma runs_then [runs_intros]:
  "runs R anywhere m any_result \<Longrightarrow> (\<And>a. runs R anywhere (f a) any_result) \<Longrightarrow> runs R anywhere (bind m f) any_result"
  by (rule runs_bind)

lemma runs_pre: "(\<And>d. P d \<Longrightarrow> c) \<Longrightarrow> (c \<Longrightarrow> runs R P m Q) \<Longrightarrow> appends m \<Longrightarrow> runs R P m Q"
  unfolding runs_def by blast

text \<open>An operation whose every commit is a run is one itself.\<close>

lemma runs_operation:
  assumes "appends m" and "settles m" and "\<And>d x. P d \<Longrightarrow> x \<in> set (commits m d) \<Longrightarrow> R\<^sup>*\<^sup>* d x"
    and "\<And>d a. P d \<Longrightarrow> result m d = Inr a \<Longrightarrow> Q a (final_db m d)"
  shows "runs R P m Q"
  using assms settles_result [OF assms(2)] unfolding runs_def by blast

lemma runs_steps:
  assumes "appends m" and "settles m" and "\<And>d x. x \<in> set (commits m d) \<Longrightarrow> R d x"
  shows "runs R anywhere m any_result"
  by (rule runs_operation [OF assms(1,2)]) (use assms(3) in blast)+

subsection \<open>The operations of a worker\<close>

lemma settles_rollback [settles_intros]: "settles rollback" "settles commit" "settles (interfere k)"
  by (simp_all add: settles_def rollback_def commit_def interfere_def)

lemma appends_jobs_repo [appends_intros]:
  "appends (jobs_get jid)" "appends (jobs_claim now jid w ls)" "appends (jobs_finalize_attempt jid w n st ex c)"
  "appends (attempts_insert now jid n w)" "appends (attempts_finalize now jid n ast em ec fd c)"
  "appends (release_reservation now jid n)" "appends (dlq_insert now jid n em cls k c)"
  unfolding jobs_get_def jobs_claim_def jobs_finalize_attempt_def attempts_insert_def attempts_finalize_def
    release_reservation_def reservations_release_def capacity_release_def dlq_insert_def Let_def
  by (intro appends_intros)+

end
