(* ===== verification/EvalExecutor.thy ===== *)
theory EvalExecutor
  imports Evaluation Scheduler
begin

text \<open>
  The worker-side supervisor of an evaluation (app/evaluation/executor.py): it resolves and
  downloads the registered artifacts, starts the evaluator as a process, reads its lines, and does
  every database write itself, fenced.  The process is a parameter, a function from its context to
  what the supervisor sees of it: for each line the parsed event (if it is one), whether the
  heartbeat had been abandoned by then, and what other sessions had committed.  \<open>codec\<close> is what the
  executors take from the Python runtime: its rendering of the values that are not plain, its parsers,
  and whether the logger \<^verbatim>\<open>app\<close> emits records of level INFO, which \<^verbatim>\<open>settings.log_level\<close> decides.
\<close>

subsection \<open>Values of an event\<close>

record codec =
  py_repr :: "json \<Rightarrow> string"
  json_dumps :: "json \<Rightarrow> string"
  json_load :: "string \<Rightarrow> exn + json"
  parse_float :: "string \<Rightarrow> exn + pyfloat"
  exn_text :: "exn \<Rightarrow> string"
  logs_info :: bool

fun show_nat :: "nat \<Rightarrow> string" where
  "show_nat n = (if n < 10 then [char_of (48 + n)] else show_nat (n div 10) @ [char_of (48 + n mod 10)])"

definition show_int :: "int \<Rightarrow> string" where
  "show_int n = (if n < 0 then CHR ''-'' # show_nat (nat (- n)) else show_nat (nat n))"

fun py_str :: "codec \<Rightarrow> json \<Rightarrow> string" where
  "py_str cd (JStr s) = s"
| "py_str cd (JInt n) = show_int n"
| "py_str cd (JBool b) = (if b then ''True'' else ''False'')"
| "py_str cd JNull = ''None''"
| "py_str cd v = py_repr cd v"

fun as_text :: "codec \<Rightarrow> json \<Rightarrow> string option" where
  "as_text cd JNull = None"
| "as_text cd (JStr s) = Some s"
| "as_text cd (JInt n) = Some (show_int n)"
| "as_text cd (JBool b) = Some (if b then ''true'' else ''false'')"
| "as_text cd v = Some (json_dumps cd v)"

text \<open>What the database takes as a value of a column; the conversions PostgreSQL makes of numbers in
  strings and of fractions in integer columns are left out (no evaluator here sends them).\<close>

fun sql_float :: "json \<Rightarrow> exn + pyfloat option" where
  "sql_float JNull = Inr None"
| "sql_float (JFloat f) = Inr (Some f)"
| "sql_float (JInt n) = (case fl (of_int n) of Fin q \<Rightarrow> Inr (Some (Fin q)) | _ \<Rightarrow> Inl DBError)"
| "sql_float _ = Inl DBError"

fun sql_int :: "json \<Rightarrow> exn + int option" where
  "sql_int JNull = Inr None"
| "sql_int (JInt n) = (if - (2 ^ 31) \<le> n \<and> n < 2 ^ 31 then Inr (Some n) else Inl DBError)"
| "sql_int _ = Inl DBError"

fun sql_text :: "json \<Rightarrow> exn + string option" where
  "sql_text JNull = Inr None"
| "sql_text (JStr s) = Inr (Some s)"
| "sql_text _ = Inl DBError"

definition key_get :: "(string \<times> json) list \<Rightarrow> string \<Rightarrow> exn + json" where
  "key_get kvs k = (case map_of kvs k of None \<Rightarrow> Inl PyKeyError | Some v \<Rightarrow> Inr v)"

definition lift_sum :: "exn + 'a \<Rightarrow> 'a program" where
  [prog_defs]: "lift_sum r = (case r of Inl e \<Rightarrow> raise e | Inr a \<Rightarrow> ret a)"

text \<open>\<^verbatim>\<open>(job.config or {}).get("resources", {}).get(k, 0)\<close>\<close>

definition configured_resource :: "job \<Rightarrow> string \<Rightarrow> exn + json" where
  "configured_resource j k =
     (let base = (case j_config j of None \<Rightarrow> JObj [] | Some c \<Rightarrow> if falsy c then JObj [] else c)
      in sum_bind (json_get base ''resources'' (JObj [])) (\<lambda>r. json_get r k (JInt 0)))"

subsection \<open>What the supervisor sees of the process\<close>

record stream_item =
  si_event :: "json option"
  si_abandoned :: bool
  si_others :: "db \<Rightarrow> db"
  si_at :: time

record supervision =
  sv_lines :: "stream_item list"
  sv_abandoned :: bool
  sv_others :: "db \<Rightarrow> db"
  sv_at :: time

record evaluation_context =
  cx_evaluation_run_id :: uuid
  cx_attempt_number :: int
  cx_required_gpu :: json
  cx_required_memory_mb :: json
  cx_evaluator_entrypoint :: json
  cx_task_type :: string
  cx_batch_size :: int
  cx_max_examples :: "int option"
  cx_max_sequence_length :: "int option"
  cx_random_seed :: "int option"
  cx_split :: json
  cx_model :: bytes
  cx_model_expected_hash :: string
  cx_dataset :: bytes
  cx_dataset_expected_hash :: string

subsection \<open>Preparing\<close>

definition fenced_out :: outcome where
  "fenced_out = failed_outcome ''fenced_out'' ''transient'' (Some ''INFRASTRUCTURE'')"

text \<open>The bytes and the expected hash of a registered artifact, or None if it is unavailable.\<close>

definition prepare_artifact :: "(string \<Rightarrow> exn + bytes) \<Rightarrow> uuid option \<Rightarrow> (bytes \<times> string) option program" where
  "prepare_artifact get_object version_artifact =
     (case version_artifact of
        None \<Rightarrow> ret None
      | Some aid \<Rightarrow>
          bind (artifacts_get aid) (\<lambda>artifact.
          case artifact of
            None \<Rightarrow> ret None
          | Some a \<Rightarrow>
              if f_status a \<noteq> AUploaded then ret None
              else (case get_object (f_storage_key a) of
                      Inl _ \<Rightarrow> ret None
                    | Inr data \<Rightarrow> ret (Some (data, f_content_hash a)))))"

definition fail_evaluation ::
  "time \<Rightarrow> uuid \<Rightarrow> uuid \<Rightarrow> string \<Rightarrow> int \<Rightarrow> string \<Rightarrow> string \<Rightarrow> string \<Rightarrow> outcome program" where
  "fail_evaluation now rid jid worker_id n message classification domain =
     bind (mark_status now rid FAILED False jid worker_id n) (\<lambda>_.
     ret (failed_outcome message classification (Some domain)))"

definition evaluation_context_of ::
  "job \<Rightarrow> evaluation_run \<Rightarrow> int \<Rightarrow> evaluation_config option \<Rightarrow> bytes \<times> string \<Rightarrow> bytes \<times> string \<Rightarrow> exn + evaluation_context" where
  "evaluation_context_of j er n config model dataset =
     (let definitions = (case config of None \<Rightarrow> JObj []
            | Some c \<Rightarrow> if falsy (ec_metric_definitions c) then JObj [] else ec_metric_definitions c)
      in sum_bind (configured_resource j ''gpu'') (\<lambda>gpu.
         sum_bind (configured_resource j ''memory_mb'') (\<lambda>memory.
         sum_bind (json_get definitions ''evaluator_entrypoint'' (JStr ''app.evaluation.toy_evaluator'')) (\<lambda>entry.
         sum_bind (json_get definitions ''split'' (JStr ''all'')) (\<lambda>split.
         Inr \<lparr>cx_evaluation_run_id = er_id er, cx_attempt_number = n, cx_required_gpu = gpu,
              cx_required_memory_mb = memory, cx_evaluator_entrypoint = entry,
              cx_task_type = (case config of None \<Rightarrow> ''text'' | Some c \<Rightarrow> ec_task_type c),
              cx_batch_size = (case config of None \<Rightarrow> 1 | Some c \<Rightarrow> ec_batch_size c),
              cx_max_examples = (case config of None \<Rightarrow> None | Some c \<Rightarrow> ec_max_examples c),
              cx_max_sequence_length = (case config of None \<Rightarrow> None | Some c \<Rightarrow> ec_max_sequence_length c),
              cx_random_seed = (case config of None \<Rightarrow> None | Some c \<Rightarrow> ec_random_seed c),
              cx_split = split, cx_model = fst model, cx_model_expected_hash = snd model,
              cx_dataset = fst dataset, cx_dataset_expected_hash = snd dataset\<rparr>)))))"

subsection \<open>Events\<close>

definition record_result_event ::
  "codec \<Rightarrow> time \<Rightarrow> uuid \<Rightarrow> string \<Rightarrow> uuid \<Rightarrow> int \<Rightarrow> (string \<times> json) list \<Rightarrow> unit program" where
  "record_result_event cd now jid worker_id rid n kvs =
     bind (lift_sum (key_get kvs ''example_id'')) (\<lambda>example_id.
     bind (lift_sum (sql_float (obj_get ''score'' kvs))) (\<lambda>score.
     bind (lift_sum (sql_float (obj_get ''latency_ms'' kvs))) (\<lambda>latency_ms.
     bind (evaluation_results_record
             \<lparr>ex_evaluation_run_id = rid, ex_example_id = py_str cd example_id,
              ex_prediction = as_text cd (obj_get ''prediction'' kvs),
              ex_expected_output = as_text cd (obj_get ''expected_output'' kvs),
              ex_score = score, ex_latency_ms = latency_ms, ex_error_code = None, ex_error_message = None,
              ex_attempt_number = n, ex_created_at = now\<rparr> jid worker_id n) (\<lambda>_. ret ()))))"

text \<open>A null in a column that is not nullable is an integrity error if the row would be inserted.\<close>

definition record_metric_event ::
  "time \<Rightarrow> uuid \<Rightarrow> string \<Rightarrow> uuid \<Rightarrow> int \<Rightarrow> (string \<times> json) list \<Rightarrow> unit program" where
  "record_metric_event now jid worker_id rid n kvs =
     bind (lift_sum (key_get kvs ''metric_name'')) (\<lambda>name.
     bind (lift_sum (key_get kvs ''metric_value'')) (\<lambda>v.
     bind (lift_sum (sql_text name)) (\<lambda>metric_name.
     bind (lift_sum (sql_float v)) (\<lambda>metric_value.
     bind (lift_sum (sql_text (if obj_has ''split'' kvs then obj_get ''split'' kvs else JStr ''all''))) (\<lambda>split.
     bind (lift_sum (sql_int (if obj_has ''sample_count'' kvs then obj_get ''sample_count'' kvs else JInt 0))) (\<lambda>count.
     bind (case (metric_name, metric_value, split, count) of
             (Some nm, Some x, Some sp, Some k) \<Rightarrow>
               evaluation_metrics_record
                 \<lparr>em_evaluation_run_id = rid, em_metric_name = nm, em_split = sp, em_metric_value = x,
                  em_sample_count = k, em_attempt_number = n, em_created_at = now\<rparr> jid worker_id n
           | _ \<Rightarrow> insert_select (owns jid worker_id n) (\<lambda>_. False) (\<lambda>_. True) (\<lambda>d. d)) (\<lambda>_. ret ())))))))"

text \<open>\<^verbatim>\<open>_handle_event\<close>: what it did, as the string the code returns.  The call that logs an evaluation
  error passes \<^verbatim>\<open>extra={"message": ...}\<close>; \<^verbatim>\<open>Logger.makeRecord\<close> raises KeyError for that key, and it is
  reached when the level is enabled.\<close>

definition handle_evaluation_event ::
  "codec \<Rightarrow> time \<Rightarrow> uuid \<Rightarrow> string \<Rightarrow> uuid \<Rightarrow> int \<Rightarrow> (string \<times> json) list \<Rightarrow> string option program" where
  "handle_evaluation_event cd now jid worker_id rid n kvs =
     (let event_type = obj_get ''event'' kvs in
      if event_type = JStr ''gpu_check_failed'' then ret (Some ''gpu_failed'')
      else if event_type = JStr ''artifact_check_failed'' then ret (Some ''artifact_failed'')
      else if event_type = JStr ''evaluation_error''
        then (if logs_info cd then raise PyKeyError else ret (Some ''evaluation_error''))
      else if event_type = JStr ''result'' then
        bind (record_result_event cd now jid worker_id rid n kvs) (\<lambda>_. ret (Some ''result_recorded''))
      else if event_type = JStr ''metric'' then
        bind (record_metric_event now jid worker_id rid n kvs) (\<lambda>_. ret (Some ''metric_recorded''))
      else if event_type = JStr ''final'' then ret (Some ''final'')
      else ret None)"

type_synonym failure = "string option \<times> string \<times> string"

text \<open>\<^verbatim>\<open>event.get("message", ...)\<close>: a message is text or null here.\<close>

definition event_message :: "codec \<Rightarrow> string \<Rightarrow> (string \<times> json) list \<Rightarrow> string option" where
  "event_message cd dflt kvs = (if obj_has ''message'' kvs then as_text cd (obj_get ''message'' kvs) else Some dflt)"

definition evaluation_failure :: "codec \<Rightarrow> string option \<Rightarrow> (string \<times> json) list \<Rightarrow> failure option \<Rightarrow> failure option" where
  "evaluation_failure cd handled kvs last_error =
     (if handled = Some ''gpu_failed''
      then Some (Some ''cuda_unavailable_or_insufficient'', ''transient'', ''INFRASTRUCTURE'')
      else if handled = Some ''artifact_failed''
      then Some (Some (''artifact identity check failed: '' @ py_str cd (obj_get ''artifact'' kvs)), PERMANENT, ''DATA'')
      else if handled = Some ''evaluation_error''
      then Some (event_message cd ''evaluation error'' kvs, PERMANENT, ''EVALUATION'')
      else last_error)"

text \<open>The loop over the lines: \<open>Abandoned\<close> if the heartbeat was lost at a line, else what was seen.\<close>

datatype drained = Abandoned | Drained bool "failure option"

fun evaluation_lines ::
  "codec \<Rightarrow> uuid \<Rightarrow> string \<Rightarrow> uuid \<Rightarrow> int \<Rightarrow> stream_item list \<Rightarrow> bool \<Rightarrow> failure option \<Rightarrow> drained program" where
  "evaluation_lines cd jid worker_id rid n [] produced_final last_error = ret (Drained produced_final last_error)"
| "evaluation_lines cd jid worker_id rid n (it # its) produced_final last_error =
     bind (interfere (si_others it)) (\<lambda>_.
     if si_abandoned it then ret Abandoned
     else case si_event it of
        None \<Rightarrow> evaluation_lines cd jid worker_id rid n its produced_final last_error
      | Some (JObj kvs) \<Rightarrow>
          bind (handle_evaluation_event cd (si_at it) jid worker_id rid n kvs) (\<lambda>handled.
          evaluation_lines cd jid worker_id rid n its (produced_final \<or> handled = Some ''final'')
            (evaluation_failure cd handled kvs last_error))
      | Some _ \<Rightarrow> raise PyAttributeError)"

definition failure_outcome :: "failure \<Rightarrow> outcome" where
  "failure_outcome f = (case f of (message, classification, domain) \<Rightarrow>
     \<lparr>out_status = FAILED, out_error_message = message, out_error_classification = Some classification,
      out_failure_domain = Some domain\<rparr>)"

definition conclude_evaluation ::
  "time \<Rightarrow> uuid \<Rightarrow> string \<Rightarrow> uuid \<Rightarrow> int \<Rightarrow> bool \<Rightarrow> failure option \<Rightarrow> outcome program" where
  "conclude_evaluation now jid worker_id rid n produced_final last_error =
     (if produced_final
      then bind (mark_status now rid SUCCEEDED True jid worker_id n) (\<lambda>marked.
           if marked then ret succeeded else ret fenced_out)
      else bind (mark_status now rid FAILED False jid worker_id n) (\<lambda>_.
           ret (case last_error of
                  Some f \<Rightarrow> failure_outcome f
                | None \<Rightarrow> failed_outcome ''subprocess exited without producing a final evaluation'' UNKNOWN
                            (Some ''INFRASTRUCTURE''))))"

definition supervise_evaluation ::
  "codec \<Rightarrow> supervision \<Rightarrow> uuid \<Rightarrow> string \<Rightarrow> uuid \<Rightarrow> int \<Rightarrow> outcome program" where
  "supervise_evaluation cd sv jid worker_id rid n =
     bind (evaluation_lines cd jid worker_id rid n (sv_lines sv) False None) (\<lambda>seen.
     case seen of
       Abandoned \<Rightarrow> ret fenced_out
     | Drained produced_final last_error \<Rightarrow>
         bind (interfere (sv_others sv)) (\<lambda>_.
         if sv_abandoned sv then ret fenced_out
         else conclude_evaluation (sv_at sv) jid worker_id rid n produced_final last_error))"

definition run_evaluation_attempt ::
  "codec \<Rightarrow> (string \<Rightarrow> exn + bytes) \<Rightarrow> (evaluation_context \<Rightarrow> supervision) \<Rightarrow> time \<Rightarrow> string \<Rightarrow> int
   \<Rightarrow> job \<Rightarrow> evaluation_run \<Rightarrow> outcome program" where
  "run_evaluation_attempt cd get_object process now worker_id n j er =
     bind (query (find_evaluation_config (er_evaluation_config_id er))) (\<lambda>config.
     bind (query (find_model_version (er_model_id er) (er_model_version_number er))) (\<lambda>mv.
     bind (prepare_artifact get_object (map_option mv_artifact_id mv)) (\<lambda>model_prep.
     case model_prep of
       None \<Rightarrow> fail_evaluation now (er_id er) (j_id j) worker_id n
                 ''model artifact unavailable or not UPLOADED'' PERMANENT ''DATA''
     | Some model \<Rightarrow>
         bind (query (find_dataset_version (er_dataset_id er) (er_dataset_version_number er))) (\<lambda>dv.
         bind (prepare_artifact get_object (map_option dv_artifact_id dv)) (\<lambda>dataset_prep.
         case dataset_prep of
           None \<Rightarrow> fail_evaluation now (er_id er) (j_id j) worker_id n
                     ''dataset artifact unavailable or not UPLOADED'' PERMANENT ''DATA''
         | Some dataset \<Rightarrow>
             bind (lift_sum (evaluation_context_of j er n config model dataset)) (\<lambda>cx.
             bind (mark_status now (er_id er) RUNNING False (j_id j) worker_id n) (\<lambda>marked.
             if \<not> marked then ret fenced_out
             else supervise_evaluation cd (process cx) (j_id j) worker_id (er_id er) n)))))))"

end
