(* ===== verification/ExecutorRuns.thy ===== *)
theory ExecutorRuns
  imports EvaluationSafety Runs EvalExecutor
begin

text \<open>
  The evaluation executor as a run of the system: every state it commits is reached by steps of
  the system, whatever the process prints and whatever other sessions do meanwhile; and what its
  answer says about the state it leaves.
\<close>

subsection \<open>The fenced writes as runs\<close>

lemma settles_cases [settles_intros]:
  "(\<And>a b. settles (k a b)) \<Longrightarrow> settles (case z of (a, b) \<Rightarrow> k a b)"
  "(\<And>e. settles (g e)) \<Longrightarrow> (\<And>a. settles (f a)) \<Longrightarrow> settles (case y of Inl e \<Rightarrow> g e | Inr a \<Rightarrow> f a)"
  by (simp_all split: prod.split sum.split)

lemma insert_select_run: "appends (insert_select fence conflict violates ins)" "settles (insert_select fence conflict violates ins)"
  unfolding insert_select_def by (intro appends_intros settles_intros)+

lemma mark_status_run: "appends (mark_status now rid st c jid w n)" "settles (mark_status now rid st c jid w n)"
  unfolding mark_status_def by (intro appends_intros settles_intros)+

lemma perform_run: "appends (perform wr jid w n)" "settles (perform wr jid w n)"
  by (cases wr; simp add: checkpoints_register_def training_metrics_record_def outputs_register_def
      resume_decisions_record_def evaluation_results_record_def evaluation_metrics_record_def
      insert_select_run mark_status_run)+

lemma runs_fenced:
  assumes "\<And>d. P d \<Longrightarrow> write_ok wr d"
    and "\<And>d a. P d \<Longrightarrow> result (perform wr jid w n) d = Inr a \<Longrightarrow> Q a (final_db (perform wr jid w n) d)"
  shows "runs (system_step cfg) P (perform wr jid w n) Q"
proof (rule runs_operation [OF perform_run])
  fix d x assume "P d" "x \<in> set (commits (perform wr jid w n) d)"
  then show "(system_step cfg)\<^sup>*\<^sup>* d x" using assms(1) system_step.fenced by blast
qed (rule assms(2))

lemma runs_fenced_any: "(\<And>d. write_ok wr d) \<Longrightarrow> runs (system_step cfg) anywhere (perform wr jid w n) any_result"
  by (rule runs_fenced) simp_all

lemmas runs_evaluation_writes [runs_intros] =
  runs_fenced_any [of "WResult r" for r, unfolded perform.simps, OF write_ok.simps(6) [THEN iffD2, OF TrueI]]
  runs_fenced_any [of "WMetric m" for m, unfolded perform.simps, OF write_ok.simps(7) [THEN iffD2, OF TrueI]]

text \<open>An insert that never takes place is one too.\<close>

lemma runs_never_inserts [runs_intros]:
  "runs (system_step cfg) anywhere (insert_select fence (\<lambda>_. False) (\<lambda>_. True) ins) any_result"
proof (rule runs_operation [OF insert_select_run])
  fix d x assume "x \<in> set (commits (insert_select fence (\<lambda>_. False) (\<lambda>_. True) ins) d)"
  then have "x = d" by (cases "fence d") (simp_all add: insert_select_def prog_defs run_defs)
  then show "(system_step cfg)\<^sup>*\<^sup>* d x" by simp
qed simp

lemma sql_update_hit: "r \<in> set t \<Longrightarrow> p r \<Longrightarrow> q (f r) \<Longrightarrow> \<exists>e \<in> set (sql_update p f t). q e"
  unfolding sql_update_def by force

lemma runs_mark_status:
  assumes "st \<in> {RUNNING, SUCCEEDED, FAILED}" and "c \<longleftrightarrow> st = SUCCEEDED"
  shows "runs (system_step cfg) anywhere (mark_status now rid st c jid w n)
     (\<lambda>ok d. ok \<longrightarrow> owns jid w n d
        \<and> (\<exists>e \<in> set (t_evaluation_runs d). er_id e = rid \<and> er_status e = st \<and> er_completed_at e = (if c then Some now else None)))"
    (is "runs _ _ ?m ?Q")
proof -
  have "?Q ok (final_db ?m d)" if "result ?m d = Inr ok" for d ok
    using that
    by (cases "owns jid w n d")
       (auto simp: mark_status_def prog_defs run_defs has_evaluation_run_def sql_exists_iff owns_def intro!: sql_update_hit)
  then have "runs (system_step cfg) anywhere (perform (WStatus now rid st c) jid w n) ?Q"
    by (intro runs_fenced) (use assms in auto)
  then show ?thesis by simp
qed

lemmas runs_mark_any = runs_weaken [OF runs_mark_status, where Q' = any_result, simplified]

subsection \<open>The executor\<close>

lemma runs_lift_sum [runs_intros]: "runs R anywhere (lift_sum r) any_result"
  unfolding lift_sum_def by (intro runs_intros)

lemma runs_prepare_artifact: "runs R anywhere (prepare_artifact get_object va) any_result"
  unfolding prepare_artifact_def artifacts_get_def by (intro runs_intros TrueI)+

lemma runs_then_ret: "runs R P m any_result \<Longrightarrow> (\<And>d. Q a d) \<Longrightarrow> runs R P (bind m (\<lambda>_. ret a)) Q"
  by (rule runs_bind, assumption) (rule runs_ret, simp)

lemma runs_record_events [runs_intros]:
  "runs (system_step cfg) anywhere (record_result_event cd now jid w rid n kvs) any_result"
  "runs (system_step cfg) anywhere (record_metric_event now jid w rid n kvs) any_result"
  unfolding record_result_event_def record_metric_event_def
  by (intro runs_intros TrueI)+

lemma runs_handle_evaluation_event:
  "runs (system_step cfg) anywhere (handle_evaluation_event cd now jid w rid n kvs)
     (\<lambda>h _. h = Some ''final'' \<longrightarrow> obj_get ''event'' kvs = JStr ''final'')"
  unfolding handle_evaluation_event_def Let_def
  by (simp add: runs_then_ret runs_record_events runs_ret runs_raise)

text \<open>What the processes of other sessions do is a run of the system.\<close>

definition quiet_lines :: "settings \<Rightarrow> stream_item list \<Rightarrow> bool" where
  "quiet_lines cfg its \<longleftrightarrow> (\<forall>it \<in> set its. \<forall>x. (system_step cfg)\<^sup>*\<^sup>* x (si_others it x))"

definition quiet :: "settings \<Rightarrow> supervision \<Rightarrow> bool" where
  "quiet cfg sv \<longleftrightarrow> quiet_lines cfg (sv_lines sv) \<and> (\<forall>x. (system_step cfg)\<^sup>*\<^sup>* x (sv_others sv x))"

definition final_line :: "stream_item \<Rightarrow> bool" where
  "final_line it \<longleftrightarrow> (\<exists>kvs. si_event it = Some (JObj kvs) \<and> obj_get ''event'' kvs = JStr ''final'')"

definition saw_final :: "bool \<Rightarrow> drained \<Rightarrow> bool" where
  "saw_final b seen \<longleftrightarrow> (\<forall>le. seen = Drained True le \<longrightarrow> b)"

lemma saw_final_mono: "saw_final b seen \<Longrightarrow> (b \<Longrightarrow> b') \<Longrightarrow> saw_final b' seen"
  by (simp add: saw_final_def)

lemma runs_evaluation_lines:
  "quiet_lines cfg its \<Longrightarrow>
   runs (system_step cfg) anywhere (evaluation_lines cd jid w rid n its pf le)
     (\<lambda>seen _. saw_final (pf \<or> list_ex final_line its) seen)"
proof (induction its arbitrary: pf le)
  case Nil
  show ?case by (auto intro!: runs_ret simp: saw_final_def)
next
  case (Cons it its)
  let ?Q = "\<lambda>seen (_ :: db). saw_final (pf \<or> list_ex final_line (it # its)) seen"
  have its: "quiet_lines cfg its" and env: "\<And>x. (system_step cfg)\<^sup>*\<^sup>* x (si_others it x)"
    using Cons.prems by (auto simp: quiet_lines_def)
  note IH = Cons.IH [OF its]
  have skip: "runs (system_step cfg) anywhere (evaluation_lines cd jid w rid n its pf le) ?Q"
    by (rule runs_weaken [OF IH]) (auto elim: saw_final_mono)
  have event: "runs (system_step cfg) anywhere
      (bind (handle_evaluation_event cd (si_at it) jid w rid n kvs) (\<lambda>handled.
         evaluation_lines cd jid w rid n its (pf \<or> handled = Some ''final'') (evaluation_failure cd handled kvs le))) ?Q"
    if "si_event it = Some (JObj kvs)" for kvs
  proof (rule runs_bind [OF runs_handle_evaluation_event])
    fix a
    have fl: "obj_get ''event'' kvs = JStr ''final'' \<Longrightarrow> final_line it" using that by (simp add: final_line_def)
    show "runs (system_step cfg) (\<lambda>d. a = Some ''final'' \<longrightarrow> obj_get ''event'' kvs = JStr ''final'')
      (evaluation_lines cd jid w rid n its (pf \<or> a = Some ''final'') (evaluation_failure cd a kvs le)) ?Q"
    proof (rule runs_pre)
      assume "a = Some ''final'' \<longrightarrow> obj_get ''event'' kvs = JStr ''final''"
      with fl show "runs (system_step cfg) (\<lambda>d. a = Some ''final'' \<longrightarrow> obj_get ''event'' kvs = JStr ''final'')
        (evaluation_lines cd jid w rid n its (pf \<or> a = Some ''final'') (evaluation_failure cd a kvs le)) ?Q"
        by (intro runs_weaken [OF IH]) (auto elim: saw_final_mono)
    qed (use IH runs_def in blast)+
  qed
  have "runs (system_step cfg) anywhere
      (if si_abandoned it then ret Abandoned
       else case si_event it of None \<Rightarrow> evaluation_lines cd jid w rid n its pf le
        | Some (JObj kvs) \<Rightarrow>
           bind (handle_evaluation_event cd (si_at it) jid w rid n kvs) (\<lambda>handled.
             evaluation_lines cd jid w rid n its (pf \<or> handled = Some ''final'') (evaluation_failure cd handled kvs le))
        | Some _ \<Rightarrow> raise PyAttributeError) ?Q"
  proof (cases "si_event it")
    case None
    with skip show ?thesis by (auto intro!: runs_ret simp: saw_final_def [of _ Abandoned])
  next
    case (Some v)
    with event show ?thesis
      by (cases v) (auto intro!: runs_ret runs_raise simp: saw_final_def [of _ Abandoned])
  qed
  then show ?case
    by (simp only: evaluation_lines.simps) (rule runs_bind [OF runs_interfere [OF env, of anywhere any_result]], simp)
qed

text \<open>What success claims of the state it leaves.\<close>

definition completed_run :: "uuid \<Rightarrow> string \<Rightarrow> int \<Rightarrow> uuid \<Rightarrow> db \<Rightarrow> bool" where
  "completed_run jid w n rid d \<longleftrightarrow> owns jid w n d
     \<and> (\<exists>e \<in> set (t_evaluation_runs d). er_id e = rid \<and> er_status e = SUCCEEDED \<and> er_completed_at e \<noteq> None)"

definition claims :: "bool \<Rightarrow> (db \<Rightarrow> bool) \<Rightarrow> outcome \<Rightarrow> db \<Rightarrow> bool" where
  "claims b C out d \<longleftrightarrow> (out_status out = SUCCEEDED \<longrightarrow> b \<and> C d)"

lemma claims_failed [simp]:
  "claims b C fenced_out d" "claims b C (failed_outcome m c dm) d" "claims b C (failure_outcome f) d"
  by (simp_all add: claims_def fenced_out_def failed_outcome_def failure_outcome_def split: prod.split)

lemma claims_mono: "claims b C out d \<Longrightarrow> (b \<Longrightarrow> b') \<Longrightarrow> claims b' C out d"
  by (simp add: claims_def)

lemma runs_conclude:
  "runs (system_step cfg) anywhere (conclude_evaluation now jid w rid n pf le) (claims pf (completed_run jid w n rid))"
proof (cases pf)
  case True
  show ?thesis
    unfolding conclude_evaluation_def if_P [OF True]
    by (rule runs_bind [OF runs_mark_status]; (intro runs_if runs_ret)?)
       (use True in \<open>auto simp: completed_run_def claims_def [of _ _ succeeded]\<close>)
next
  case False
  show ?thesis
    unfolding conclude_evaluation_def if_not_P [OF False]
    by (rule runs_bind [OF runs_mark_any]) (auto intro!: runs_ret split: option.split)
qed

lemma appends_conclude: "appends (conclude_evaluation now jid w rid n pf le)"
  using runs_conclude unfolding runs_def by blast

lemma runs_supervise:
  assumes "quiet cfg sv"
  shows "runs (system_step cfg) anywhere (supervise_evaluation cd sv jid w rid n)
     (claims (list_ex final_line (sv_lines sv)) (completed_run jid w n rid))" (is "runs _ _ _ ?Q")
proof -
  have lines: "quiet_lines cfg (sv_lines sv)" and env: "\<And>x. (system_step cfg)\<^sup>*\<^sup>* x (sv_others sv x)"
    using assms by (auto simp: quiet_def)
  have last: "runs (system_step cfg) (\<lambda>_. saw_final (False \<or> list_ex final_line (sv_lines sv)) (Drained pf le))
      (bind (interfere (sv_others sv)) (\<lambda>_. if sv_abandoned sv then ret fenced_out
         else conclude_evaluation (sv_at sv) jid w rid n pf le)) ?Q" for pf le
    by (rule runs_bind [OF runs_interfere [OF env, where Q = "\<lambda>_ _. saw_final (False \<or> list_ex final_line (sv_lines sv)) (Drained pf le)"]],
        assumption, intro runs_if runs_ret claims_failed, rule runs_pre,
        assumption, rule runs_weaken [OF runs_conclude])
       (auto elim: claims_mono simp: saw_final_def appends_conclude)
  show ?thesis
    unfolding supervise_evaluation_def
    by (rule runs_bind [OF runs_evaluation_lines [OF lines]], rename_tac seen, case_tac seen;
        simp only: drained.case)
       (rule runs_ret, simp, rule last)
qed

subsection \<open>The whole attempt\<close>

text \<open>What the executor finds of a registered artifact, as a function of the state.\<close>

definition source :: "(string \<Rightarrow> exn + bytes) \<Rightarrow> uuid option \<Rightarrow> db \<Rightarrow> (bytes \<times> string) option" where
  "source get_object va d =
     (case va of None \<Rightarrow> None
      | Some aid \<Rightarrow> (case find_artifact aid d of None \<Rightarrow> None
          | Some a \<Rightarrow> if f_status a \<noteq> AUploaded then None
              else (case get_object (f_storage_key a) of Inl _ \<Rightarrow> None
                    | Inr data \<Rightarrow> Some (data, f_content_hash a))))"

definition model_source :: "(string \<Rightarrow> exn + bytes) \<Rightarrow> evaluation_run \<Rightarrow> db \<Rightarrow> (bytes \<times> string) option" where
  "model_source get_object er d =
     source get_object (map_option mv_artifact_id (find_model_version (er_model_id er) (er_model_version_number er) d)) d"

definition dataset_source :: "(string \<Rightarrow> exn + bytes) \<Rightarrow> evaluation_run \<Rightarrow> db \<Rightarrow> (bytes \<times> string) option" where
  "dataset_source get_object er d =
     source get_object (map_option dv_artifact_id (find_dataset_version (er_dataset_id er) (er_dataset_version_number er) d)) d"

lemma prepare_artifact_query: "prepare_artifact get_object va = query (source get_object va)"
proof (cases va)
  case None
  then show ?thesis by (simp add: prepare_artifact_def source_def query_def ret_def fun_eq_iff)
next
  case (Some aid)
  then show ?thesis
    by (auto simp: prepare_artifact_def source_def artifacts_get_def query_def ret_def bind_def fun_eq_iff
        split: option.split sum.split)
qed

lemma bind_query_begin: "bind (query q) f (begin_session d) = f (q d) (begin_session d)"
  by (simp add: bind_def query_def begin_session_def)

lemma bind_laws: "bind (ret a) f = f a" "bind (raise e) f = raise e"
  by (simp_all add: fun_eq_iff bind_def ret_def raise_def)

lemma runs_known:
  "appends m \<Longrightarrow> m (begin_session d0) = m' (begin_session d0) \<Longrightarrow> runs R (\<lambda>d. d = d0) m' Q \<Longrightarrow>
   runs R (\<lambda>d. d = d0) m Q"
  by (simp add: runs_def commits_def result_def final_db_def)

lemma appends_lift_sum [appends_intros]: "appends (lift_sum r)"
  unfolding lift_sum_def by (intro appends_intros)

lemma appends_evaluation_event: "appends (handle_evaluation_event cd now jid w rid n kvs)"
  using runs_handle_evaluation_event unfolding runs_def by blast

lemma appends_evaluation_lines [appends_intros]: "appends (evaluation_lines cd jid w rid n its pf le)"
  by (induction its arbitrary: pf le)
     (auto intro!: appends_intros appends_evaluation_event split: option.split json.split)

lemma appends_supervise [appends_intros]: "appends (supervise_evaluation cd sv jid w rid n)"
  unfolding supervise_evaluation_def
  by (intro appends_bind appends_evaluation_lines, rename_tac seen, case_tac seen)
     (auto intro!: appends_intros appends_conclude)

lemma appends_evaluation_attempt: "appends (run_evaluation_attempt cd get_object process now w n j er)"
  unfolding run_evaluation_attempt_def prepare_artifact_query fail_evaluation_def
  by (intro appends_intros mark_status_run)

lemma runs_fail_evaluation: "runs (system_step cfg) anywhere (fail_evaluation now rid jid w n m c dm) (claims b C)"
  unfolding fail_evaluation_def by (rule runs_bind [OF runs_mark_any]) (auto intro!: runs_ret)

definition after_reading ::
  "codec \<Rightarrow> (string \<Rightarrow> exn + bytes) \<Rightarrow> (evaluation_context \<Rightarrow> supervision) \<Rightarrow> time \<Rightarrow> string \<Rightarrow> int
   \<Rightarrow> job \<Rightarrow> evaluation_run \<Rightarrow> db \<Rightarrow> outcome program" where
  "after_reading cd get_object process now w n j er d =
     (case model_source get_object er d of
        None \<Rightarrow> fail_evaluation now (er_id er) (j_id j) w n ''model artifact unavailable or not UPLOADED'' PERMANENT ''DATA''
      | Some model \<Rightarrow> (case dataset_source get_object er d of
          None \<Rightarrow> fail_evaluation now (er_id er) (j_id j) w n ''dataset artifact unavailable or not UPLOADED'' PERMANENT ''DATA''
        | Some dataset \<Rightarrow>
            bind (lift_sum (evaluation_context_of j er n (find_evaluation_config (er_evaluation_config_id er) d) model dataset)) (\<lambda>cx.
            bind (mark_status now (er_id er) RUNNING False (j_id j) w n) (\<lambda>marked.
            if \<not> marked then ret fenced_out else supervise_evaluation cd (process cx) (j_id j) w (er_id er) n))))"

lemma evaluation_attempt_begin:
  "run_evaluation_attempt cd get_object process now w n j er (begin_session d)
     = after_reading cd get_object process now w n j er d (begin_session d)"
  by (simp add: run_evaluation_attempt_def after_reading_def prepare_artifact_query bind_query_begin
      model_source_def dataset_source_def split: option.split)

definition earned ::
  "(string \<Rightarrow> exn + bytes) \<Rightarrow> (evaluation_context \<Rightarrow> supervision) \<Rightarrow> int \<Rightarrow> job \<Rightarrow> evaluation_run \<Rightarrow> db \<Rightarrow> bool" where
  "earned get_object process n j er d \<longleftrightarrow>
     (\<exists>model dataset cx. model_source get_object er d = Some model \<and> dataset_source get_object er d = Some dataset
       \<and> evaluation_context_of j er n (find_evaluation_config (er_evaluation_config_id er) d) model dataset = Inr cx
       \<and> list_ex final_line (sv_lines (process cx)))"

lemma runs_evaluation_attempt:
  assumes quiet: "\<And>cx. quiet cfg (process cx)"
  shows "runs (system_step cfg) (\<lambda>d. d = d0) (run_evaluation_attempt cd get_object process now w n j er)
     (claims (earned get_object process n j er d0) (completed_run (j_id j) w n (er_id er)))"
proof -
  let ?config = "find_evaluation_config (er_evaluation_config_id er) d0"
  have rest: "runs (system_step cfg) (\<lambda>d. d = d0)
      (bind (lift_sum (evaluation_context_of j er n ?config model dataset)) (\<lambda>cx.
       bind (mark_status now (er_id er) RUNNING False (j_id j) w n) (\<lambda>marked.
       if \<not> marked then ret fenced_out else supervise_evaluation cd (process cx) (j_id j) w (er_id er) n)))
     (claims (earned get_object process n j er d0) (completed_run (j_id j) w n (er_id er)))"
    if "model_source get_object er d0 = Some model" "dataset_source get_object er d0 = Some dataset" for model dataset
  proof (cases "evaluation_context_of j er n ?config model dataset")
    case (Inl e)
    then show ?thesis
      by (simp add: lift_sum_def bind_laws runs_raise)
  next
    case (Inr cx)
    have e: "list_ex final_line (sv_lines (process cx)) \<Longrightarrow> earned get_object process n j er d0"
      using that Inr by (auto simp: earned_def)
    have "runs (system_step cfg) anywhere
      (bind (mark_status now (er_id er) RUNNING False (j_id j) w n) (\<lambda>marked.
       if \<not> marked then ret fenced_out else supervise_evaluation cd (process cx) (j_id j) w (er_id er) n))
     (claims (earned get_object process n j er d0) (completed_run (j_id j) w n (er_id er)))"
      by (rule runs_bind [OF runs_mark_any]) (auto intro!: runs_ret runs_weaken [OF runs_supervise [OF quiet]] elim: claims_mono [OF _ e])
    then show ?thesis
      by (simp add: lift_sum_def bind_laws Inr runs_weaken)
  qed
  have "runs (system_step cfg) (\<lambda>d. d = d0) (after_reading cd get_object process now w n j er d0)
     (claims (earned get_object process n j er d0) (completed_run (j_id j) w n (er_id er)))"
    unfolding after_reading_def
    by (intro runs_option rest; (assumption | rule runs_weaken [OF runs_fail_evaluation, where P' = "\<lambda>d. d = d0"], simp_all))
  with appends_evaluation_attempt evaluation_attempt_begin show ?thesis by (rule runs_known)
qed

end
