(* ===== verification/Gpu.thy ===== *)
theory Gpu
  imports Gates Scheduler
begin

text \<open>
  The check a training or evaluation process makes before anything else (app/training/gpu.py):
  does the machine have what the reservation promised?  The answer of the driver
  (\<^verbatim>\<open>probe_cuda\<close>, torch) is an argument: whether CUDA is available, the number of devices and the
  memory of the first one.  The requirements come out of a job's configuration as JSON.
\<close>

type_synonym gpu_probe = "bool \<times> int \<times> int option"

record gpu_check =
  gpu_ok :: bool
  gpu_reason :: "string option"
  gpu_device_count :: int
  gpu_total_memory_mb :: "int option"

text \<open>Python compares an integer with a number exactly, and with anything else not at all.\<close>

definition json_compare :: "(pyfloat \<Rightarrow> bool) \<Rightarrow> json \<Rightarrow> exn + bool" where
  "json_compare p v = (case json_number v of None \<Rightarrow> Inl PyTypeError | Some x \<Rightarrow> Inr (p x))"

definition gpu_refused :: "string \<Rightarrow> int \<Rightarrow> int option \<Rightarrow> gpu_check" where
  "gpu_refused reason device_count total_mb =
     \<lparr>gpu_ok = False, gpu_reason = Some reason, gpu_device_count = device_count, gpu_total_memory_mb = total_mb\<rparr>"

definition gpu_passed :: "int \<Rightarrow> int option \<Rightarrow> gpu_check" where
  "gpu_passed device_count total_mb =
     \<lparr>gpu_ok = True, gpu_reason = None, gpu_device_count = device_count, gpu_total_memory_mb = total_mb\<rparr>"

definition verify_gpu :: "gpu_probe \<Rightarrow> json \<Rightarrow> json \<Rightarrow> exn + gpu_check" where
  "verify_gpu probe required_gpu required_memory_mb =
     sum_bind (json_compare (\<lambda>r. f_le r (Fin 0)) required_gpu) (\<lambda>cpu_only.
     if cpu_only then Inr (gpu_passed 0 None)
     else (case probe of (available, device_count, total_mb) \<Rightarrow>
       if \<not> available then Inr (gpu_refused ''cuda_unavailable'' 0 None)
       else sum_bind (json_compare (\<lambda>r. f_lt (Fin (of_int device_count)) r) required_gpu) (\<lambda>too_few.
         if too_few then Inr (gpu_refused ''insufficient_gpu_count'' device_count total_mb)
         else sum_bind (case total_mb of None \<Rightarrow> Inr False
                          | Some mb \<Rightarrow> json_compare (\<lambda>r. f_lt (Fin (of_int mb)) r) required_memory_mb) (\<lambda>too_small.
           if too_small then Inr (gpu_refused ''insufficient_gpu_memory'' device_count total_mb)
           else Inr (gpu_passed device_count total_mb)))))"

text \<open>For the integer requirements the scheduler admits: the check passes exactly if no GPU is
  asked for, or CUDA is available with at least as many devices and, where the driver reports it,
  at least as much memory as required; and a refusal names its reason.\<close>

theorem verify_gpu_exact:
  "\<exists>r. verify_gpu (available, device_count, total_mb) (JInt gpu) (JInt mem) = Inr r
     \<and> (gpu_ok r \<longleftrightarrow> gpu \<le> 0 \<or> available \<and> gpu \<le> device_count \<and> (case total_mb of None \<Rightarrow> True | Some mb \<Rightarrow> mem \<le> mb))
     \<and> (gpu_ok r \<longleftrightarrow> gpu_reason r = None)"
  by (auto simp: verify_gpu_def json_compare_def sum_bind_def gpu_passed_def gpu_refused_def not_le split: option.splits)

end
