(* ===== verification/Evaluator.thy ===== *)
theory Evaluator
  imports Gpu Metrics EvalExecutor
begin

text \<open>
  The evaluation process (app/evaluation/subprocess_main.py) and the evaluator it runs by default
  (app/evaluation/toy_evaluator.py): the machine is checked, then the bytes of both artifacts are
  hashed again, and only then is anything evaluated.  A process is the list of the events it
  reports and whether it ended with a traceback; an event is the JSON value of its line.  The
  latencies it measures are an argument.
\<close>

subsection \<open>Reading the files\<close>

text \<open>\<^verbatim>\<open>float(v)\<close>\<close>

definition py_float :: "codec \<Rightarrow> json \<Rightarrow> exn + pyfloat" where
  "py_float cd v = (case v of JStr s \<Rightarrow> parse_float cd s | _ \<Rightarrow> json_to_float v)"

text \<open>\<^verbatim>\<open>xs[:k]\<close>\<close>

definition slice_to :: "int \<Rightarrow> 'a list \<Rightarrow> 'a list" where
  "slice_to k xs = (if 0 \<le> k then take (nat k) xs else take (length xs - nat (- k)) xs)"

text \<open>What a loop over a value visits: the elements of a list, the keys of an object, the
  characters of a string.\<close>

fun py_iter :: "json \<Rightarrow> exn + json list" where
  "py_iter (JArr xs) = Inr xs"
| "py_iter (JObj kvs) = Inr (map (\<lambda>(k, v). JStr k) kvs)"
| "py_iter (JStr s) = Inr (map (\<lambda>c. JStr [c]) s)"
| "py_iter _ = Inl PyTypeError"

fun py_slice_to :: "int \<Rightarrow> json \<Rightarrow> exn + json" where
  "py_slice_to k (JArr xs) = Inr (JArr (slice_to k xs))"
| "py_slice_to k (JStr s) = Inr (JStr (slice_to k s))"
| "py_slice_to k (JObj kvs) = Inl PyKeyError"
| "py_slice_to k _ = Inl PyTypeError"

fun subscript :: "json \<Rightarrow> string \<Rightarrow> exn + json" where
  "subscript (JObj kvs) k = (case map_of kvs k of None \<Rightarrow> Inl PyKeyError | Some v \<Rightarrow> Inr v)"
| "subscript _ k = Inl PyTypeError"

fun as_string :: "json \<Rightarrow> exn + string" where
  "as_string (JStr s) = Inr s"
| "as_string _ = Inl PyAttributeError"

text \<open>\<^verbatim>\<open>(v or "")\<close> on which string methods are called.\<close>

definition string_or_empty :: "json \<Rightarrow> exn + string option" where
  "string_or_empty v =
     (if falsy v then Inr None else (case v of JStr s \<Rightarrow> Inr (Some s) | _ \<Rightarrow> Inl PyAttributeError))"

subsection \<open>The toy evaluator\<close>

definition result_event :: "string \<Rightarrow> string \<Rightarrow> json \<Rightarrow> pyfloat \<Rightarrow> pyfloat \<Rightarrow> json" where
  "result_event example_id prediction expected em latency_ms =
     JObj [(''event'', JStr ''result''), (''example_id'', JStr example_id), (''prediction'', JStr prediction),
           (''expected_output'', expected), (''score'', JFloat em), (''latency_ms'', JFloat latency_ms)]"

definition metric_event :: "json \<Rightarrow> aggregate_metric \<Rightarrow> json" where
  "metric_event split m =
     JObj [(''event'', JStr ''metric''), (''metric_name'', JStr (ag_metric_name m)),
           (''metric_value'', JFloat (ag_metric_value m)), (''split'', split),
           (''sample_count'', JInt (int (ag_sample_count m)))]"

definition final_event :: "nat \<Rightarrow> json" where
  "final_event k = JObj [(''event'', JStr ''final''), (''example_count'', JInt (int k))]"

definition evaluate_example :: "codec \<Rightarrow> pyfloat \<Rightarrow> pyfloat \<Rightarrow> json \<Rightarrow> exn + json \<times> example_record" where
  "evaluate_example cd param latency_ms example =
     sum_bind (subscript example ''id'') (\<lambda>i.
     sum_bind (json_get example ''input'' (JStr [])) (\<lambda>input_text.
     sum_bind (json_get example ''expected_output'' (JStr [])) (\<lambda>expected.
     sum_bind (as_string input_text) (\<lambda>text.
     let prediction = toy_predict text param in
     sum_bind (string_or_empty expected) (\<lambda>answer.
     let em = exact_match (Some prediction) answer; ta = token_accuracy (Some prediction) answer in
     Inr (result_event (py_str cd i) prediction expected em latency_ms,
          \<lparr>xr_exact_match = em, xr_token_accuracy = ta, xr_latency_ms = Some latency_ms\<rparr>))))))"

text \<open>The loop: what was reported, and what was recorded or the exception that ended it.\<close>

fun evaluate_examples ::
  "codec \<Rightarrow> (nat \<Rightarrow> pyfloat) \<Rightarrow> pyfloat \<Rightarrow> json list \<Rightarrow> json list \<Rightarrow> example_record list
   \<Rightarrow> json list \<times> (exn + example_record list)" where
  "evaluate_examples cd latency param [] events per_example = (events, Inr per_example)"
| "evaluate_examples cd latency param (ex # exs) events per_example =
     (case evaluate_example cd param (latency (length per_example)) ex of
        Inl e \<Rightarrow> (events, Inl e)
      | Inr (event, row) \<Rightarrow> evaluate_examples cd latency param exs (events @ [event]) (per_example @ [row]))"

definition selected_examples :: "evaluation_context \<Rightarrow> json \<Rightarrow> exn + json list" where
  "selected_examples cx dataset =
     sum_bind (json_get dataset ''examples'' (JArr [])) (\<lambda>examples.
     sum_bind (case cx_max_examples cx of None \<Rightarrow> Inr examples | Some k \<Rightarrow> py_slice_to k examples) py_iter)"

definition toy_inputs :: "codec \<Rightarrow> evaluation_context \<Rightarrow> exn + pyfloat \<times> json list" where
  "toy_inputs cd cx =
     sum_bind (json_load cd (cx_model cx)) (\<lambda>model.
     sum_bind (json_load cd (cx_dataset cx)) (\<lambda>dataset.
     sum_bind (json_get model ''param'' (JFloat (Fin 0))) (\<lambda>v.
     sum_bind (py_float cd v) (\<lambda>param.
     sum_bind (selected_examples cx dataset) (\<lambda>examples. Inr (param, examples))))))"

definition toy_evaluator :: "codec \<Rightarrow> (nat \<Rightarrow> pyfloat) \<Rightarrow> evaluation_context \<Rightarrow> json list \<times> exn option" where
  "toy_evaluator cd latency cx =
     (case toy_inputs cd cx of
        Inl e \<Rightarrow> ([], Some e)
      | Inr (param, examples) \<Rightarrow>
          (case evaluate_examples cd latency param examples [] [] of
             (events, Inl e) \<Rightarrow> (events, Some e)
           | (events, Inr per_example) \<Rightarrow>
               (events @ map (metric_event (cx_split cx)) (aggregate per_example)
                  @ [final_event (length per_example)], None)))"

subsection \<open>The process\<close>

type_synonym evaluator = "evaluation_context \<Rightarrow> json list \<times> exn option"

definition gpu_failed_event :: "gpu_check \<Rightarrow> json" where
  "gpu_failed_event r =
     JObj [(''event'', JStr ''gpu_check_failed''), (''reason'', case gpu_reason r of None \<Rightarrow> JNull | Some t \<Rightarrow> JStr t)]"

definition gpu_passed_event :: "gpu_check \<Rightarrow> json" where
  "gpu_passed_event r =
     JObj [(''event'', JStr ''gpu_check_passed''), (''device_count'', JInt (gpu_device_count r))]"

definition artifact_failed_event :: "string \<Rightarrow> string \<Rightarrow> string \<Rightarrow> json" where
  "artifact_failed_event kind expected actual =
     JObj [(''event'', JStr ''artifact_check_failed''), (''artifact'', JStr kind),
           (''expected_hash'', JStr expected), (''actual_hash'', JStr actual)]"

definition artifact_passed_event :: json where
  "artifact_passed_event = JObj [(''event'', JStr ''artifact_check_passed'')]"

definition run_evaluator :: "codec \<Rightarrow> evaluator \<Rightarrow> evaluation_context \<Rightarrow> json list" where
  "run_evaluator cd evaluator cx =
     (case evaluator cx of
        (events, None) \<Rightarrow> events
      | (events, Some e) \<Rightarrow>
          events @ [JObj [(''event'', JStr ''evaluation_error''), (''message'', JStr (exn_text cd e))]])"

text \<open>\<^verbatim>\<open>main\<close>: the reported events and whether it ended with a traceback.  \<open>modules\<close> is what the
  interpreter finds under the name of an evaluator.\<close>

definition evaluation_main ::
  "codec \<Rightarrow> (bytes \<Rightarrow> string) \<Rightarrow> gpu_probe \<Rightarrow> (json \<Rightarrow> evaluator option) \<Rightarrow> evaluation_context \<Rightarrow> json list \<times> bool" where
  "evaluation_main cd hash_bytes probe modules cx =
     (case verify_gpu probe (cx_required_gpu cx) (cx_required_memory_mb cx) of
        Inl e \<Rightarrow> ([], True)
      | Inr gpu_result \<Rightarrow>
          if \<not> gpu_ok gpu_result then ([gpu_failed_event gpu_result], False)
          else if hash_bytes (cx_model cx) \<noteq> cx_model_expected_hash cx
          then ([gpu_passed_event gpu_result,
                 artifact_failed_event ''model'' (cx_model_expected_hash cx) (hash_bytes (cx_model cx))], False)
          else if hash_bytes (cx_dataset cx) \<noteq> cx_dataset_expected_hash cx
          then ([gpu_passed_event gpu_result,
                 artifact_failed_event ''dataset'' (cx_dataset_expected_hash cx) (hash_bytes (cx_dataset cx))], False)
          else (case modules (cx_evaluator_entrypoint cx) of
                  None \<Rightarrow> ([gpu_passed_event gpu_result, artifact_passed_event], True)
                | Some evaluator \<Rightarrow>
                    ([gpu_passed_event gpu_result, artifact_passed_event] @ run_evaluator cd evaluator cx, False)))"

text \<open>What the supervisor sees of it when no other session interferes: the lines of the events, and
  one more, that is not an event, for a traceback.\<close>

definition undisturbed :: "time \<Rightarrow> json list \<times> bool \<Rightarrow> supervision" where
  "undisturbed now out =
     \<lparr>sv_lines = map (\<lambda>e. \<lparr>si_event = Some e, si_abandoned = False, si_others = id, si_at = now\<rparr>) (fst out)
        @ (if snd out then [\<lparr>si_event = None, si_abandoned = False, si_others = id, si_at = now\<rparr>] else []),
      sv_abandoned = False, sv_others = id, sv_at = now\<rparr>"

end
