(* ===== verification/EvaluatorSafety.thy ===== *)
theory EvaluatorSafety
  imports ExecutorRuns Evaluator
begin

text \<open>
  The evaluation end to end: what the evaluator reports over the bytes of the registered artifacts
  is what is persisted, and bytes that are not the registered ones never score.
\<close>

subsection \<open>Running in sequence\<close>

lemma in_sequence:
  assumes "appends m" and "settles m" and "\<And>a. appends (f a)" and "result m d = Inr a"
  shows "result (bind m f) d = result (f a) (final_db m d)"
    and "final_db (bind m f) d = final_db (f a) (final_db m d)"
proof -
  obtain r w1 l where m1: "m (begin_session d) = (r, \<lparr>work = w1, durable = l\<rparr>)" by (rule session_result)
  have "l \<noteq> []" using appendsD [OF assms(1) m1 [unfolded begin_session_def]] by blast
  then obtain h t where l: "l = h # t" by (cases l) auto
  have r: "r = Inr a" using assms(4) m1 by (simp add: result_def)
  have w: "w1 = h" using settles_result [OF assms(2,4)] m1 l by (simp add: final_db_def)
  obtain r2 w2 l2 where f1: "f a \<lparr>work = h, durable = [h]\<rparr> = (r2, \<lparr>work = w2, durable = l2\<rparr>)"
    by (rule session_result)
  have f2: "f a \<lparr>work = h, durable = h # t\<rparr> = (r2, \<lparr>work = w2, durable = l2 @ t\<rparr>)" and "l2 \<noteq> []"
    using appendsD [OF assms(3) f1] by auto
  then have b: "bind m f (begin_session d) = (r2, \<lparr>work = w2, durable = l2 @ t\<rparr>)"
    by (simp add: bind_def m1 r w l)
  show "result (bind m f) d = result (f a) (final_db m d)"
    "final_db (bind m f) d = final_db (f a) (final_db m d)"
    using b f1 m1 l \<open>l2 \<noteq> []\<close> by (simp_all add: result_def final_db_def begin_session_def)
qed

lemma run_simple:
  "result (ret a) d = Inr a" "final_db (ret a) d = d" "result (raise e) d = Inl e" "final_db (raise e) d = d"
  "result (interfere k) d = Inr ()" "final_db (interfere k) d = k d"
  by (simp_all add: run_defs prog_defs)

lemma insert_select_effect:
  "result (insert_select fence conflict violates ins) d
     = (if fence d \<and> \<not> conflict d \<and> violates d then Inl IntegrityError else Inr (fence d \<and> \<not> conflict d))"
  "final_db (insert_select fence conflict violates ins) d
     = (if fence d \<and> \<not> conflict d \<and> \<not> violates d then ins d else d)"
  by (simp_all add: insert_select_def prog_defs run_defs)

lemma mark_status_effect:
  "result (mark_status now rid st c jid w n) d = Inr (owns jid w n d \<and> has_evaluation_run rid d)"
  "final_db (mark_status now rid st c jid w n) d
     = (if owns jid w n d
        then d\<lparr>t_evaluation_runs := sql_update (\<lambda>e. er_id e = rid)
               (\<lambda>e. e\<lparr>er_status := st, er_completed_at := if c then Some now else None\<rparr>) (t_evaluation_runs d)\<rparr> else d)"
  by (simp_all add: mark_status_def prog_defs run_defs)

subsection \<open>What an event writes\<close>

definition result_ids :: "uuid \<Rightarrow> db \<Rightarrow> string set" where
  "result_ids rid d = ex_example_id ` {r \<in> set (t_evaluation_results d). ex_evaluation_run_id r = rid}"

definition store_result :: "evaluation_result \<Rightarrow> db \<Rightarrow> db" where
  "store_result r d =
     (if sql_exists (\<lambda>x. ex_evaluation_run_id x = ex_evaluation_run_id r \<and> ex_example_id x = ex_example_id r)
           (t_evaluation_results d) then d
      else d\<lparr>t_evaluation_results := t_evaluation_results d @ [r]\<rparr>)"

definition result_row ::
  "codec \<Rightarrow> time \<Rightarrow> uuid \<Rightarrow> int \<Rightarrow> string \<Rightarrow> string \<Rightarrow> json \<Rightarrow> pyfloat \<Rightarrow> pyfloat \<Rightarrow> evaluation_result" where
  "result_row cd now rid n i p x em lat = \<lparr>ex_evaluation_run_id = rid, ex_example_id = i, ex_prediction = Some p,
           ex_expected_output = as_text cd x, ex_score = Some em, ex_latency_ms = Some lat, ex_error_code = None,
           ex_error_message = None, ex_attempt_number = n, ex_created_at = now\<rparr>"

definition metric_row :: "time \<Rightarrow> uuid \<Rightarrow> int \<Rightarrow> string \<Rightarrow> string \<Rightarrow> pyfloat \<Rightarrow> int \<Rightarrow> evaluation_metric" where
  "metric_row now rid n nm sp x k = \<lparr>em_evaluation_run_id = rid, em_metric_name = nm, em_split = sp, em_metric_value = x,
           em_sample_count = k, em_attempt_number = n, em_created_at = now\<rparr>"

definition store_metric :: "evaluation_metric \<Rightarrow> db \<Rightarrow> db" where
  "store_metric m d =
     (if sql_exists (\<lambda>x. evaluation_metric_key x = evaluation_metric_key m) (t_evaluation_metrics d) then d
      else d\<lparr>t_evaluation_metrics := t_evaluation_metrics d @ [m]\<rparr>)"

definition ready :: "uuid \<Rightarrow> string \<Rightarrow> int \<Rightarrow> uuid \<Rightarrow> db \<Rightarrow> bool" where
  "ready jid w n rid d \<longleftrightarrow> owns jid w n d \<and> has_evaluation_run rid d"

lemma ready_store [simp]:
  "ready jid w n rid (store_result r d) = ready jid w n rid d"
  "ready jid w n rid (store_metric m d) = ready jid w n rid d"
  by (simp_all add: ready_def store_result_def store_metric_def owns_def has_evaluation_run_def)

text \<open>An event of an undisturbed process, and the state after it.\<close>

definition quiet_item :: "time \<Rightarrow> json \<Rightarrow> stream_item" where
  "quiet_item now e = \<lparr>si_event = Some e, si_abandoned = False, si_others = id, si_at = now\<rparr>"

lemma settles_evaluation_event [settles_intros]: "settles (handle_evaluation_event cd now jid w rid n kvs)"
  unfolding handle_evaluation_event_def record_result_event_def record_metric_event_def Let_def
    evaluation_results_record_def evaluation_metrics_record_def lift_sum_def
  by (intro settles_intros insert_select_run)

lemma bind_unit_ret: "result (bind m (\<lambda>_. ret a)) d = (case result m d of Inl e \<Rightarrow> Inl e | Inr _ \<Rightarrow> Inr a)"
  "final_db (bind m (\<lambda>_. ret a)) d = final_db m d"
  by (auto simp: result_def final_db_def bind_def ret_def split: prod.split sum.split)

lemma handle_result_event:
  assumes "ready jid w n rid d"
  shows "result (handle_evaluation_event cd now jid w rid n
           [(''event'', JStr ''result''), (''example_id'', JStr i), (''prediction'', JStr p),
            (''expected_output'', x), (''score'', JFloat em), (''latency_ms'', JFloat lat)]) d = Inr (Some ''result_recorded'')
     \<and> final_db (handle_evaluation_event cd now jid w rid n
           [(''event'', JStr ''result''), (''example_id'', JStr i), (''prediction'', JStr p),
            (''expected_output'', x), (''score'', JFloat em), (''latency_ms'', JFloat lat)]) d
       = store_result (result_row cd now rid n i p x em lat) d"
  using assms
  by (simp add: handle_evaluation_event_def record_result_event_def obj_get_def key_get_def lift_sum_def bind_laws
      evaluation_results_record_def bind_unit_ret insert_select_effect store_result_def ready_def result_row_def)

lemma handle_metric_event:
  assumes "ready jid w n rid d" and "0 \<le> k" and "k < 2 ^ 31"
  shows "result (handle_evaluation_event cd now jid w rid n
           [(''event'', JStr ''metric''), (''metric_name'', JStr nm), (''metric_value'', JFloat x),
            (''split'', JStr sp), (''sample_count'', JInt k)]) d = Inr (Some ''metric_recorded'')
     \<and> final_db (handle_evaluation_event cd now jid w rid n
           [(''event'', JStr ''metric''), (''metric_name'', JStr nm), (''metric_value'', JFloat x),
            (''split'', JStr sp), (''sample_count'', JInt k)]) d
       = store_metric (metric_row now rid n nm sp x k) d"
  using assms
  by (simp add: handle_evaluation_event_def record_metric_event_def obj_get_def obj_has_def key_get_def lift_sum_def
      bind_laws evaluation_metrics_record_def bind_unit_ret insert_select_effect store_metric_def ready_def metric_row_def)

lemma lines_step:
  assumes "result (handle_evaluation_event cd now jid w rid n kvs) d = Inr h"
  shows "result (evaluation_lines cd jid w rid n (quiet_item now (JObj kvs) # its) pf le) d
       = result (evaluation_lines cd jid w rid n its (pf \<or> h = Some ''final'') (evaluation_failure cd h kvs le))
           (final_db (handle_evaluation_event cd now jid w rid n kvs) d)"
    and "final_db (evaluation_lines cd jid w rid n (quiet_item now (JObj kvs) # its) pf le) d
       = final_db (evaluation_lines cd jid w rid n its (pf \<or> h = Some ''final'') (evaluation_failure cd h kvs le))
           (final_db (handle_evaluation_event cd now jid w rid n kvs) d)"
proof -
  let ?h = "handle_evaluation_event cd now jid w rid n kvs"
  let ?f = "\<lambda>handled. evaluation_lines cd jid w rid n its (pf \<or> handled = Some ''final'') (evaluation_failure cd handled kvs le)"
  have f: "appends (?f a)" for a by (rule appends_evaluation_lines)
  note seq = in_sequence [OF appends_evaluation_event settles_evaluation_event f assms]
  have app: "appends (bind ?h ?f)" by (intro appends_bind appends_evaluation_event f)
  note first = in_sequence [OF appends_interfere settles_rollback(3) app, of id d "()"]
  show "result (evaluation_lines cd jid w rid n (quiet_item now (JObj kvs) # its) pf le) d
       = result (?f h) (final_db ?h d)"
    "final_db (evaluation_lines cd jid w rid n (quiet_item now (JObj kvs) # its) pf le) d
       = final_db (?f h) (final_db ?h d)"
    using seq first by (simp_all add: quiet_item_def run_simple)
qed

subsection \<open>Lists of events\<close>

text \<open>\<open>feeds es d d'\<close>: the lines of \<open>es\<close>, read in the state \<open>d\<close>, leave the state \<open>d'\<close> and say nothing of
  how the attempt ends.\<close>

definition feeds :: "codec \<Rightarrow> time \<Rightarrow> uuid \<Rightarrow> string \<Rightarrow> uuid \<Rightarrow> int \<Rightarrow> json list \<Rightarrow> db \<Rightarrow> db \<Rightarrow> bool" where
  "feeds cd now jid w rid n es d d' \<longleftrightarrow>
     (\<forall>its pf le. result (evaluation_lines cd jid w rid n (map (quiet_item now) es @ its) pf le) d
          = result (evaluation_lines cd jid w rid n its pf le) d'
      \<and> final_db (evaluation_lines cd jid w rid n (map (quiet_item now) es @ its) pf le) d
          = final_db (evaluation_lines cd jid w rid n its pf le) d')"

lemma feeds_Nil: "feeds cd now jid w rid n [] d d"
  by (simp add: feeds_def)

lemma feeds_append: "feeds cd now jid w rid n es d d1 \<Longrightarrow> feeds cd now jid w rid n fs d1 d2 \<Longrightarrow> feeds cd now jid w rid n (es @ fs) d d2"
  by (simp add: feeds_def)

lemma feeds_event:
  assumes "result (handle_evaluation_event cd now jid w rid n kvs) d = Inr h"
    and "final_db (handle_evaluation_event cd now jid w rid n kvs) d = d'"
    and "h \<in> {None, Some ''result_recorded'', Some ''metric_recorded''}"
  shows "feeds cd now jid w rid n [JObj kvs] d d'"
proof -
  have same: "(pf \<or> h = Some ''final'') = pf" "evaluation_failure cd h kvs le = le" for pf le
    using assms(3) by (auto simp: evaluation_failure_def)
  note step = lines_step [OF assms(1), unfolded assms(2) same]
  show ?thesis
    unfolding feeds_def by (simp only: list.map append.simps step) simp
qed

lemma store_result_effect:
  "ex_evaluation_run_id r = rid \<Longrightarrow> result_ids rid (store_result r d) = insert (ex_example_id r) (result_ids rid d)"
  "t_evaluation_metrics (store_result r d) = t_evaluation_metrics d"
  "t_evaluation_runs (store_result r d) = t_evaluation_runs d"
  by (auto simp: store_result_def result_ids_def sql_exists_iff) (metis (mono_tags, lifting) image_iff mem_Collect_eq)

lemma store_metric_effect:
  "em_evaluation_run_id m = rid \<Longrightarrow> em_split m = sp \<Longrightarrow> em_metric_name m \<notin> fst ` set (metric_map rid sp d) \<Longrightarrow>
   metric_map rid sp (store_metric m d) = metric_map rid sp d @ [(em_metric_name m, em_metric_value m)]"
  "t_evaluation_results (store_metric m d) = t_evaluation_results d"
  "t_evaluation_runs (store_metric m d) = t_evaluation_runs d"
  by (auto simp: store_metric_def metric_map_def sql_select_def sql_exists_iff evaluation_metric_key_def image_iff)

lemma feeds_results:
  assumes "ready jid w n rid d" and "\<forall>e \<in> set es. \<exists>i p x em lat. e = result_event i p x em lat"
  obtains d' where "feeds cd now jid w rid n es d d'" "ready jid w n rid d'"
    "result_ids rid d' = result_ids rid d \<union> {i. \<exists>p x em lat. result_event i p x em lat \<in> set es}"
    "t_evaluation_metrics d' = t_evaluation_metrics d" "t_evaluation_runs d' = t_evaluation_runs d"
  using assms
proof (induction es arbitrary: d thesis)
  case Nil
  from Nil.prems(1) [OF feeds_Nil Nil.prems(2)] show ?case by simp
next
  case (Cons e es)
  then obtain i p x em lat where e: "e = result_event i p x em lat" by auto
  let ?d = "store_result (result_row cd now rid n i p x em lat) d"
  have "feeds cd now jid w rid n [e] d ?d"
    unfolding e result_event_def using handle_result_event [OF Cons.prems(2)]
    by (intro feeds_event [where h = "Some ''result_recorded''"]) auto
  moreover obtain d' where d': "feeds cd now jid w rid n es ?d d'" "ready jid w n rid d'"
    "result_ids rid d' = result_ids rid ?d \<union> {i. \<exists>p x em lat. result_event i p x em lat \<in> set es}"
    "t_evaluation_metrics d' = t_evaluation_metrics ?d" "t_evaluation_runs d' = t_evaluation_runs ?d"
    using Cons.IH [of ?d] Cons.prems(2,3) by auto
  ultimately have f: "feeds cd now jid w rid n (e # es) d d'"
    using feeds_append [of cd now jid w rid n "[e]"] by simp
  have "result_ids rid ?d = insert i (result_ids rid d)" by (simp add: store_result_effect result_row_def)
  then have "result_ids rid d' = result_ids rid d \<union> {i. \<exists>p x em lat. result_event i p x em lat \<in> set (e # es)}"
    using d'(3) by (auto simp: e result_event_def)
  with f d' show ?case by (intro Cons.prems(1) [of d']) (simp_all add: store_result_effect)
qed

lemma feeds_metrics:
  assumes "ready jid w n rid d" and "distinct (map ag_metric_name ms)"
    and "ag_metric_name ` set ms \<inter> fst ` set (metric_map rid sp d) = {}" and "\<forall>m \<in> set ms. ag_sample_count m < 2 ^ 31"
  obtains d' where "feeds cd now jid w rid n (map (metric_event (JStr sp)) ms) d d'" "ready jid w n rid d'"
    "metric_map rid sp d' = metric_map rid sp d @ map (\<lambda>m. (ag_metric_name m, ag_metric_value m)) ms"
    "t_evaluation_results d' = t_evaluation_results d" "t_evaluation_runs d' = t_evaluation_runs d"
  using assms
proof (induction ms arbitrary: d thesis)
  case Nil
  from Nil.prems(1) [OF _ Nil.prems(2)] feeds_Nil show ?case by simp
next
  case (Cons m ms)
  let ?row = "metric_row now rid n (ag_metric_name m) sp (ag_metric_value m) (int (ag_sample_count m))"
  let ?d = "store_metric ?row d"
  have "int (ag_sample_count m) < 2 ^ 31" using Cons.prems(5) by (simp add: of_nat_less_iff [symmetric] del: of_nat_less_iff)
  then have "feeds cd now jid w rid n [metric_event (JStr sp) m] d ?d"
    unfolding metric_event_def using handle_metric_event [OF Cons.prems(2)]
    by (intro feeds_event [where h = "Some ''metric_recorded''"]) auto
  moreover have mm: "metric_map rid sp ?d = metric_map rid sp d @ [(ag_metric_name m, ag_metric_value m)]"
    using Cons.prems(4) by (subst store_metric_effect) (auto simp: metric_row_def)
  moreover obtain d' where d': "feeds cd now jid w rid n (map (metric_event (JStr sp)) ms) ?d d'" "ready jid w n rid d'"
    "metric_map rid sp d' = metric_map rid sp ?d @ map (\<lambda>m. (ag_metric_name m, ag_metric_value m)) ms"
    "t_evaluation_results d' = t_evaluation_results ?d" "t_evaluation_runs d' = t_evaluation_runs ?d"
    using Cons.IH [of ?d] Cons.prems(2-5) mm by auto
  ultimately show ?case
    using feeds_append [of cd now jid w rid n "[metric_event (JStr sp) m]"]
    by (intro Cons.prems(1) [of d']) (simp_all add: store_metric_effect)
qed

subsection \<open>The evaluation of registered bytes, end to end\<close>

lemma evaluate_example_form:
  assumes "evaluate_example cd param lat ex = Inr (e, r)"
  shows "\<exists>kvs i p x. ex = JObj kvs \<and> map_of kvs ''id'' = Some i \<and> e = result_event (py_str cd i) p x (xr_exact_match r) lat"
  using assms
  by (cases ex) (auto simp: evaluate_example_def sum_bind_def Let_def split: sum.splits option.splits, blast+)

definition example_name :: "codec \<Rightarrow> json \<Rightarrow> string" where
  "example_name cd ex = (case subscript ex ''id'' of Inl _ \<Rightarrow> [] | Inr i \<Rightarrow> py_str cd i)"

lemma evaluate_examples_form:
  "evaluate_examples cd latency param exs ev rows = (ev', Inr rows') \<Longrightarrow>
   \<exists>new. ev' = ev @ new \<and> length rows' = length rows + length exs
     \<and> list_all2 (\<lambda>ex e. \<exists>p x em lat. e = result_event (example_name cd ex) p x em lat) exs new"
proof (induction exs arbitrary: ev rows)
  case Nil
  then show ?case by simp
next
  case (Cons ex exs)
  then obtain e r where er: "evaluate_example cd param (latency (length rows)) ex = Inr (e, r)"
    by (auto split: sum.splits)
  have step: "evaluate_examples cd latency param exs (ev @ [e]) (rows @ [r]) = (ev', Inr rows')"
    using Cons.prems er by simp
  from Cons.IH [OF step] obtain new where new: "ev' = (ev @ [e]) @ new" "length rows' = length (rows @ [r]) + length exs"
    "list_all2 (\<lambda>ex e. \<exists>p x em lat. e = result_event (example_name cd ex) p x em lat) exs new" by blast
  moreover have "\<exists>p x em lat. e = result_event (example_name cd ex) p x em lat"
    using evaluate_example_form [OF er] by (auto simp: example_name_def, blast)
  ultimately show ?case by (intro exI [of _ "e # new"]) simp
qed

lemma result_event_inject [simp]:
  "result_event i p x em lat = result_event i' p' x' em' lat' \<longleftrightarrow>
   i = i' \<and> p = p' \<and> x = x' \<and> em = em' \<and> lat = lat'"
  by (auto simp: result_event_def)

lemma list_all2_events:
  "list_all2 (\<lambda>ex e. \<exists>p x em lat. e = result_event (example_name cd ex) p x em lat) exs new \<Longrightarrow>
   (\<forall>e \<in> set new. \<exists>i p x em lat. e = result_event i p x em lat)
   \<and> {i. \<exists>p x em lat. result_event i p x em lat \<in> set new} = example_name cd ` set exs"
proof (induction rule: list_all2_induct)
  case (Cons ex exs e es)
  then obtain p x em lat where e: "e = result_event (example_name cd ex) p x em lat" by blast
  have "{i. \<exists>p x em lat. result_event i p x em lat \<in> set (e # es)}
      = insert (example_name cd ex) {i. \<exists>p x em lat. result_event i p x em lat \<in> set es}"
    by (auto simp: e)
  with Cons.IH e show ?case by auto
qed simp

lemma aggregate_names: "distinct (map ag_metric_name (aggregate rows))"
  by (simp add: aggregate_def Let_def)

lemma map_filter_length: "length (List.map_filter f xs) \<le> length xs"
  by (induction xs) (auto simp: List.map_filter_simps split: option.split)

lemma aggregate_counts: "m \<in> set (aggregate rows) \<Longrightarrow> ag_sample_count m \<le> length rows"
  using map_filter_length [of xr_latency_ms rows] by (auto simp: aggregate_def Let_def split: if_splits)

lemma feeds_notes:
  "feeds cd now jid w rid n [gpu_passed_event g, artifact_passed_event] d d"
proof -
  have one: "feeds cd now jid w rid n [JObj kvs] d d"
    if "obj_get ''event'' kvs \<in> {JStr ''gpu_check_passed'', JStr ''artifact_check_passed''}" for kvs
    by (rule feeds_event [where h = None]) (use that in \<open>auto simp: handle_evaluation_event_def run_simple\<close>)
  have "feeds cd now jid w rid n [gpu_passed_event g] d d" "feeds cd now jid w rid n [artifact_passed_event] d d"
    unfolding gpu_passed_event_def artifact_passed_event_def by (rule one; simp add: obj_get_def)+
  from feeds_append [OF this] show ?thesis by simp
qed

lemma lines_final:
  "result (evaluation_lines cd jid w rid n [quiet_item now (final_event k)] pf le) d = Inr (Drained True le)
   \<and> final_db (evaluation_lines cd jid w rid n [quiet_item now (final_event k)] pf le) d = d"
proof -
  let ?kvs = "[(''event'', JStr ''final''), (''example_count'', JInt (int k))]"
  have "result (handle_evaluation_event cd now jid w rid n ?kvs) d = Inr (Some ''final'')"
    "final_db (handle_evaluation_event cd now jid w rid n ?kvs) d = d"
    by (simp_all add: handle_evaluation_event_def obj_get_def run_simple)
  with lines_step [OF this(1), of "[]" pf le] show ?thesis
    by (simp add: final_event_def run_simple evaluation_failure_def)
qed

lemma settles_evaluation_lines [settles_intros]: "settles (evaluation_lines cd jid w rid n its pf le)"
  by (induction its arbitrary: pf le) (auto intro!: settles_intros split: option.split json.split)

lemma supervise_effect:
  assumes "result (evaluation_lines cd jid w rid n (sv_lines sv) False None) d = Inr (Drained pf le)"
    and "final_db (evaluation_lines cd jid w rid n (sv_lines sv) False None) d = d2"
    and "sv_others sv = id" and "\<not> sv_abandoned sv"
  shows "result (supervise_evaluation cd sv jid w rid n) d = result (conclude_evaluation (sv_at sv) jid w rid n pf le) d2"
    and "final_db (supervise_evaluation cd sv jid w rid n) d = final_db (conclude_evaluation (sv_at sv) jid w rid n pf le) d2"
proof -
  let ?last = "\<lambda>pf le. bind (interfere (sv_others sv)) (\<lambda>_. if sv_abandoned sv then ret fenced_out
          else conclude_evaluation (sv_at sv) jid w rid n pf le)"
  have app: "appends (case seen of Abandoned \<Rightarrow> ret fenced_out | Drained pf le \<Rightarrow> ?last pf le)" for seen
    by (cases seen) (auto intro!: appends_intros appends_conclude)
  note one = in_sequence [OF appends_evaluation_lines settles_evaluation_lines app assms(1)]
  have c: "appends (if sv_abandoned sv then ret fenced_out else conclude_evaluation (sv_at sv) jid w rid n pf le)"
    by (intro appends_intros appends_conclude)
  note two = in_sequence [OF appends_interfere settles_rollback(3) c, of "sv_others sv" d2 "()"]
  show "result (supervise_evaluation cd sv jid w rid n) d = result (conclude_evaluation (sv_at sv) jid w rid n pf le) d2"
    "final_db (supervise_evaluation cd sv jid w rid n) d = final_db (conclude_evaluation (sv_at sv) jid w rid n pf le) d2"
    using one two assms(2-4) by (simp_all add: supervise_evaluation_def run_simple)
qed

lemma conclude_effect:
  "ready jid w n rid d \<Longrightarrow> result (conclude_evaluation now jid w rid n True le) d = Inr succeeded
     \<and> final_db (conclude_evaluation now jid w rid n True le) d = final_db (mark_status now rid SUCCEEDED True jid w n) d"
  "result (conclude_evaluation now jid w rid n False (Some f)) d = Inr (failure_outcome f)
     \<and> final_db (conclude_evaluation now jid w rid n False (Some f)) d = final_db (mark_status now rid FAILED False jid w n) d"
proof -
  have a: "appends (if marked then ret succeeded else ret fenced_out)" for marked
    by (intro appends_intros)
  show "result (conclude_evaluation now jid w rid n True le) d = Inr succeeded
     \<and> final_db (conclude_evaluation now jid w rid n True le) d = final_db (mark_status now rid SUCCEEDED True jid w n) d"
    if "ready jid w n rid d"
    using in_sequence [OF mark_status_run a mark_status_effect(1) [of now rid SUCCEEDED True jid w n d]] that
    by (simp add: conclude_evaluation_def run_simple ready_def)
  show "result (conclude_evaluation now jid w rid n False (Some f)) d = Inr (failure_outcome f)
     \<and> final_db (conclude_evaluation now jid w rid n False (Some f)) d = final_db (mark_status now rid FAILED False jid w n) d"
    by (simp add: conclude_evaluation_def bind_unit_ret mark_status_effect(1))
qed

text \<open>An attempt whose artifacts and configuration are in order, up to what the process reports.\<close>

lemma attempt_effect:
  assumes "model_source get_object er d = Some model" and "dataset_source get_object er d = Some dataset"
    and "evaluation_context_of j er n (find_evaluation_config (er_evaluation_config_id er) d) model dataset = Inr cx"
    and "ready (j_id j) w n (er_id er) d"
    and "d1 = final_db (mark_status now (er_id er) RUNNING False (j_id j) w n) d"
  shows "result (run_evaluation_attempt cd get_object process now w n j er) d
           = result (supervise_evaluation cd (process cx) (j_id j) w (er_id er) n) d1"
    and "final_db (run_evaluation_attempt cd get_object process now w n j er) d
           = final_db (supervise_evaluation cd (process cx) (j_id j) w (er_id er) n) d1"
proof -
  let ?rest = "\<lambda>marked. if \<not> marked then ret fenced_out else supervise_evaluation cd (process cx) (j_id j) w (er_id er) n"
  have "appends (?rest marked)" for marked by (intro appends_intros)
  note seq = in_sequence [OF mark_status_run this mark_status_effect(1) [of now "er_id er" RUNNING False "j_id j" w n d]]
  have "run_evaluation_attempt cd get_object process now w n j er (begin_session d)
      = bind (mark_status now (er_id er) RUNNING False (j_id j) w n) ?rest (begin_session d)"
    by (simp add: evaluation_attempt_begin after_reading_def assms(1-3) lift_sum_def bind_laws)
  then show "result (run_evaluation_attempt cd get_object process now w n j er) d
      = result (supervise_evaluation cd (process cx) (j_id j) w (er_id er) n) d1"
    "final_db (run_evaluation_attempt cd get_object process now w n j er) d
      = final_db (supervise_evaluation cd (process cx) (j_id j) w (er_id er) n) d1"
    using seq assms(4,5) by (simp_all add: result_def final_db_def ready_def)
qed

lemma marked_effect:
  "ready jid w n rid d \<Longrightarrow> d1 = final_db (mark_status now rid st c jid w n) d \<Longrightarrow>
   ready jid w n rid d1 \<and> t_evaluation_metrics d1 = t_evaluation_metrics d \<and> t_evaluation_results d1 = t_evaluation_results d"
  by (auto simp: mark_status_effect ready_def owns_def has_evaluation_run_def sql_exists_iff intro!: sql_update_hit)

lemma same_tables:
  "t_evaluation_metrics d' = t_evaluation_metrics d \<Longrightarrow> metric_map rid sp d' = metric_map rid sp d"
  "t_evaluation_results d' = t_evaluation_results d \<Longrightarrow> result_ids rid d' = result_ids rid d"
  by (simp_all add: metric_map_def result_ids_def)

lemma undisturbed_lines:
  "sv_lines (undisturbed now (es, False)) = map (quiet_item now) es"
  "sv_others (undisturbed now out) = id" "\<not> sv_abandoned (undisturbed now out)" "sv_at (undisturbed now out) = now"
  by (simp_all add: undisturbed_def quiet_item_def)

text \<open>The lines of the toy evaluator over well-formed examples.\<close>

lemma toy_lines:
  assumes "ready jid w n rid d" and "toy_inputs cd cx = Inr (param, examples)"
    and "evaluate_examples cd latency param examples [] [] = (events, Inr rows)"
    and "cx_split cx = JStr sp" and "metric_map rid sp d = []" and "length examples < 2 ^ 31"
  obtains d' where
    "result (evaluation_lines cd jid w rid n (map (quiet_item now)
       ([gpu_passed_event g, artifact_passed_event] @ run_evaluator cd (toy_evaluator cd latency) cx)) False None) d
       = Inr (Drained True None)"
    "final_db (evaluation_lines cd jid w rid n (map (quiet_item now)
       ([gpu_passed_event g, artifact_passed_event] @ run_evaluator cd (toy_evaluator cd latency) cx)) False None) d = d'"
    "ready jid w n rid d'" "metric_map rid sp d' = map (\<lambda>m. (ag_metric_name m, ag_metric_value m)) (aggregate rows)"
    "result_ids rid d' = result_ids rid d \<union> example_name cd ` set examples"
proof -
  have form: "length rows = length examples"
    "list_all2 (\<lambda>ex e. \<exists>p x em lat. e = result_event (example_name cd ex) p x em lat) examples events"
    using evaluate_examples_form [OF assms(3)] by auto
  note ev = list_all2_events [OF form(2)]
  obtain d1 where d1: "feeds cd now jid w rid n events d d1" "ready jid w n rid d1"
    "result_ids rid d1 = result_ids rid d \<union> example_name cd ` set examples"
    "t_evaluation_metrics d1 = t_evaluation_metrics d"
    by (rule feeds_results [OF assms(1) conjunct1 [OF ev], of cd now]) (simp add: conjunct2 [OF ev])
  have "metric_map rid sp d1 = []" using same_tables(1) [OF d1(4)] assms(5) by simp
  moreover have "\<forall>m \<in> set (aggregate rows). ag_sample_count m < 2 ^ 31"
    using aggregate_counts form(1) assms(6) by fastforce
  ultimately obtain d2 where d2: "feeds cd now jid w rid n (map (metric_event (JStr sp)) (aggregate rows)) d1 d2"
    "ready jid w n rid d2" "metric_map rid sp d2 = map (\<lambda>m. (ag_metric_name m, ag_metric_value m)) (aggregate rows)"
    "t_evaluation_results d2 = t_evaluation_results d1"
    using feeds_metrics [OF d1(2) aggregate_names, of rows sp cd now] by auto
  have all: "feeds cd now jid w rid n ([gpu_passed_event g, artifact_passed_event] @ events
      @ map (metric_event (JStr sp)) (aggregate rows)) d d2"
    by (intro feeds_append [OF feeds_notes] feeds_append [OF d1(1)] d2(1))
  have toy: "run_evaluator cd (toy_evaluator cd latency) cx
      = events @ map (metric_event (JStr sp)) (aggregate rows) @ [final_event (length rows)]"
    by (simp add: run_evaluator_def toy_evaluator_def assms(2-4))
  have ids: "result_ids rid d2 = result_ids rid d \<union> example_name cd ` set examples"
    using same_tables(2) [OF d2(4)] d1(3) by simp
  show thesis
    by (rule that [OF _ _ d2(2,3) ids])
       (use all [unfolded feeds_def, rule_format, of "[quiet_item now (final_event (length rows))]" False None]
         lines_final [of cd jid w rid n now "length rows" False None d2] in \<open>simp_all add: toy\<close>)
qed

lemma evaluated_through:
  assumes "model_source get_object er d = Some model" and "dataset_source get_object er d = Some dataset"
    and "evaluation_context_of j er n (find_evaluation_config (er_evaluation_config_id er) d) model dataset = Inr cx"
    and "verify_gpu probe (cx_required_gpu cx) (cx_required_memory_mb cx) = Inr g" and "gpu_ok g"
    and "hash_bytes (cx_model cx) = cx_model_expected_hash cx" and "hash_bytes (cx_dataset cx) = cx_dataset_expected_hash cx"
    and "modules (cx_evaluator_entrypoint cx) = Some (toy_evaluator cd latency)"
    and "toy_inputs cd cx = Inr (param, examples)"
    and "evaluate_examples cd latency param examples [] [] = (events, Inr rows)"
    and "cx_split cx = JStr sp" and "metric_map (er_id er) sp d = []" and "length examples < 2 ^ 31"
    and "ready (j_id j) w n (er_id er) d"
    and "m = run_evaluation_attempt cd get_object (\<lambda>cx. undisturbed now (evaluation_main cd hash_bytes probe modules cx)) now w n j er"
  shows "result m d = Inr succeeded \<and> completed_run (j_id j) w n (er_id er) (final_db m d)
     \<and> metric_map (er_id er) sp (final_db m d) = map (\<lambda>a. (ag_metric_name a, ag_metric_value a)) (aggregate rows)
     \<and> result_ids (er_id er) (final_db m d) = result_ids (er_id er) d \<union> example_name cd ` set examples"
proof -
  let ?d1 = "final_db (mark_status now (er_id er) RUNNING False (j_id j) w n) d"
  let ?sv = "undisturbed now (evaluation_main cd hash_bytes probe modules cx)"
  have main: "evaluation_main cd hash_bytes probe modules cx
      = ([gpu_passed_event g, artifact_passed_event] @ run_evaluator cd (toy_evaluator cd latency) cx, False)"
    by (simp add: evaluation_main_def assms)
  note d1 = marked_effect [OF assms(14) refl, of now RUNNING False]
  have "metric_map (er_id er) sp ?d1 = []" using d1 same_tables(1) assms(12) by metis
  then obtain d2 where d2: "result (evaluation_lines cd (j_id j) w (er_id er) n (sv_lines ?sv) False None) ?d1 = Inr (Drained True None)"
    "final_db (evaluation_lines cd (j_id j) w (er_id er) n (sv_lines ?sv) False None) ?d1 = d2"
    "ready (j_id j) w n (er_id er) d2" "metric_map (er_id er) sp d2 = map (\<lambda>a. (ag_metric_name a, ag_metric_value a)) (aggregate rows)"
    "result_ids (er_id er) d2 = result_ids (er_id er) ?d1 \<union> example_name cd ` set examples"
    using toy_lines [of "j_id j" w n "er_id er" ?d1 cd cx param examples latency events rows sp now g] d1 assms(9-11,13)
    unfolding main undisturbed_lines by blast
  note sup = supervise_effect [OF d2(1,2) undisturbed_lines(2,3)]
  note fin = conclude_effect(1) [OF d2(3), of now None]
  note att = attempt_effect [OF assms(1-3,14) refl, of cd "\<lambda>cx. undisturbed now (evaluation_main cd hash_bytes probe modules cx)" now]
  have run: "result m d = Inr succeeded"
    "final_db m d = final_db (mark_status now (er_id er) SUCCEEDED True (j_id j) w n) d2"
    using att sup fin assms(15) by (simp_all add: undisturbed_lines(4))
  note d3 = marked_effect [OF d2(3) run(2)]
  have "completed_run (j_id j) w n (er_id er) (final_db m d)"
    using d3 d2(3) by (auto simp: run(2) mark_status_effect completed_run_def ready_def owns_def has_evaluation_run_def
        sql_exists_iff intro!: sql_update_hit)
  with run(1) d1 d2 d3 same_tables show ?thesis by metis
qed


text \<open>C10: Corrupt bytes never score: if the bytes of the model or of the dataset do not hash to what was
  registered, the attempt is FAILED for good with the reason and the domain DATA, the run is FAILED,
  and no result and no metric is persisted.\<close>

theorem corrupt_artifact_never_scores:
  assumes "model_source get_object er d = Some model" and "dataset_source get_object er d = Some dataset"
    and "evaluation_context_of j er n (find_evaluation_config (er_evaluation_config_id er) d) model dataset = Inr cx"
    and "verify_gpu probe (cx_required_gpu cx) (cx_required_memory_mb cx) = Inr g" and "gpu_ok g"
    and "\<not> (hash_bytes (cx_model cx) = cx_model_expected_hash cx \<and> hash_bytes (cx_dataset cx) = cx_dataset_expected_hash cx)"
    and "ready (j_id j) w n (er_id er) d"
    and "m = run_evaluation_attempt cd get_object (\<lambda>cx. undisturbed now (evaluation_main cd hash_bytes probe modules cx)) now w n j er"
  shows "result m d = Inr (failed_outcome (''artifact identity check failed: ''
             @ (if hash_bytes (cx_model cx) = cx_model_expected_hash cx then ''dataset'' else ''model'')) PERMANENT (Some ''DATA''))
     \<and> t_evaluation_results (final_db m d) = t_evaluation_results d
     \<and> t_evaluation_metrics (final_db m d) = t_evaluation_metrics d
     \<and> (\<forall>e \<in> set (t_evaluation_runs (final_db m d)). er_id e = er_id er \<longrightarrow> er_status e = FAILED)"
proof -
  let ?jid = "j_id j" and ?rid = "er_id er"
  let ?d1 = "final_db (mark_status now ?rid RUNNING False ?jid w n) d"
  let ?sv = "undisturbed now (evaluation_main cd hash_bytes probe modules cx)"
  let ?kind = "if hash_bytes (cx_model cx) = cx_model_expected_hash cx then ''dataset'' else ''model''"
  let ?f = "(Some (''artifact identity check failed: '' @ ?kind), PERMANENT, ''DATA'')"
  have "\<exists>ex ac. evaluation_main cd hash_bytes probe modules cx
      = ([gpu_passed_event g, artifact_failed_event ?kind ex ac], False)"
    using assms(4-6) by (cases "hash_bytes (cx_model cx) = cx_model_expected_hash cx") (auto simp: evaluation_main_def)
  then obtain ex ac where main: "evaluation_main cd hash_bytes probe modules cx
      = ([gpu_passed_event g, artifact_failed_event ?kind ex ac], False)" by blast
  let ?kvs = "[(''event'', JStr ''artifact_check_failed''), (''artifact'', JStr ?kind), (''expected_hash'', JStr ex), (''actual_hash'', JStr ac)]"
  have bad: "result (handle_evaluation_event cd now ?jid w ?rid n ?kvs) ?d1 = Inr (Some ''artifact_failed'')"
    "final_db (handle_evaluation_event cd now ?jid w ?rid n ?kvs) ?d1 = ?d1"
    by (simp_all add: handle_evaluation_event_def obj_get_def run_simple)
  have "feeds cd now ?jid w ?rid n [gpu_passed_event g] ?d1 ?d1"
    unfolding gpu_passed_event_def
    by (rule feeds_event [where h = None]) (simp_all add: handle_evaluation_event_def obj_get_def run_simple)
  then have lines: "result (evaluation_lines cd ?jid w ?rid n (sv_lines ?sv) False None) ?d1 = Inr (Drained False (Some ?f))"
    "final_db (evaluation_lines cd ?jid w ?rid n (sv_lines ?sv) False None) ?d1 = ?d1"
    using lines_step [OF bad(1), of "[]" False None] bad(2)
    by (simp_all add: feeds_def main undisturbed_lines artifact_failed_event_def run_simple evaluation_failure_def obj_get_def)
  note att = attempt_effect [OF assms(1-3,7) refl, of cd "\<lambda>cx. undisturbed now (evaluation_main cd hash_bytes probe modules cx)" now]
  note sup = supervise_effect [OF lines undisturbed_lines(2,3)]
  have run: "result m d = Inr (failure_outcome ?f)"
    "final_db m d = final_db (mark_status now ?rid FAILED False ?jid w n) ?d1"
    using att sup conclude_effect(2) [of now ?jid w ?rid n ?f ?d1] assms(8) by (simp_all add: undisturbed_lines(4))
  have d1: "ready ?jid w n ?rid ?d1" "t_evaluation_metrics ?d1 = t_evaluation_metrics d" "t_evaluation_results ?d1 = t_evaluation_results d"
    using marked_effect [OF assms(7) refl] by blast+
  note d2 = marked_effect [OF d1(1) run(2)]
  have "\<forall>e \<in> set (t_evaluation_runs (final_db m d)). er_id e = ?rid \<longrightarrow> er_status e = FAILED"
    using d1(1) by (auto simp: run(2) mark_status_effect(2) [of now ?rid FAILED] ready_def ball_sql_update)
  with run(1) d1 d2 show ?thesis by (simp add: failure_outcome_def failed_outcome_def)
qed

definition sample_evaluating :: db where
  "sample_evaluating = (sample_evaluated ''all'')\<lparr>t_jobs := [sample_running],
     t_evaluation_runs := [sample_evaluation\<lparr>er_status := PENDING, er_completed_at := None\<rparr>],
     t_evaluation_metrics := []\<rparr>"

definition sample_codec :: codec where
  "sample_codec = \<lparr>py_repr = (\<lambda>_. []), json_dumps = (\<lambda>_. []),
     json_load = (\<lambda>b. Inr (if b = ''M'' then JObj [(''param'', JFloat (Fin 1))]
        else JObj [(''examples'', JArr [JObj [(''id'', JStr ''e1''), (''input'', JStr ''a''), (''expected_output'', JStr ''a'')]])])),
     parse_float = (\<lambda>_. Inl PyValueError), exn_text = (\<lambda>_. []), logs_info = True\<rparr>"

definition sample_objects :: "string \<Rightarrow> exn + bytes" where
  "sample_objects k = Inr (if k = storage_key_for_hash ''y'' then ''M'' else ''D'')"

definition sample_hash :: "bytes \<Rightarrow> string" where
  "sample_hash b = (if b = ''M'' then ''y'' else ''x'')"

definition sample_process :: "bytes \<Rightarrow> evaluation_context \<Rightarrow> supervision" where
  "sample_process rot cx = undisturbed 20 (evaluation_main sample_codec (\<lambda>b. if b = rot then ''?'' else sample_hash b) (False, 0, None)
     (\<lambda>_. Some (toy_evaluator sample_codec (\<lambda>_. Fin 2))) cx)"

definition sample_attempt :: "bytes \<Rightarrow> outcome program" where
  "sample_attempt rot = run_evaluation_attempt sample_codec sample_objects (sample_process rot) 20 ''w1'' 1 sample_running
     (sample_evaluation\<lparr>er_status := PENDING, er_completed_at := None\<rparr>)"

definition sample_context :: evaluation_context where
  "sample_context = \<lparr>cx_evaluation_run_id = 1, cx_attempt_number = 1, cx_required_gpu = JInt 0,
     cx_required_memory_mb = JInt 0, cx_evaluator_entrypoint = JStr ''app.evaluation.toy_evaluator'',
     cx_task_type = ''text'', cx_batch_size = 1, cx_max_examples = None, cx_max_sequence_length = None,
     cx_random_seed = None, cx_split = JStr ''all'', cx_model = ''M'', cx_model_expected_hash = ''y'',
     cx_dataset = ''D'', cx_dataset_expected_hash = ''x''\<rparr>"

lemma sample_attempt_premises:
  defines "er \<equiv> sample_evaluation\<lparr>er_status := PENDING, er_completed_at := None\<rparr>"
  shows "model_source sample_objects er sample_evaluating = Some (''M'', ''y'')"
    and "dataset_source sample_objects er sample_evaluating = Some (''D'', ''x'')"
    and "evaluation_context_of sample_running er 1 (find_evaluation_config (er_evaluation_config_id er) sample_evaluating)
           (''M'', ''y'') (''D'', ''x'') = Inr sample_context"
    and "ready (j_id sample_running) ''w1'' 1 (er_id er) sample_evaluating"
    and "metric_map (er_id er) ''all'' sample_evaluating = []"
  by (simp_all add: er_def model_source_def dataset_source_def source_def find_model_version_def find_dataset_version_def
      find_artifact_def sample_objects_def storage_key_for_hash_def evaluation_context_of_def configured_resource_def
      find_evaluation_config_def sum_bind_def sample_context_def ready_def owns_def sql_exists_iff holds_lease_def
      has_evaluation_run_def metric_map_def sql_select_def sample_evaluating_def sample_evaluated_defs sample_running_def
      sample_job_def new_job_def sample_payload_def Let_def)

lemma sample_gpu:
  "verify_gpu (False, 0, None) (cx_required_gpu sample_context) (cx_required_memory_mb sample_context) = Inr (gpu_passed 0 None)"
  by (simp add: verify_gpu_def json_compare_def sample_context_def sum_bind_def)

abbreviation sample_example :: json where
  "sample_example \<equiv> JObj [(''id'', JStr ''e1''), (''input'', JStr ''a''), (''expected_output'', JStr ''a'')]"

abbreviation sample_row :: example_record where
  "sample_row \<equiv> \<lparr>xr_exact_match = Fin 1, xr_token_accuracy = token_accuracy (Some ''a'') (Some ''a''), xr_latency_ms = Some (Fin 2)\<rparr>"

lemma sample_rows:
  "evaluate_examples sample_codec (\<lambda>_. Fin 2) (Fin 1) [sample_example] [] []
     = ([result_event ''e1'' ''a'' (JStr ''a'') (Fin 1) (Fin 2)], Inr [sample_row])"
proof -
  have "toy_predict ''a'' (Fin 1) = ''a''" "exact_match (Some ''a'') (Some ''a'') = Fin 1"
    by (simp_all add: toy_predict_def py_split_def is_space_def exact_match_def)
  then show ?thesis by (simp add: evaluate_example_def sum_bind_def string_or_empty_def Let_def)
qed

lemma sample_inputs: "toy_inputs sample_codec sample_context = Inr (Fin 1, [sample_example])"
  by (simp add: toy_inputs_def sample_codec_def sample_context_def sum_bind_def py_float_def selected_examples_def)

lemma sample_attempt_run:
  "sample_attempt rot = run_evaluation_attempt sample_codec sample_objects
      (\<lambda>cx. undisturbed 20 (evaluation_main sample_codec (\<lambda>b. if b = rot then ''?'' else sample_hash b) (False, 0, None)
         (\<lambda>_. Some (toy_evaluator sample_codec (\<lambda>_. Fin 2))) cx)) 20 ''w1'' 1 sample_running
      (sample_evaluation\<lparr>er_status := PENDING, er_completed_at := None\<rparr>)"
  by (simp add: sample_attempt_def sample_process_def [abs_def])

lemma sample_intact:
  "gpu_ok (gpu_passed 0 None)"
  "(if cx_model sample_context = [] then ''?'' else sample_hash (cx_model sample_context)) = cx_model_expected_hash sample_context"
  "(if cx_dataset sample_context = [] then ''?'' else sample_hash (cx_dataset sample_context)) = cx_dataset_expected_hash sample_context"
  "cx_split sample_context = JStr ''all''" "length [sample_example] < 2 ^ 31"
  by (simp_all add: gpu_passed_def sample_context_def sample_hash_def)

lemma sample_evaluating_ids:
  "result_ids 1 sample_evaluating = {}" "example_name sample_codec sample_example = ''e1''"
  "er_id (sample_evaluation\<lparr>er_status := PENDING, er_completed_at := None\<rparr>) = 1" "j_id sample_running = 1"
  by (simp_all add: result_ids_def sample_evaluating_def sample_evaluated_defs example_name_def sample_running_def
      sample_job_def new_job_def)


lemma sample_attempt_succeeds: "result (sample_attempt []) sample_evaluating = Inr succeeded"
  using evaluated_through [OF sample_attempt_premises(1-3) sample_gpu sample_intact(1-3) refl sample_inputs
      sample_rows sample_intact(4) sample_attempt_premises(5) sample_intact(5) sample_attempt_premises(4) sample_attempt_run] by blast

theorem corrupt_artifact_never_scores_witness:
  "result (sample_attempt ''D'') sample_evaluating
     = Inr (failed_outcome ''artifact identity check failed: dataset'' PERMANENT (Some ''DATA''))"
proof -
  have "(if cx_model sample_context = ''D'' then ''?'' else sample_hash (cx_model sample_context)) = cx_model_expected_hash sample_context"
    "(if cx_dataset sample_context = ''D'' then ''?'' else sample_hash (cx_dataset sample_context)) \<noteq> cx_dataset_expected_hash sample_context"
    by (simp_all add: sample_context_def sample_hash_def)
  with corrupt_artifact_never_scores [OF sample_attempt_premises(1-3) sample_gpu sample_intact(1) _ sample_attempt_premises(4) sample_attempt_run]
  show ?thesis by simp
qed

text \<open>C9: What success means, under any interference.  Whatever the process prints and whatever the other
  sessions do between its lines: an attempt that answers SUCCEEDED found both artifacts registered and
  UPLOADED, handed the process their bytes with the hashes they were registered under, read its final
  report, and at its end held the lease and had marked the run SUCCEEDED; and every state it committed
  on the way is one the steps of the system reach.\<close>

theorem evaluation_success_is_earned:
  assumes "\<And>cx. quiet cfg (process cx)"
    and "result (run_evaluation_attempt cd get_object process now w n j er) d = Inr out" and "out_status out = SUCCEEDED"
  shows "earned get_object process n j er d
     \<and> completed_run (j_id j) w n (er_id er) (final_db (run_evaluation_attempt cd get_object process now w n j er) d)
     \<and> (\<forall>x \<in> set (commits (run_evaluation_attempt cd get_object process now w n j er) d). (system_step cfg)\<^sup>*\<^sup>* d x)"
  using runs_result [OF runs_evaluation_attempt [OF assms(1)] refl assms(2)]
    runs_commits [OF runs_evaluation_attempt [OF assms(1)] refl] assms(3)
  by (simp add: claims_def)

lemma quiet_undisturbed: "quiet cfg (undisturbed now out)"
  by (auto simp: quiet_def quiet_lines_def undisturbed_def)

theorem evaluation_success_is_earned_witness:
  "completed_run 1 ''w1'' 1 1 (final_db (sample_attempt []) sample_evaluating)"
  using evaluation_success_is_earned [OF quiet_undisturbed sample_attempt_succeeds [unfolded sample_attempt_run],
      where cfg = default_settings]
  by (simp only: sample_attempt_run [symmetric] sample_evaluating_ids) (simp add: succeeded_def)

text \<open>Missing artifacts fail closed: if the model or the dataset version is not registered, its artifact
  is not UPLOADED, or its object cannot be read, the attempt never starts the process; it answers FAILED,
  permanent, DATA, and all it changes is the status of the run it owns.\<close>

theorem evaluation_fails_closed:
  assumes "model_source get_object er d = None \<or> dataset_source get_object er d = None"
    and "m = run_evaluation_attempt cd get_object process now w n j er"
  shows "(\<exists>message. result m d = Inr (failed_outcome message PERMANENT (Some ''DATA'')))
     \<and> final_db m d = (if owns (j_id j) w n d
          then d\<lparr>t_evaluation_runs := sql_update (\<lambda>e. er_id e = er_id er)
                 (\<lambda>e. e\<lparr>er_status := FAILED, er_completed_at := None\<rparr>) (t_evaluation_runs d)\<rparr> else d)"
proof -
  have "\<exists>message. m (begin_session d) = fail_evaluation now (er_id er) (j_id j) w n message PERMANENT ''DATA'' (begin_session d)"
    using assms by (cases "model_source get_object er d") (auto simp: evaluation_attempt_begin after_reading_def)
  then obtain message where m: "m (begin_session d) = fail_evaluation now (er_id er) (j_id j) w n message PERMANENT ''DATA'' (begin_session d)"
    by blast
  then have "result m d = result (fail_evaluation now (er_id er) (j_id j) w n message PERMANENT ''DATA'') d"
    "final_db m d = final_db (fail_evaluation now (er_id er) (j_id j) w n message PERMANENT ''DATA'') d"
    by (simp_all add: result_def final_db_def)
  then show ?thesis
    by (auto simp: fail_evaluation_def bind_unit_ret mark_status_effect)
qed

theorem evaluation_fails_closed_witness:
  "\<exists>message. result (run_evaluation_attempt sample_codec (\<lambda>_. Inl ClientError) (sample_process []) 20 ''w1'' 1 sample_running
     (sample_evaluation\<lparr>er_status := PENDING, er_completed_at := None\<rparr>)) sample_evaluating
     = Inr (failed_outcome message PERMANENT (Some ''DATA''))"
proof -
  have "model_source (\<lambda>_. Inl ClientError) (sample_evaluation\<lparr>er_status := PENDING, er_completed_at := None\<rparr>) sample_evaluating = None"
    by (auto simp: model_source_def source_def split: option.split)
  with evaluation_fails_closed show ?thesis by blast
qed

end
