(* ===== verification/Trainer.thy ===== *)
theory Trainer
  imports Gpu Worker EvalExecutor
begin

text \<open>
  The training process (app/training/subprocess_main.py) and the trainer it runs by default
  (app/training/toy_trainer.py): an iterative loop over a float parameter that reports a metric for
  every step and writes a checkpoint at every multiple of an interval.  A run of the process is the
  list of events it reports, the files it writes, in order, and how it ended.  Its configuration is
  a JSON object of the client; the loop returns \<open>None\<close> if it never ends, which an infinite number of
  steps makes possible.  Steps are integers, as the trainer counts them.
\<close>

subsection \<open>Its configuration\<close>

definition path_join :: "string \<Rightarrow> string \<Rightarrow> string" where
  "path_join a b = (if a = [] \<or> last a = CHR ''/'' then a @ b else a @ ''/'' @ b)"

record trainer =
  tn_work_dir :: string
  tn_max_steps :: json
  tn_every :: json
  tn_learning_rate :: json
  tn_target :: json
  tn_identity :: "(string \<times> json) list"
  tn_sleep :: json

type_synonym files = "(string \<times> json) list"

text \<open>\<^verbatim>\<open>step % n == 0\<close>\<close>

fun divides :: "json \<Rightarrow> int \<Rightarrow> exn + bool" where
  "divides (JInt k) step = (if k = 0 then Inl PyZeroDivisionError else Inr (step mod k = 0))"
| "divides (JBool b) step = (if b then Inr True else Inl PyZeroDivisionError)"
| "divides (JFloat (Fin q)) step =
     (if q = 0 then Inl PyZeroDivisionError
      else case fl (of_int step) of Fin s \<Rightarrow> Inr (s / q \<in> \<int>) | _ \<Rightarrow> Inl PyOverflowError)"
| "divides (JFloat _) step = Inr (step = 0)"
| "divides _ step = Inl PyTypeError"

definition below :: "int \<Rightarrow> json \<Rightarrow> exn + bool" where
  "below step max_steps = json_compare (\<lambda>m. f_lt (Fin (of_int step)) m) max_steps"

subsection \<open>One step\<close>

definition metric_report :: "int \<Rightarrow> pyfloat \<Rightarrow> json \<Rightarrow> json" where
  "metric_report step loss learning_rate =
     JObj [(''event'', JStr ''metric''), (''step'', JInt step), (''loss'', JFloat loss), (''learning_rate'', learning_rate)]"

definition checkpoint_path :: "trainer \<Rightarrow> int \<Rightarrow> string" where
  "checkpoint_path tn step = path_join (tn_work_dir tn) (''checkpoint-'' @ show_int step @ ''.json'')"

definition checkpoint_report :: "trainer \<Rightarrow> int \<Rightarrow> json" where
  "checkpoint_report tn step =
     JObj [(''event'', JStr ''checkpoint''), (''step'', JInt step), (''local_path'', JStr (checkpoint_path tn step))]"

definition checkpoint_content :: "trainer \<Rightarrow> pyfloat \<Rightarrow> int \<Rightarrow> json" where
  "checkpoint_content tn param step = JObj ([(''param'', JFloat param), (''step'', JInt step)] @ tn_identity tn)"

text \<open>The new value of the parameter and the loss.\<close>

definition update_param :: "trainer \<Rightarrow> pyfloat \<Rightarrow> exn + pyfloat \<times> pyfloat" where
  "update_param tn param =
     sum_bind (json_to_float (tn_target tn)) (\<lambda>target.
     let err = f_sub target param in
     sum_bind (json_to_float (tn_learning_rate tn)) (\<lambda>rate.
     Inr (f_add param (f_mul rate err), f_mul err err)))"

text \<open>The body of the loop after \<^verbatim>\<open>step += 1\<close>: events, files, and the new parameter or the exception.\<close>

definition train_step :: "trainer \<Rightarrow> int \<Rightarrow> pyfloat \<Rightarrow> json list \<times> files \<times> (exn + pyfloat)" where
  "train_step tn step param =
     (case (if falsy (tn_sleep tn) then None else sleep_check (tn_sleep tn)) of
        Some e \<Rightarrow> ([], [], Inl e)
      | None \<Rightarrow>
          (case update_param tn param of
             Inl e \<Rightarrow> ([], [], Inl e)
           | Inr (param', loss) \<Rightarrow>
               (let metric = metric_report step loss (tn_learning_rate tn) in
                case sum_bind (divides (tn_every tn) step) (\<lambda>hit. if hit then below step (tn_max_steps tn) else Inr False) of
                  Inl e \<Rightarrow> ([metric], [], Inl e)
                | Inr save \<Rightarrow>
                    if save then ([metric, checkpoint_report tn step],
                                  [(checkpoint_path tn step, checkpoint_content tn param' step)], Inr param')
                    else ([metric], [], Inr param'))))"

subsection \<open>The loop\<close>

type_synonym training = "json list \<times> files \<times> (exn + pyfloat \<times> int)"

definition after_events :: "json list \<Rightarrow> files \<Rightarrow> training \<Rightarrow> training" where
  "after_events events fs r = (case r of (events', fs', out) \<Rightarrow> (events @ events', fs @ fs', out))"

partial_function (option) train_loop :: "trainer \<Rightarrow> int \<Rightarrow> pyfloat \<Rightarrow> training option" where
  "train_loop tn step param =
     (case below step (tn_max_steps tn) of
        Inl e \<Rightarrow> Some ([], [], Inl e)
      | Inr again \<Rightarrow>
          if \<not> again then Some ([], [], Inr (param, step))
          else (case train_step tn (step + 1) param of
             (events, fs, Inl e) \<Rightarrow> Some (events, fs, Inl e)
           | (events, fs, Inr param') \<Rightarrow>
               Option.bind (train_loop tn (step + 1) param') (\<lambda>r. Some (after_events events fs r))))"

subsection \<open>A run of the trainer\<close>

definition resumed_report :: "json \<Rightarrow> json" where
  "resumed_report step = JObj [(''event'', JStr ''resumed''), (''step'', step)]"

definition final_path :: "trainer \<Rightarrow> string" where
  "final_path tn = path_join (tn_work_dir tn) ''final_model.json''"

definition final_report :: "trainer \<Rightarrow> int \<Rightarrow> json" where
  "final_report tn step =
     JObj [(''event'', JStr ''final''), (''step'', JInt step), (''local_path'', JStr (final_path tn))]"

definition final_content :: "trainer \<Rightarrow> pyfloat \<Rightarrow> int \<Rightarrow> json" where
  "final_content tn param step =
     JObj ([(''param'', JFloat param), (''step'', JInt step), (''final'', JBool True)] @ tn_identity tn)"

fun as_step :: "json \<Rightarrow> exn + int" where
  "as_step (JInt n) = Inr n"
| "as_step (JBool b) = Inr (if b then 1 else 0)"
| "as_step _ = Inl PyTypeError"

definition trainer_of :: "(string \<times> json) list \<Rightarrow> exn + trainer" where
  "trainer_of cx =
     sum_bind (key_get cx ''work_dir'') (\<lambda>dir.
     sum_bind (case dir of JStr s \<Rightarrow> Inr s | _ \<Rightarrow> Inl PyTypeError) (\<lambda>work_dir.
     sum_bind (key_get cx ''max_steps'') (\<lambda>max_steps.
     sum_bind (key_get cx ''checkpoint_every_n_steps'') (\<lambda>every.
     sum_bind (key_get cx ''learning_rate'') (\<lambda>learning_rate.
     Inr \<lparr>tn_work_dir = work_dir, tn_max_steps = max_steps, tn_every = every, tn_learning_rate = learning_rate,
          tn_target = (if obj_has ''target_value'' cx then obj_get ''target_value'' cx else JFloat (Fin 1)),
          tn_identity = [(''training_run_id'', obj_get ''training_run_id'' cx), (''attempt_number'', obj_get ''attempt_number'' cx)],
          tn_sleep = (if obj_has ''step_sleep_seconds'' cx then obj_get ''step_sleep_seconds'' cx else JInt 0)\<rparr>)))))"

text \<open>Where the loop starts: at the state of the checkpoint, or from nothing.  \<open>read\<close> opens and parses
  a file.  (A checkpoint's parameter and step are numbers, the step an integer: what the trainer writes.)\<close>

definition start_of :: "(json \<Rightarrow> exn + json) \<Rightarrow> (string \<times> json) list \<Rightarrow> exn + json list \<times> json \<times> json" where
  "start_of read cx =
     (let resume = obj_get ''resume_from'' cx in
      if falsy resume then Inr ([], JFloat (Fin 0), JInt 0)
      else sum_bind (case resume of JObj kvs \<Rightarrow> key_get kvs ''local_path'' | _ \<Rightarrow> Inl PyTypeError) (\<lambda>path.
           sum_bind (read path) (\<lambda>state.
           sum_bind (case state of JObj kvs \<Rightarrow> key_get kvs ''param'' | _ \<Rightarrow> Inl PyTypeError) (\<lambda>p.
           sum_bind (case state of JObj kvs \<Rightarrow> key_get kvs ''step'' | _ \<Rightarrow> Inl PyTypeError) (\<lambda>s.
           Inr ([resumed_report s], p, s))))))"

type_synonym trainer_run = "json list \<times> files \<times> exn option"

definition conclude_training :: "trainer \<Rightarrow> json list \<Rightarrow> training \<Rightarrow> trainer_run" where
  "conclude_training tn first r =
     (case r of
        (events, fs, Inl e) \<Rightarrow> (first @ events, fs, Some e)
      | (events, fs, Inr (param, step)) \<Rightarrow>
          (first @ events @ [final_report tn step], fs @ [(final_path tn, final_content tn param step)], None))"

definition toy_trainer :: "(json \<Rightarrow> exn + json) \<Rightarrow> (string \<times> json) list \<Rightarrow> trainer_run option" where
  "toy_trainer read cx =
     (case sum_bind (trainer_of cx) (\<lambda>tn. sum_bind (start_of read cx) (\<lambda>st. Inr (tn, st))) of
        Inl e \<Rightarrow> Some ([], [], Some e)
      | Inr (tn, first, p, s) \<Rightarrow>
          (case sum_bind (as_step s) (\<lambda>step. sum_bind (json_to_float p) (\<lambda>param. Inr (step, param))) of
             Inl e \<Rightarrow> Some (first, [], Some e)
           | Inr (step, param) \<Rightarrow>
               Option.bind (train_loop tn step param) (\<lambda>r. Some (conclude_training tn first r))))"

subsection \<open>The process\<close>

type_synonym trainer_module = "(string \<times> json) list \<Rightarrow> trainer_run option"

definition training_failed_report :: "codec \<Rightarrow> exn \<Rightarrow> json" where
  "training_failed_report cd e = JObj [(''event'', JStr ''training_error''), (''message'', JStr (exn_text cd e))]"

text \<open>\<^verbatim>\<open>main\<close>: events, files, and whether it ended with a traceback; None if it never ends.\<close>

definition training_main ::
  "codec \<Rightarrow> gpu_probe \<Rightarrow> (json \<Rightarrow> trainer_module option) \<Rightarrow> (string \<times> json) list \<Rightarrow> (json list \<times> files \<times> bool) option" where
  "training_main cd probe modules cx =
     (let value = (\<lambda>k dflt. if obj_has k cx then obj_get k cx else dflt) in
      case verify_gpu probe (value ''required_gpu'' (JInt 0)) (value ''required_memory_mb'' (JInt 0)) of
        Inl e \<Rightarrow> Some ([], [], True)
      | Inr r \<Rightarrow>
          if \<not> gpu_ok r
          then Some ([JObj [(''event'', JStr ''gpu_check_failed''),
                  (''reason'', case gpu_reason r of None \<Rightarrow> JNull | Some t \<Rightarrow> JStr t)]], [], False)
          else (let passed = JObj [(''event'', JStr ''gpu_check_passed''), (''device_count'', JInt (gpu_device_count r))] in
            case modules (value ''training_entrypoint'' (JStr ''app.training.toy_trainer'')) of
              None \<Rightarrow> Some ([passed], [], True)
            | Some body \<Rightarrow>
                Option.bind (body cx) (\<lambda>(events, fs, failed).
                Some (passed # events @ (case failed of None \<Rightarrow> [] | Some e \<Rightarrow> [training_failed_report cd e]), fs, False))))"

end
