(* ===== verification/TrainerSafety.thy ===== *)
theory TrainerSafety
  imports Trainer Metrics
begin

text \<open>
  The training loop: it ends unless the number of steps is infinite, it reports every step once and
  saves at every multiple of the interval, and continuing from any of its checkpoints gives the same
  losses and the same final parameter as never having stopped.
\<close>

subsection \<open>Induction over a finished loop\<close>

text \<open>One unfolding of a loop that returned.\<close>

lemma loop_body_cases:
  assumes "(case below step (tn_max_steps tn) of
        Inl e \<Rightarrow> Some ([], [], Inl e)
      | Inr again \<Rightarrow> if \<not> again then Some ([], [], Inr (param, step))
          else (case train_step tn (step + 1) param of
             (events, fs, Inl e) \<Rightarrow> Some (events, fs, Inl e)
           | (events, fs, Inr param') \<Rightarrow>
               Option.bind (loop (tn :: trainer) (step + 1) param') (\<lambda>r. Some (after_events events fs r)))) = Some r"
  obtains (stuck) e where "below step (tn_max_steps tn) = Inl e" "r = ([], [], Inl e)"
  | (over) "below step (tn_max_steps tn) = Inr False" "r = ([], [], Inr (param, step))"
  | (raised) events fs e where "below step (tn_max_steps tn) = Inr True"
      "train_step tn (step + 1) param = (events, fs, Inl e)" "r = (events, fs, Inl e)"
  | (step) events fs param' r' where "below step (tn_max_steps tn) = Inr True"
      "train_step tn (step + 1) param = (events, fs, Inr param')" "loop tn (step + 1) param' = Some r'"
      "r = after_events events fs r'"
proof (cases "below step (tn_max_steps tn)")
  case (Inl e)
  with assms stuck show thesis by simp
next
  case (Inr again)
  show thesis
  proof (cases again)
    case False
    with assms Inr over show thesis by simp
  next
    case True
    obtain events fs out where st: "train_step tn (step + 1) param = (events, fs, out)" by (cases "train_step tn (step + 1) param")
    show thesis
    proof (cases out)
      case (Inl e)
      with assms \<open>below step (tn_max_steps tn) = Inr again\<close> True st raised show thesis by simp
    next
      case (Inr param')
      note out = this
      then have "Option.bind (loop tn (step + 1) param') (\<lambda>r. Some (after_events events fs r)) = Some r"
        using assms \<open>below step (tn_max_steps tn) = Inr again\<close> True st by simp
      then obtain r' where "loop tn (step + 1) param' = Some r'" "r = after_events events fs r'"
        by (auto simp: Option.bind_eq_Some_conv)
      then show thesis using \<open>below step (tn_max_steps tn) = Inr again\<close> True st out by (intro step) simp_all
    qed
  qed
qed

lemma train_loop_induct [consumes 1, case_names stuck over raised step]:
  assumes "train_loop tn step param = Some r"
    and "\<And>step param e. below step (tn_max_steps tn) = Inl e \<Longrightarrow> P step param ([], [], Inl e)"
    and "\<And>step param. below step (tn_max_steps tn) = Inr False \<Longrightarrow> P step param ([], [], Inr (param, step))"
    and "\<And>step param events fs e. below step (tn_max_steps tn) = Inr True \<Longrightarrow>
        train_step tn (step + 1) param = (events, fs, Inl e) \<Longrightarrow> P step param (events, fs, Inl e)"
    and "\<And>step param events fs param' r. below step (tn_max_steps tn) = Inr True \<Longrightarrow>
        train_step tn (step + 1) param = (events, fs, Inr param') \<Longrightarrow> train_loop tn (step + 1) param' = Some r \<Longrightarrow>
        P (step + 1) param' r \<Longrightarrow> P step param (after_events events fs r)"
  shows "P step param r"
proof -
  have "t = tn \<longrightarrow> train_loop t s p = Some r \<and> P s p r" if "train_loop t s p = Some r" for t s p r
  proof (rule train_loop.raw_induct [OF _ that])
    fix loop t s p r
    assume IH: "\<And>t s p r. loop t s p = Some r \<Longrightarrow> t = tn \<longrightarrow> train_loop t s p = Some r \<and> P s p r"
    assume body: "(case below s (tn_max_steps t) of
        Inl e \<Rightarrow> Some ([], [], Inl e)
      | Inr again \<Rightarrow> if \<not> again then Some ([], [], Inr (p, s))
          else (case train_step t (s + 1) p of
             (events, fs, Inl e) \<Rightarrow> Some (events, fs, Inl e)
           | (events, fs, Inr param') \<Rightarrow>
               Option.bind (loop t (s + 1) param') (\<lambda>r. Some (after_events events fs r)))) = Some r"
    show "t = tn \<longrightarrow> train_loop t s p = Some r \<and> P s p r"
    proof
      assume t: "t = tn"
      from body show "train_loop t s p = Some r \<and> P s p r"
      proof (cases rule: loop_body_cases)
        case (stuck e)
        then show ?thesis using assms(2) t by (simp add: train_loop.simps)
      next
        case over
        then show ?thesis using assms(3) t by (simp add: train_loop.simps)
      next
        case (raised events fs e)
        then show ?thesis using assms(4) t by (simp add: train_loop.simps)
      next
        case (step events fs param' r')
        then have "train_loop t (s + 1) param' = Some r'" "P (s + 1) param' r'" using IH t by blast+
        moreover from this have "train_loop t s p = Some r"
          using step by (subst train_loop.simps) simp
        ultimately show ?thesis using step assms(5) t by simp
      qed
    qed
  qed
  with assms(1) show ?thesis by blast
qed

subsection \<open>It ends\<close>

lemma below_Fin: "json_number v = Some (Fin q) \<Longrightarrow> below step v = Inr (of_int step < q)"
  by (simp add: below_def json_compare_def)

lemma train_loop_returns:
  assumes "json_number (tn_max_steps tn) = Some (Fin q)" and "q \<le> of_int step + of_nat k"
  shows "\<exists>r. train_loop tn step param = Some r"
  using assms(2)
proof (induction k arbitrary: step param)
  case 0
  then have "below step (tn_max_steps tn) = Inr False" by (simp add: below_Fin [OF assms(1)])
  then show ?case by (subst train_loop.simps) simp
next
  case (Suc k)
  obtain events fs out where st: "train_step tn (step + 1) param = (events, fs, out)" by (cases "train_step tn (step + 1) param")
  have IH: "\<exists>r. train_loop tn (step + 1) param' = Some r" for param'
    by (rule Suc.IH) (use Suc.prems in simp)
  show ?case
  proof (cases out)
    case (Inl e)
    then show ?thesis by (subst train_loop.simps) (simp add: below_Fin [OF assms(1)] st)
  next
    case (Inr param')
    obtain r where "train_loop tn (step + 1) param' = Some r" using IH by blast
    with Inr show ?thesis
      by (cases "after_events events fs r") (subst train_loop.simps, simp add: below_Fin [OF assms(1)] st)
  qed
qed

text \<open>C25: The training loop ends, whatever the configuration, with a result or an exception, unless the
  number of steps is the float infinity.\<close>

theorem training_terminates:
  assumes "json_number (tn_max_steps tn) \<noteq> Some PInf"
  shows "\<exists>r. train_loop tn step param = Some r"
proof (cases "json_number (tn_max_steps tn)")
  case None
  then show ?thesis by (subst train_loop.simps) (simp add: below_def json_compare_def)
next
  case (Some x)
  show ?thesis
  proof (cases x)
    case (Fin q)
    obtain k :: nat where "q - of_int step < of_nat k" using reals_Archimedean2 by blast
    then have "q \<le> of_int step + of_nat k" by simp
    then show ?thesis using train_loop_returns Some Fin by simp
  qed (use Some assms in \<open>subst train_loop.simps; simp add: below_def json_compare_def\<close>)+
qed

subsection \<open>What it reports and saves\<close>

definition metric_steps :: "json list \<Rightarrow> int list" where
  "metric_steps events = List.map_filter (\<lambda>e. case e of
     JObj kvs \<Rightarrow> (if obj_get ''event'' kvs = JStr ''metric'' then (case obj_get ''step'' kvs of JInt i \<Rightarrow> Some i | _ \<Rightarrow> None) else None)
   | _ \<Rightarrow> None) events"

definition checkpoint_steps :: "json list \<Rightarrow> int list" where
  "checkpoint_steps events = List.map_filter (\<lambda>e. case e of
     JObj kvs \<Rightarrow> (if obj_get ''event'' kvs = JStr ''checkpoint'' then (case obj_get ''step'' kvs of JInt i \<Rightarrow> Some i | _ \<Rightarrow> None) else None)
   | _ \<Rightarrow> None) events"

lemma steps_append:
  "metric_steps (a @ b) = metric_steps a @ metric_steps b" "checkpoint_steps (a @ b) = checkpoint_steps a @ checkpoint_steps b"
  by (simp_all add: metric_steps_def checkpoint_steps_def map_filter_def)

lemma steps_report:
  "metric_steps [metric_report i l r] = [i]" "checkpoint_steps [metric_report i l r] = []"
  "metric_steps [checkpoint_report tn i] = []" "checkpoint_steps [checkpoint_report tn i] = [i]"
  "metric_steps [] = []" "checkpoint_steps [] = []"
  by (simp_all add: metric_steps_def checkpoint_steps_def map_filter_def metric_report_def checkpoint_report_def obj_get_def)

text \<open>A step that does not raise.\<close>

lemma train_step_ok:
  assumes "train_step tn step param = (events, fs, Inr param')"
  shows "\<exists>loss save. (falsy (tn_sleep tn) \<or> sleep_check (tn_sleep tn) = None) \<and> update_param tn param = Inr (param', loss)
     \<and> sum_bind (divides (tn_every tn) step) (\<lambda>hit. if hit then below step (tn_max_steps tn) else Inr False) = Inr save
     \<and> events = metric_report step loss (tn_learning_rate tn) # (if save then [checkpoint_report tn step] else [])
     \<and> fs = (if save then [(checkpoint_path tn step, checkpoint_content tn param' step)] else [])"
  using assms by (auto simp: train_step_def Let_def split: option.splits sum.splits prod.splits if_splits)

lemma schedule_loop:
  assumes "train_loop tn step param = Some r" and "tn_max_steps tn = JInt m" and "tn_every tn = JInt k"
  shows "\<forall>events fs p s. r = (events, fs, Inr (p, s)) \<longrightarrow>
     s = max step m \<and> metric_steps events = [step + 1..m]
   \<and> checkpoint_steps events = filter (\<lambda>i. i mod k = 0 \<and> i < m) [step + 1..m]
   \<and> map fst fs = map (checkpoint_path tn) (checkpoint_steps events)"
  using assms(1)
proof (induction rule: train_loop_induct)
  case (over step param)
  then have "m \<le> step" by (simp add: assms below_def json_compare_def)
  then show ?case by (simp add: steps_report max_def)
next
  case (step step param ev f param' r)
  have lt: "step < m" using step(1) by (simp add: assms below_def json_compare_def)
  from train_step_ok [OF step(2)] obtain loss save where st:
    "sum_bind (divides (tn_every tn) (step + 1)) (\<lambda>hit. if hit then below (step + 1) (tn_max_steps tn) else Inr False) = Inr save"
    "ev = metric_report (step + 1) loss (tn_learning_rate tn) # (if save then [checkpoint_report tn (step + 1)] else [])"
    "f = (if save then [(checkpoint_path tn (step + 1), checkpoint_content tn param' (step + 1))] else [])" by blast
  have save: "save \<longleftrightarrow> (step + 1) mod k = 0 \<and> step + 1 < m"
    using st(1) by (auto simp: assms sum_bind_def below_def json_compare_def split: if_splits)
  have ms: "metric_steps ev = [step + 1]" and cs: "checkpoint_steps ev = (if save then [step + 1] else [])"
    using steps_append [of "[metric_report (step + 1) loss (tn_learning_rate tn)]" "[checkpoint_report tn (step + 1)]"]
    by (auto simp: st(2) steps_report)
  have upto: "[step + 1..m] = (step + 1) # [step + 1 + 1..m]" using lt by (simp add: upto_rec1)
  show ?case
    using step.IH lt by (auto simp: after_events_def steps_append ms cs upto save st(3) split: prod.splits)
qed auto

text \<open>A run of the trainer that finished, taken apart.\<close>

lemma toy_trainer_finished:
  assumes "toy_trainer read cx = Some (events, fs, None)"
  obtains tn first p s step param ev f q n where "trainer_of cx = Inr tn" "start_of read cx = Inr (first, p, s)"
    "as_step s = Inr step" "json_to_float p = Inr param" "train_loop tn step param = Some (ev, f, Inr (q, n))"
    "events = first @ ev @ [final_report tn n]" "fs = f @ [(final_path tn, final_content tn q n)]"
proof -
  obtain tn first p s where 1: "trainer_of cx = Inr tn" "start_of read cx = Inr (first, p, s)"
    using assms by (auto simp: toy_trainer_def sum_bind_def split: sum.splits)
  then obtain step param where 2: "as_step s = Inr step" "json_to_float p = Inr param"
    using assms by (auto simp: toy_trainer_def sum_bind_def split: sum.splits)
  then obtain r where r: "train_loop tn step param = Some r" "conclude_training tn first r = (events, fs, None)"
    using assms 1 by (auto simp: toy_trainer_def sum_bind_def Option.bind_eq_Some_conv)
  obtain ev f out where rr: "r = (ev, f, out)" by (cases r)
  obtain q n where "out = Inr (q, n)" using r(2) rr by (cases out) (auto simp: conclude_training_def)
  with 1 2 r rr that show thesis by (simp add: conclude_training_def)
qed

lemma start_steps:
  assumes "start_of read cx = Inr (first, p, s)" shows "metric_steps first = [] \<and> checkpoint_steps first = []"
  using assms
  by (auto simp: start_of_def Let_def sum_bind_def metric_steps_def checkpoint_steps_def map_filter_def resumed_report_def
      obj_get_def split: if_splits sum.splits)

lemma final_steps: "metric_steps [final_report tn n] = [] \<and> checkpoint_steps [final_report tn n] = []"
  by (simp add: metric_steps_def checkpoint_steps_def map_filter_def final_report_def obj_get_def)

text \<open>The schedule of a finished run with an integer number of steps and interval: starting after step
  \<open>s\<close>, it reports exactly one metric for each of the steps \<open>s + 1\<close> to \<open>m\<close>, in order, and saves and reports
  exactly one checkpoint at each multiple of the interval among them, the last step excepted.\<close>

theorem training_schedule:
  assumes "toy_trainer read cx = Some (events, fs, None)" and "trainer_of cx = Inr tn"
    and "start_of read cx = Inr (first, p, JInt s)" and "tn_max_steps tn = JInt m" and "tn_every tn = JInt k"
  shows "metric_steps events = [s + 1..m]
     \<and> checkpoint_steps events = filter (\<lambda>i. i mod k = 0 \<and> i < m) [s + 1..m]
     \<and> map fst fs = map (checkpoint_path tn) (checkpoint_steps events) @ [final_path tn]"
proof -
  from assms(1) obtain param ev f q n where run: "train_loop tn s param = Some (ev, f, Inr (q, n))"
    "events = first @ ev @ [final_report tn n]" "fs = f @ [(final_path tn, final_content tn q n)]"
    by (rule toy_trainer_finished) (use assms(2,3) in auto)
  from schedule_loop [OF run(1) assms(4,5)] start_steps [OF assms(3)] final_steps [of tn n] show ?thesis
    by (auto simp: run(2,3) steps_append)
qed

subsection \<open>Resuming\<close>

text \<open>What a run computes: the losses it reports.\<close>

definition losses :: "json list \<Rightarrow> (json \<times> json) list" where
  "losses events = List.map_filter (\<lambda>e. case e of
     JObj kvs \<Rightarrow> (if obj_get ''event'' kvs = JStr ''metric'' then Some (obj_get ''step'' kvs, obj_get ''loss'' kvs) else None)
   | _ \<Rightarrow> None) events"

lemma losses_append: "losses (a @ b) = losses a @ losses b"
  by (simp add: losses_def map_filter_def)

lemma losses_report:
  "losses [] = []" "losses [metric_report i l r] = [(JInt i, JFloat l)]" "losses [checkpoint_report tn i] = []"
  "losses [final_report tn i] = []" "losses [resumed_report v] = []"
  by (simp_all add: losses_def map_filter_def metric_report_def checkpoint_report_def final_report_def resumed_report_def obj_get_def)

text \<open>Two trainers that differ at most in where they write and in whose run it is.\<close>

definition same_hyper :: "trainer \<Rightarrow> trainer \<Rightarrow> bool" where
  "same_hyper tn tn' \<longleftrightarrow> tn_max_steps tn' = tn_max_steps tn \<and> tn_every tn' = tn_every tn
     \<and> tn_learning_rate tn' = tn_learning_rate tn \<and> tn_target tn' = tn_target tn \<and> tn_sleep tn' = tn_sleep tn"

lemma same_hyper_step:
  assumes "same_hyper tn tn'" and "train_step tn step param = (events, fs, Inr param')"
  shows "\<exists>events' fs'. train_step tn' step param = (events', fs', Inr param') \<and> losses events' = losses events"
proof -
  have two: "losses [metric_report i l r, checkpoint_report t j] = [(JInt i, JFloat l)]" for i l r t j
    using losses_append [of "[metric_report i l r]" "[checkpoint_report t j]"] by (simp add: losses_report)
  have upd: "update_param tn' param = update_param tn param" using assms(1) by (simp add: update_param_def same_hyper_def)
  have hit: "sum_bind (divides (tn_every tn') step) (\<lambda>hit. if hit then below step (tn_max_steps tn') else Inr False)
      = sum_bind (divides (tn_every tn) step) (\<lambda>hit. if hit then below step (tn_max_steps tn) else Inr False)"
    and sleep: "tn_sleep tn' = tn_sleep tn"
    using assms(1) by (simp_all add: same_hyper_def cong: if_cong)
  from train_step_ok [OF assms(2)] obtain loss save where st: "falsy (tn_sleep tn) \<or> sleep_check (tn_sleep tn) = None"
    "update_param tn param = Inr (param', loss)"
    "sum_bind (divides (tn_every tn) step) (\<lambda>hit. if hit then below step (tn_max_steps tn) else Inr False) = Inr save"
    "events = metric_report step loss (tn_learning_rate tn) # (if save then [checkpoint_report tn step] else [])" by blast
  have "train_step tn' step param = (metric_report step loss (tn_learning_rate tn') #
      (if save then [checkpoint_report tn' step] else []),
      if save then [(checkpoint_path tn' step, checkpoint_content tn' param' step)] else [], Inr param')"
    using st(1-3) by (auto simp: train_step_def upd hit sleep)
  then show ?thesis by (simp add: st(4) losses_report two)
qed

lemma same_hyper_loop:
  assumes "train_loop tn step param = Some r" and "same_hyper tn tn'"
  shows "\<forall>events fs out. r = (events, fs, Inr out) \<longrightarrow>
     (\<exists>events' fs'. train_loop tn' step param = Some (events', fs', Inr out) \<and> losses events' = losses events)"
  using assms(1)
proof (induction rule: train_loop_induct)
  case (over step param)
  then have "below step (tn_max_steps tn') = Inr False" using assms(2) by (simp add: same_hyper_def)
  then have "train_loop tn' step param = Some ([], [], Inr (param, step))" by (subst train_loop.simps) simp
  then show ?case by (auto simp: losses_report)
next
  case (step step param ev f param' r)
  obtain ev' f' where st: "train_step tn' (step + 1) param = (ev', f', Inr param')" "losses ev' = losses ev"
    using same_hyper_step [OF assms(2) step(2)] by blast
  have b: "below step (tn_max_steps tn') = Inr True" using step(1) assms(2) by (simp add: same_hyper_def)
  obtain re rf ro where r: "r = (re, rf, ro)" by (cases r)
  show ?case
  proof (intro allI impI)
    fix events fs out assume "after_events ev f r = (events, fs, Inr out)"
    then have out: "ro = Inr out" "events = ev @ re" by (auto simp: after_events_def r)
    then obtain re' rf' where re': "train_loop tn' (step + 1) param' = Some (re', rf', Inr out)" "losses re' = losses re"
      using step.IH r by blast
    have "train_loop tn' step param = Some (ev' @ re', f' @ rf', Inr out)"
      by (subst train_loop.simps) (simp add: b st re' after_events_def)
    then show "\<exists>events' fs'. train_loop tn' step param = Some (events', fs', Inr out) \<and> losses events' = losses events"
      using st(2) re'(2) out(2) by (auto simp: losses_append)
  qed
qed auto

text \<open>The loop from any of its saved files on.\<close>

lemma loop_from_checkpoint:
  assumes "train_loop tn step param = Some r"
  shows "\<forall>events fs out path content. r = (events, fs, Inr out) \<longrightarrow> (path, content) \<in> set fs \<longrightarrow>
     (\<exists>k q ev1 ev2 fs2. content = checkpoint_content tn q k \<and> events = ev1 @ ev2
        \<and> train_loop tn k q = Some (ev2, fs2, Inr out))"
  using assms
proof (induction rule: train_loop_induct)
  case (step step param ev f param' r)
  obtain re rf ro where r: "r = (re, rf, ro)" by (cases r)
  show ?case
  proof (intro allI impI)
    fix events fs out path content
    assume after: "after_events ev f r = (events, fs, Inr out)" and saved: "(path, content) \<in> set fs"
    then have out: "ro = Inr out" "events = ev @ re" "fs = f @ rf" by (auto simp: after_events_def r)
    show "\<exists>k q ev1 ev2 fs2. content = checkpoint_content tn q k \<and> events = ev1 @ ev2
        \<and> train_loop tn k q = Some (ev2, fs2, Inr out)"
    proof (cases "(path, content) \<in> set f")
      case True
      then have "content = checkpoint_content tn param' (step + 1)"
        using train_step_ok [OF step(2)] by (auto split: if_splits)
      then show ?thesis using step(3) out r by blast
    next
      case False
      then have "(path, content) \<in> set rf" using saved out by simp
      then obtain k q ev1 ev2 fs2 where "content = checkpoint_content tn q k" "re = ev1 @ ev2"
          "train_loop tn k q = Some (ev2, fs2, Inr out)"
        using step.IH r out by blast
      then show ?thesis using out(2) by (metis append.assoc)
    qed
  qed
qed auto

text \<open>C13: Resuming loses nothing.  Take any finished run of the trainer and any checkpoint file it wrote.  A later
  attempt with the same hyper-parameters, whatever its working directory and attempt number, that
  resumes from the content of that file finishes too; the losses it reports are exactly the last of those
  of the uninterrupted run; and it ends at the same step with the same parameter, bit for bit.\<close>

theorem resume_equivalent:
  assumes "toy_trainer read cx = Some (events, fs, None)" and "trainer_of cx = Inr tn"
    and "(path, content) \<in> set fs" and "path \<noteq> final_path tn"
    and "trainer_of cx' = Inr tn'" and "same_hyper tn tn'"
    and "obj_get ''resume_from'' cx' = JObj [(''local_path'', JStr local_path), (''step'', v)]"
    and "read' (JStr local_path) = Inr content"
  shows "\<exists>events' fs' earlier q n. toy_trainer read' cx' = Some (events', fs', None)
     \<and> losses events = earlier @ losses events'
     \<and> (final_path tn, final_content tn q n) \<in> set fs \<and> (final_path tn', final_content tn' q n) \<in> set fs'"
proof -
  from assms(1) obtain first p s step param ev f q n where run: "start_of read cx = Inr (first, p, s)"
    "train_loop tn step param = Some (ev, f, Inr (q, n))" "events = first @ ev @ [final_report tn n]"
    "fs = f @ [(final_path tn, final_content tn q n)]"
    by (rule toy_trainer_finished) (use assms(2) in auto)
  have "(path, content) \<in> set f" using assms(3,4) run(4) by auto
  then obtain k r ev1 ev2 fs2 where cp: "content = checkpoint_content tn r k" "ev = ev1 @ ev2"
    "train_loop tn k r = Some (ev2, fs2, Inr (q, n))"
    using loop_from_checkpoint [OF run(2)] by blast
  obtain ev' f' where again: "train_loop tn' k r = Some (ev', f', Inr (q, n))" "losses ev' = losses ev2"
    using same_hyper_loop [OF cp(3) assms(6)] by blast
  have "start_of read' cx' = Inr ([resumed_report (JInt k)], JFloat r, JInt k)"
    using assms(7,8) by (simp add: start_of_def sum_bind_def key_get_def cp(1) checkpoint_content_def)
  then have "toy_trainer read' cx' = Some ([resumed_report (JInt k)] @ ev' @ [final_report tn' n],
      f' @ [(final_path tn', final_content tn' q n)], None)"
    using again(1) assms(5) by (simp add: toy_trainer_def sum_bind_def conclude_training_def)
  moreover have "losses events = (losses first @ losses ev1) @ losses ([resumed_report (JInt k)] @ ev' @ [final_report tn' n])"
    by (simp only: run(3) cp(2) losses_append losses_report again(2)) simp
  ultimately show ?thesis using run(4) by fastforce
qed

subsection \<open>A sample run\<close>

definition sample_training :: "string \<Rightarrow> json \<Rightarrow> (string \<times> json) list" where
  "sample_training dir resume = [(''work_dir'', JStr dir), (''max_steps'', JInt 2), (''checkpoint_every_n_steps'', JInt 1),
     (''learning_rate'', JFloat (Fin 0)), (''resume_from'', resume)]"

definition sample_trainer :: "string \<Rightarrow> trainer" where
  "sample_trainer dir = \<lparr>tn_work_dir = dir, tn_max_steps = JInt 2, tn_every = JInt 1, tn_learning_rate = JFloat (Fin 0),
     tn_target = JFloat (Fin 1), tn_identity = [(''training_run_id'', JNull), (''attempt_number'', JNull)], tn_sleep = JInt 0\<rparr>"

lemma sample_trainer_of: "trainer_of (sample_training dir resume) = Inr (sample_trainer dir)"
  by (simp add: trainer_of_def sum_bind_def key_get_def sample_training_def sample_trainer_def obj_has_def obj_get_def)

lemma sample_update: "update_param (sample_trainer dir) (Fin 0) = Inr (Fin 0, Fin 1)"
  by (simp add: update_param_def sample_trainer_def sum_bind_def f_sub_def fl_01 Let_def)

lemma sample_loop:
  "train_loop (sample_trainer dir) 0 (Fin 0) =
     Some ([metric_report 1 (Fin 1) (JFloat (Fin 0)), checkpoint_report (sample_trainer dir) 1, metric_report 2 (Fin 1) (JFloat (Fin 0))],
       [(checkpoint_path (sample_trainer dir) 1, checkpoint_content (sample_trainer dir) (Fin 0) 1)], Inr (Fin 0, 2))"
proof -
  let ?tn = "sample_trainer dir"
  have f: "tn_sleep ?tn = JInt 0" "tn_every ?tn = JInt 1" "tn_learning_rate ?tn = JFloat (Fin 0)" "tn_max_steps ?tn = JInt 2"
    by (simp_all add: sample_trainer_def)
  have b: "below i (tn_max_steps ?tn) = Inr (i < 2)" for i
    by (simp add: below_def json_compare_def sample_trainer_def)
  have st: "train_step ?tn i (Fin 0) = (if i < 2
      then ([metric_report i (Fin 1) (JFloat (Fin 0)), checkpoint_report ?tn i],
            [(checkpoint_path ?tn i, checkpoint_content ?tn (Fin 0) i)], Inr (Fin 0))
      else ([metric_report i (Fin 1) (JFloat (Fin 0))], [], Inr (Fin 0)))" for i
    by (simp add: train_step_def sample_update f b [unfolded f] sum_bind_def Let_def)
  have "train_loop ?tn 2 (Fin 0) = Some ([], [], Inr (Fin 0, 2))"
    by (subst train_loop.simps) (simp add: b)
  then have "train_loop ?tn 1 (Fin 0) = Some ([metric_report 2 (Fin 1) (JFloat (Fin 0))], [], Inr (Fin 0, 2))"
    by (subst train_loop.simps) (simp add: b st after_events_def)
  then show ?thesis
    by (subst train_loop.simps) (simp add: b st after_events_def)
qed

lemma sample_trained:
  "toy_trainer read (sample_training dir JNull) =
     Some ([metric_report 1 (Fin 1) (JFloat (Fin 0)), checkpoint_report (sample_trainer dir) 1, metric_report 2 (Fin 1) (JFloat (Fin 0)),
            final_report (sample_trainer dir) 2],
       [(checkpoint_path (sample_trainer dir) 1, checkpoint_content (sample_trainer dir) (Fin 0) 1),
        (final_path (sample_trainer dir), final_content (sample_trainer dir) (Fin 0) 2)], None)"
proof -
  have "start_of read (sample_training dir JNull) = Inr ([], JFloat (Fin 0), JInt 0)"
    by (simp add: start_of_def sample_training_def obj_get_def)
  then show ?thesis
    by (simp add: toy_trainer_def sample_trainer_of sum_bind_def sample_loop conclude_training_def)
qed

theorem training_terminates_witness: "\<exists>r. train_loop (sample_trainer ''/w'') 0 (Fin 0) = Some r"
  by (rule training_terminates) (simp add: sample_trainer_def)

theorem training_schedule_witness:
  "metric_steps [metric_report 1 (Fin 1) (JFloat (Fin 0)), checkpoint_report (sample_trainer ''/w'') 1,
     metric_report 2 (Fin 1) (JFloat (Fin 0)), final_report (sample_trainer ''/w'') 2] = [1, 2]"
proof -
  have "start_of (\<lambda>_. Inl PyKeyError) (sample_training ''/w'' JNull) = Inr ([], JFloat (Fin 0), JInt 0)"
    by (simp add: start_of_def sample_training_def obj_get_def)
  from training_schedule [OF sample_trained sample_trainer_of this, of 2 1] show ?thesis
    by (simp add: sample_trainer_def upto_rec1)
qed

theorem resume_equivalent_witness:
  "\<exists>events fs. toy_trainer (\<lambda>_. Inr (checkpoint_content (sample_trainer ''/w'') (Fin 0) 1))
       (sample_training ''/x'' (JObj [(''local_path'', JStr ''/x/c''), (''step'', JInt 1)])) = Some (events, fs, None)
     \<and> length (losses events) \<le> 2"
proof -
  have saved: "(checkpoint_path (sample_trainer ''/w'') 1, checkpoint_content (sample_trainer ''/w'') (Fin 0) 1)
    \<in> set [(checkpoint_path (sample_trainer ''/w'') 1, checkpoint_content (sample_trainer ''/w'') (Fin 0) 1),
        (final_path (sample_trainer ''/w''), final_content (sample_trainer ''/w'') (Fin 0) 2)]" by simp
  have other: "checkpoint_path (sample_trainer ''/w'') 1 \<noteq> final_path (sample_trainer ''/w'')"
    by (simp add: checkpoint_path_def final_path_def path_join_def sample_trainer_def)
  have same: "same_hyper (sample_trainer ''/w'') (sample_trainer ''/x'')" by (simp add: same_hyper_def sample_trainer_def)
  have from_file: "obj_get ''resume_from'' (sample_training ''/x'' (JObj [(''local_path'', JStr ''/x/c''), (''step'', JInt 1)]))
      = JObj [(''local_path'', JStr ''/x/c''), (''step'', JInt 1)]" by (simp add: sample_training_def obj_get_def)
  obtain events' fs' earlier where r: "toy_trainer (\<lambda>_. Inr (checkpoint_content (sample_trainer ''/w'') (Fin 0) 1))
       (sample_training ''/x'' (JObj [(''local_path'', JStr ''/x/c''), (''step'', JInt 1)])) = Some (events', fs', None)"
    "losses [metric_report 1 (Fin 1) (JFloat (Fin 0)), checkpoint_report (sample_trainer ''/w'') 1,
       metric_report 2 (Fin 1) (JFloat (Fin 0)), final_report (sample_trainer ''/w'') 2] = earlier @ losses events'"
    using resume_equivalent [OF sample_trained sample_trainer_of saved other sample_trainer_of same from_file refl] by blast
  have "length (losses [metric_report 1 (Fin 1) (JFloat (Fin 0)), checkpoint_report (sample_trainer ''/w'') 1,
       metric_report 2 (Fin 1) (JFloat (Fin 0)), final_report (sample_trainer ''/w'') 2]) = 2"
    by (simp add: losses_def map_filter_def metric_report_def checkpoint_report_def final_report_def obj_get_def)
  then have "length (losses events') \<le> 2" using r(2) by simp
  with r(1) show ?thesis by blast
qed

end
