(* ===== verification/Discovery.thy ===== *)
theory Discovery
  imports FencedRepo Worker
begin

text \<open>
  Finding the checkpoint to resume from (app/training/checkpoint_discovery.py): the rows of the
  run's checkpoints, most advanced first, each checked against its artifact, the bytes in the
  object store, the base model of the run and the supported format, until one passes.
\<close>

definition SUPPORTED_CHECKPOINT_FORMAT_VERSION :: int where
  "SUPPORTED_CHECKPOINT_FORMAT_VERSION = 1"

definition is_compatible ::
  "(bytes \<Rightarrow> string) \<Rightarrow> (string \<Rightarrow> exn + bytes) \<Rightarrow> int \<Rightarrow> training_run \<Rightarrow> checkpoint \<Rightarrow> bool program" where
  "is_compatible hash_bytes get_object supported_format_version training_run candidate =
     bind (artifacts_get (c_artifact_id candidate)) (\<lambda>artifact.
     case artifact of
       None \<Rightarrow> ret False
     | Some a \<Rightarrow>
         if f_status a \<noteq> AUploaded then ret False
         else bind (object_exists_with_hash hash_bytes get_object (f_storage_key a) (f_content_hash a)) (\<lambda>intact.
              if \<not> intact then ret False
              else if c_base_model_id candidate \<noteq> tr_base_model_id training_run
                \<or> c_base_model_version_number candidate \<noteq> tr_base_model_version_number training_run then ret False
              else ret (c_checkpoint_format_version candidate = supported_format_version)))"

fun first_compatible ::
  "(bytes \<Rightarrow> string) \<Rightarrow> (string \<Rightarrow> exn + bytes) \<Rightarrow> int \<Rightarrow> training_run \<Rightarrow> checkpoint list \<Rightarrow> checkpoint option program" where
  "first_compatible hash_bytes get_object fmt training_run [] = ret None"
| "first_compatible hash_bytes get_object fmt training_run (c # cs) =
     bind (is_compatible hash_bytes get_object fmt training_run c) (\<lambda>ok.
     if \<not> ok then first_compatible hash_bytes get_object fmt training_run cs else ret (Some c))"

definition resume_candidates :: "uuid \<Rightarrow> db \<Rightarrow> checkpoint list" where
  "resume_candidates rid d =
     sort_key (\<lambda>c. - c_step c) (sort_key (\<lambda>c. - c_attempt_number c)
       (sort_key (\<lambda>c. - c_created_at c) (sql_select (\<lambda>c. c_training_run_id c = rid) (t_checkpoints d))))"

definition find_resume_checkpoint ::
  "(bytes \<Rightarrow> string) \<Rightarrow> (string \<Rightarrow> exn + bytes) \<Rightarrow> uuid \<Rightarrow> int \<Rightarrow> checkpoint option program" where
  "find_resume_checkpoint hash_bytes get_object rid fmt =
     bind (query (find_training_run rid)) (\<lambda>training_run.
     case training_run of
       None \<Rightarrow> ret None
     | Some tr \<Rightarrow>
         bind (query (resume_candidates rid)) (\<lambda>candidates.
         first_compatible hash_bytes get_object fmt tr candidates))"

section \<open>The checkpoint found\<close>

text \<open>What makes a checkpoint usable, as a predicate on the state and the store.\<close>

definition usable :: "(bytes \<Rightarrow> string) \<Rightarrow> (string \<Rightarrow> exn + bytes) \<Rightarrow> int \<Rightarrow> training_run \<Rightarrow> db \<Rightarrow> checkpoint \<Rightarrow> bool" where
  "usable hash_bytes get_object fmt tr d c \<longleftrightarrow>
     (\<exists>a data. find_artifact (c_artifact_id c) d = Some a \<and> f_status a = AUploaded
        \<and> get_object (f_storage_key a) = Inr data \<and> hash_bytes data = f_content_hash a)
   \<and> c_base_model_id c = tr_base_model_id tr \<and> c_base_model_version_number c = tr_base_model_version_number tr
   \<and> c_checkpoint_format_version c = fmt"

text \<open>The check reads, and answers \<open>usable\<close> unless the store fails with something other than a missing
  object.\<close>

lemma is_compatible_run:
  assumes "is_compatible hb go fmt tr c s = (r, s')"
  shows "s' = s \<and> (\<forall>b. r = Inr b \<longrightarrow> b = usable hb go fmt tr (work s) c)"
proof (cases "find_artifact (c_artifact_id c) (work s)")
  case None
  with assms show ?thesis by (auto simp: is_compatible_def artifacts_get_def usable_def bind_def query_def ret_def)
next
  case (Some a)
  show ?thesis
  proof (cases "f_status a = AUploaded")
    case False
    with assms Some show ?thesis
      by (auto simp: is_compatible_def artifacts_get_def usable_def bind_def query_def ret_def)
  next
    case True
    note up = this
    show ?thesis
    proof (cases "go (f_storage_key a)")
      case (Inl e)
      with assms Some up show ?thesis
        by (cases e) (auto simp: is_compatible_def artifacts_get_def usable_def bind_def query_def ret_def
            object_exists_with_hash_def raise_def)
    next
      case (Inr data)
      with assms Some up show ?thesis
        by (auto simp: is_compatible_def artifacts_get_def usable_def bind_def query_def ret_def
            object_exists_with_hash_def split: if_splits)
    qed
  qed
qed

lemma first_compatible_run:
  "first_compatible hb go fmt tr cs s = (r, s') \<Longrightarrow>
   s' = s \<and> (\<forall>found. r = Inr found \<longrightarrow> found = List.find (usable hb go fmt tr (work s)) cs)"
proof (induction cs arbitrary: r s')
  case Nil
  then show ?case by (auto simp: ret_def)
next
  case (Cons c cs)
  obtain b s1 where c: "is_compatible hb go fmt tr c s = (b, s1)" by fastforce
  note run = is_compatible_run [OF c]
  show ?case
  proof (cases b)
    case (Inl e)
    with Cons.prems c run show ?thesis by (auto simp: bind_def)
  next
    case (Inr ok)
    show ?thesis
    proof (cases ok)
      case True
      with Cons.prems c run Inr show ?thesis by (auto simp: bind_def ret_def)
    next
      case False
      with Cons.prems c run Inr have "first_compatible hb go fmt tr cs s = (r, s')" by (simp add: bind_def)
      from Cons.IH [OF this] show ?thesis using run Inr False by auto
    qed
  qed
qed

lemma find_resume_run:
  assumes "find_training_run rid d = Some tr" and "find_resume_checkpoint hb go rid fmt (begin_session d) = (r, s')"
  shows "s' = begin_session d \<and> (\<forall>found. r = Inr found \<longrightarrow>
     found = List.find (usable hb go fmt tr d) (resume_candidates rid d))"
  using first_compatible_run [of hb go fmt tr "resume_candidates rid d" "begin_session d" r s'] assms
  by (simp add: find_resume_checkpoint_def bind_def query_def begin_session_def)

text \<open>The rank of a checkpoint: step, then attempt, then time.\<close>

definition ahead :: "checkpoint \<Rightarrow> checkpoint \<Rightarrow> bool" where
  "ahead c c' \<longleftrightarrow> c_step c' < c_step c \<or> c_step c = c_step c' \<and> (c_attempt_number c' < c_attempt_number c
     \<or> c_attempt_number c = c_attempt_number c' \<and> c_created_at c' \<le> c_created_at c)"

lemma sorted_wrt_insort:
  fixes f :: "'a \<Rightarrow> 'k :: linorder"
  assumes "sorted_wrt (\<lambda>x y. f x < f y \<or> f x = f y \<and> R x y) xs" and "\<forall>y \<in> set xs. R x y"
  shows "sorted_wrt (\<lambda>x y. f x < f y \<or> f x = f y \<and> R x y) (insort_key f x xs)"
  using assms
proof (induction xs)
  case (Cons y ys)
  show ?case
  proof (cases "f x \<le> f y")
    case True
    with Cons.prems show ?thesis by (auto simp: order_le_less)
  next
    case False
    with Cons show ?thesis by (auto simp: set_insort_key)
  qed
qed simp

lemma sorted_wrt_stable_sort:
  fixes f :: "'a \<Rightarrow> 'k :: linorder"
  assumes "sorted_wrt R xs"
  shows "sorted_wrt (\<lambda>x y. f x < f y \<or> f x = f y \<and> R x y) (sort_key f xs)"
  using assms
proof (induction xs)
  case (Cons x xs)
  then show ?case using sorted_wrt_insort [of f R "sort_key f xs" x] by simp
qed simp

lemma candidates_ranked: "sorted_wrt ahead (resume_candidates rid d)"
proof -
  let ?cs = "sql_select (\<lambda>c. c_training_run_id c = rid) (t_checkpoints d)"
  have "sorted_wrt (\<lambda>_ _. True) ?cs" by (induction ?cs) (simp_all add: sorted_wrt_true)
  from sorted_wrt_stable_sort [OF sorted_wrt_stable_sort [OF sorted_wrt_stable_sort [OF this, of "\<lambda>c. - c_created_at c"],
      of "\<lambda>c. - c_attempt_number c"], of "\<lambda>c. - c_step c"]
  show ?thesis
    unfolding resume_candidates_def by (rule sorted_wrt_mono_rel [rotated]) (auto simp: ahead_def)
qed

lemma ahead_refl: "ahead c c"
  by (simp add: ahead_def)

lemma find_first_sorted:
  "sorted_wrt R xs \<Longrightarrow> (\<And>x. R x x) \<Longrightarrow> List.find p xs = Some c \<Longrightarrow> c \<in> set xs \<and> p c \<and> (\<forall>x \<in> set xs. p x \<longrightarrow> R c x)"
  by (induction xs) (auto split: if_splits)

text \<open>C14: The checkpoint to resume from, exactly.  For an existing run, the search changes nothing; a
  checkpoint it returns is one of the run's, is usable (its artifact is UPLOADED, the store holds bytes
  of its hash, it has the base model of the run and the supported format), and no usable checkpoint of
  the run is ahead of it in step, attempt and time; and it returns none only if none is usable.\<close>

theorem resume_checkpoint_exact:
  assumes "find_training_run rid d = Some tr" and "result (find_resume_checkpoint hb go rid fmt) d = Inr found"
  shows "final_db (find_resume_checkpoint hb go rid fmt) d = d
     \<and> (case found of
          Some c \<Rightarrow> c \<in> set (t_checkpoints d) \<and> c_training_run_id c = rid \<and> usable hb go fmt tr d c
            \<and> (\<forall>c' \<in> set (t_checkpoints d). c_training_run_id c' = rid \<longrightarrow> usable hb go fmt tr d c' \<longrightarrow> ahead c c')
        | None \<Rightarrow> \<forall>c' \<in> set (t_checkpoints d). c_training_run_id c' = rid \<longrightarrow> \<not> usable hb go fmt tr d c')"
proof -
  obtain r s' where run: "find_resume_checkpoint hb go rid fmt (begin_session d) = (r, s')" by fastforce
  with find_resume_run [OF assms(1) run] assms(2)
  have s: "s' = begin_session d" and found: "found = List.find (usable hb go fmt tr d) (resume_candidates rid d)"
    by (auto simp: result_def)
  have set: "set (resume_candidates rid d) = {c \<in> set (t_checkpoints d). c_training_run_id c = rid}"
    by (auto simp: resume_candidates_def sql_select_def)
  show ?thesis
  proof (cases found)
    case None
    then have "\<forall>c' \<in> set (resume_candidates rid d). \<not> usable hb go fmt tr d c'"
      using found by (metis find_None_iff)
    with None set s run show ?thesis by (simp add: final_db_def begin_session_def)
  next
    case (Some c)
    from find_first_sorted [OF candidates_ranked ahead_refl found [symmetric, unfolded Some]] set s run show ?thesis
      by (auto simp: Some final_db_def begin_session_def)
  qed
qed

definition sample_checkpoint :: "int \<Rightarrow> uuid \<Rightarrow> checkpoint" where
  "sample_checkpoint step aid = \<lparr>c_training_run_id = 1, c_attempt_number = 1, c_step = step, c_artifact_id = aid,
     c_base_model_id = None, c_base_model_version_number = None, c_checkpoint_format_version = 1, c_created_at = 0\<rparr>"

definition sample_stored :: "uuid \<Rightarrow> string \<Rightarrow> artifact" where
  "sample_stored aid h = \<lparr>f_id = aid, f_content_hash = h, f_storage_key = storage_key_for_hash h,
     f_artifact_type = ''CHECKPOINT'', f_size_bytes = Some 1, f_attempt_number = Some 1, f_job_id = Some 1,
     f_status = AUploaded, f_uploader_id = Some ''w1'', f_upload_lease_expires_at = None,
     f_created_at = 0, f_uploaded_at = Some 0\<rparr>"

definition sample_interrupted :: db where
  "sample_interrupted = empty_db\<lparr>
     t_training_runs := [\<lparr>tr_id = 1, tr_job_id = 1, tr_dataset_id = 1, tr_dataset_version_number = 1,
       tr_base_model_id = None, tr_base_model_version_number = None, tr_training_config = JObj [],
       tr_code_commit = ''abc'', tr_container_image = ''img'', tr_random_seed = Some 7, tr_created_at = 0\<rparr>],
     t_artifacts := [sample_stored 1 ''x'', sample_stored 2 ''y''],
     t_checkpoints := [sample_checkpoint 10 1, sample_checkpoint 20 2]\<rparr>"

text \<open>A run with two checkpoints, the later of which is corrupt in the store.\<close>

theorem resume_checkpoint_exact_witness:
  "result (find_resume_checkpoint (\<lambda>b. b) (\<lambda>_. Inr ''x'') 1 1) sample_interrupted = Inr (Some (sample_checkpoint 10 1))
   \<and> \<not> usable (\<lambda>b. b) (\<lambda>_. Inr ''x'') 1 (hd (t_training_runs sample_interrupted)) sample_interrupted (sample_checkpoint 20 2)"
proof -
  have run: "find_training_run 1 sample_interrupted = Some (hd (t_training_runs sample_interrupted))"
    by (simp add: find_training_run_def sample_interrupted_def empty_db_def)
  have arts: "find_artifact 1 sample_interrupted = Some (sample_stored 1 ''x'')" "find_artifact 2 sample_interrupted = Some (sample_stored 2 ''y'')"
    by (simp_all add: find_artifact_def sample_interrupted_def empty_db_def sample_stored_def)
  have fields: "c_artifact_id (sample_checkpoint i aid) = aid" "c_base_model_id (sample_checkpoint i aid) = None"
    "c_base_model_version_number (sample_checkpoint i aid) = None" "c_checkpoint_format_version (sample_checkpoint i aid) = 1"
    "f_status (sample_stored aid h) = AUploaded" "f_content_hash (sample_stored aid h) = h"
    "tr_base_model_id (hd (t_training_runs sample_interrupted)) = None"
    "tr_base_model_version_number (hd (t_training_runs sample_interrupted)) = None" for i aid h
    by (simp_all add: sample_checkpoint_def sample_stored_def sample_interrupted_def)
  have cs: "resume_candidates 1 sample_interrupted = [sample_checkpoint 20 2, sample_checkpoint 10 1]"
    by (simp add: resume_candidates_def sample_interrupted_def empty_db_def sql_select_def sample_checkpoint_def)
  have "result (find_resume_checkpoint (\<lambda>b. b) (\<lambda>_. Inr ''x'') 1 1) sample_interrupted = Inr (Some (sample_checkpoint 10 1))"
    using run cs arts
    by (simp add: find_resume_checkpoint_def result_def begin_session_def bind_def query_def is_compatible_def artifacts_get_def
        object_exists_with_hash_def ret_def fields del: One_nat_def)
  with resume_checkpoint_exact [OF run this] show ?thesis
    by (force simp: sample_interrupted_def empty_db_def ahead_def sample_checkpoint_def)
qed

end
