(* ===== verification/TrainExecutor.thy ===== *)
theory TrainExecutor
  imports Discovery Trainer
begin

text \<open>
  The worker-side supervisor of a training attempt (app/training/executor.py): it looks for a
  checkpoint to resume from, records the decision, starts the trainer as a process with a context in
  which the client's configuration overrides the platform's entries, reads its lines, uploads the
  files they name, and does every database write itself, fenced.  The process is an argument: a
  function from its context and the bytes of the checkpoint to what the supervisor sees of it.  For
  each line that is the event, the files as they can be opened then, the object store, what other
  sessions had committed before it and what they commit while a file travels.
\<close>

record training_item = stream_item +
  ti_read :: "json \<Rightarrow> exn + bytes"
  ti_put :: "string \<Rightarrow> bytes \<Rightarrow> exn option"
  ti_get :: "string \<Rightarrow> exn + bytes"
  ti_others :: "db \<Rightarrow> db"
  ti_later :: time

record training_supervision =
  ts_lines :: "training_item list"
  ts_abandoned :: bool
  ts_others :: "db \<Rightarrow> db"

subsection \<open>Preparing\<close>

text \<open>\<^verbatim>\<open>_prepare_resume\<close>: the bytes of the checkpoint and its step.\<close>

definition prepare_resume ::
  "(bytes \<Rightarrow> string) \<Rightarrow> (string \<Rightarrow> exn + bytes) \<Rightarrow> uuid \<Rightarrow> (bytes \<times> int) option program" where
  "prepare_resume hash_bytes get_object rid =
     bind (find_resume_checkpoint hash_bytes get_object rid SUPPORTED_CHECKPOINT_FORMAT_VERSION) (\<lambda>checkpoint.
     case checkpoint of
       None \<Rightarrow> ret None
     | Some c \<Rightarrow>
         bind (artifacts_get (c_artifact_id c)) (\<lambda>artifact.
         case artifact of
           None \<Rightarrow> raise PyAttributeError
         | Some a \<Rightarrow> (case get_object (f_storage_key a) of
                         Inl e \<Rightarrow> raise e
                       | Inr data \<Rightarrow> ret (Some (data, c_step c)))))"

text \<open>The context: the platform's entries, then the client's, which win.\<close>

definition resume_from :: "string \<Rightarrow> (bytes \<times> int) option \<Rightarrow> json" where
  "resume_from work_dir resumed =
     (case resumed of
        None \<Rightarrow> JNull
      | Some (_, step) \<Rightarrow> JObj [(''local_path'', JStr (path_join work_dir ''resume_checkpoint.json'')), (''step'', JInt step)])"

definition training_context ::
  "job \<Rightarrow> training_run \<Rightarrow> int \<Rightarrow> string \<Rightarrow> (bytes \<times> int) option \<Rightarrow> exn + (string \<times> json) list" where
  "training_context j tr n work_dir resumed =
     sum_bind (configured_resource j ''gpu'') (\<lambda>gpu.
     sum_bind (configured_resource j ''memory_mb'') (\<lambda>memory.
     sum_bind (json_get (tr_training_config tr) ''training_entrypoint'' (JStr ''app.training.toy_trainer'')) (\<lambda>entry.
     (case tr_training_config tr of
        JObj kvs \<Rightarrow> Inr (filter (\<lambda>(k, v). k \<noteq> ''training_entrypoint'') kvs
            @ [(''training_run_id'', JStr (show_nat (tr_id tr))), (''attempt_number'', JInt n), (''work_dir'', JStr work_dir),
               (''required_gpu'', gpu), (''required_memory_mb'', memory), (''training_entrypoint'', entry),
               (''resume_from'', resume_from work_dir resumed)])
      | _ \<Rightarrow> Inl PyAttributeError))))"

subsection \<open>Events\<close>

definition record_training_metric_event ::
  "time \<Rightarrow> uuid \<Rightarrow> string \<Rightarrow> uuid \<Rightarrow> int \<Rightarrow> (string \<times> json) list \<Rightarrow> unit program" where
  "record_training_metric_event now jid worker_id rid n kvs =
     bind (lift_sum (key_get kvs ''step'')) (\<lambda>s.
     bind (lift_sum (sql_int s)) (\<lambda>step.
     bind (lift_sum (sql_float (obj_get ''loss'' kvs))) (\<lambda>loss.
     bind (lift_sum (sql_float (obj_get ''learning_rate'' kvs))) (\<lambda>learning_rate.
     bind (lift_sum (sql_int (obj_get ''gpu_memory_allocated_mb'' kvs))) (\<lambda>gpu_memory.
     bind (case step of
             Some i \<Rightarrow> training_metrics_record
                 \<lparr>tm_id = 0, tm_training_run_id = rid, tm_attempt_number = n, tm_step = i, tm_loss = loss,
                  tm_learning_rate = learning_rate, tm_gpu_memory_allocated_mb = gpu_memory, tm_recorded_at = now\<rparr>
                 jid worker_id n
           | None \<Rightarrow> insert_select (owns jid worker_id n) (\<lambda>_. False) (\<lambda>_. True) (\<lambda>d. d)) (\<lambda>_. ret ()))))))"

definition upload_event_file ::
  "settings \<Rightarrow> (bytes \<Rightarrow> string) \<Rightarrow> training_item \<Rightarrow> string \<Rightarrow> uuid \<Rightarrow> string \<Rightarrow> int \<Rightarrow> (string \<times> json) list \<Rightarrow> artifact program" where
  "upload_event_file cfg hash_bytes it artifact_type jid worker_id n kvs =
     bind (lift_sum (key_get kvs ''local_path'')) (\<lambda>path.
     bind (lift_sum (ti_read it path)) (\<lambda>data.
     upload_artifact cfg hash_bytes (ti_put it) (ti_get it) (ti_others it) (si_at it) (ti_later it) data artifact_type
       worker_id (Some jid) (Some n)))"

definition upload_and_register_checkpoint ::
  "settings \<Rightarrow> (bytes \<Rightarrow> string) \<Rightarrow> training_item \<Rightarrow> uuid \<Rightarrow> string \<Rightarrow> training_run \<Rightarrow> int \<Rightarrow> (string \<times> json) list \<Rightarrow> unit program" where
  "upload_and_register_checkpoint cfg hash_bytes it jid worker_id tr n kvs =
     bind (upload_event_file cfg hash_bytes it ''CHECKPOINT'' jid worker_id n kvs) (\<lambda>a.
     if f_status a \<noteq> AUploaded then ret ()
     else bind (lift_sum (key_get kvs ''step'')) (\<lambda>s.
          bind (lift_sum (sql_int s)) (\<lambda>step.
          bind (case step of
                  Some i \<Rightarrow> checkpoints_register
                      \<lparr>c_training_run_id = tr_id tr, c_attempt_number = n, c_step = i, c_artifact_id = f_id a,
                       c_base_model_id = tr_base_model_id tr, c_base_model_version_number = tr_base_model_version_number tr,
                       c_checkpoint_format_version = SUPPORTED_CHECKPOINT_FORMAT_VERSION, c_created_at = ti_later it\<rparr>
                      jid worker_id n
                | None \<Rightarrow> insert_select (owns jid worker_id n) (\<lambda>_. False) (\<lambda>_. True) (\<lambda>d. d)) (\<lambda>_. ret ()))))"

definition upload_and_register_final ::
  "settings \<Rightarrow> (bytes \<Rightarrow> string) \<Rightarrow> training_item \<Rightarrow> uuid \<Rightarrow> string \<Rightarrow> training_run \<Rightarrow> int \<Rightarrow> (string \<times> json) list \<Rightarrow> unit program" where
  "upload_and_register_final cfg hash_bytes it jid worker_id tr n kvs =
     bind (upload_event_file cfg hash_bytes it ''MODEL'' jid worker_id n kvs) (\<lambda>a.
     if f_status a \<noteq> AUploaded then ret ()
     else bind (outputs_register \<lparr>to_training_run_id = tr_id tr, to_final_artifact_id = f_id a,
                 to_attempt_number = n, to_created_at = ti_later it\<rparr> jid worker_id n) (\<lambda>_. ret ()))"

text \<open>As in the evaluation executor, the call that logs a training error raises KeyError when the level
  is enabled.\<close>

definition handle_training_event ::
  "settings \<Rightarrow> codec \<Rightarrow> (bytes \<Rightarrow> string) \<Rightarrow> training_item \<Rightarrow> uuid \<Rightarrow> string \<Rightarrow> training_run \<Rightarrow> int \<Rightarrow> (string \<times> json) list
   \<Rightarrow> string option program" where
  "handle_training_event cfg cd hash_bytes it jid worker_id tr n kvs =
     (let event_type = obj_get ''event'' kvs in
      if event_type = JStr ''gpu_check_failed'' then ret (Some ''gpu_failed'')
      else if event_type = JStr ''training_error''
        then (if logs_info cd then raise PyKeyError else ret (Some ''training_error''))
      else if event_type = JStr ''metric'' then
        bind (record_training_metric_event (si_at it) jid worker_id (tr_id tr) n kvs) (\<lambda>_. ret (Some ''metric_recorded''))
      else if event_type = JStr ''checkpoint'' then
        bind (upload_and_register_checkpoint cfg hash_bytes it jid worker_id tr n kvs) (\<lambda>_. ret (Some ''checkpoint_registered''))
      else if event_type = JStr ''final'' then
        bind (upload_and_register_final cfg hash_bytes it jid worker_id tr n kvs) (\<lambda>_. ret (Some ''final_registered''))
      else ret None)"

definition training_failure :: "codec \<Rightarrow> string option \<Rightarrow> (string \<times> json) list \<Rightarrow> failure option \<Rightarrow> failure option" where
  "training_failure cd handled kvs last_error =
     (if handled = Some ''gpu_failed''
      then Some (Some ''cuda_unavailable_or_insufficient'', ''transient'', ''INFRASTRUCTURE'')
      else if handled = Some ''training_error''
      then Some (event_message cd ''training error'' kvs, PERMANENT, ''TRAINING'')
      else last_error)"

fun training_lines ::
  "settings \<Rightarrow> codec \<Rightarrow> (bytes \<Rightarrow> string) \<Rightarrow> uuid \<Rightarrow> string \<Rightarrow> training_run \<Rightarrow> int \<Rightarrow> training_item list \<Rightarrow> bool
   \<Rightarrow> failure option \<Rightarrow> drained program" where
  "training_lines cfg cd hash_bytes jid worker_id tr n [] produced_final last_error = ret (Drained produced_final last_error)"
| "training_lines cfg cd hash_bytes jid worker_id tr n (it # its) produced_final last_error =
     bind (interfere (si_others it)) (\<lambda>_.
     if si_abandoned it then ret Abandoned
     else case si_event it of
        None \<Rightarrow> training_lines cfg cd hash_bytes jid worker_id tr n its produced_final last_error
      | Some (JObj kvs) \<Rightarrow>
          bind (handle_training_event cfg cd hash_bytes it jid worker_id tr n kvs) (\<lambda>handled.
          training_lines cfg cd hash_bytes jid worker_id tr n its (produced_final \<or> handled = Some ''final_registered'')
            (training_failure cd handled kvs last_error))
      | Some _ \<Rightarrow> raise PyAttributeError)"

subsection \<open>The attempt\<close>

definition conclude_training_attempt :: "bool \<Rightarrow> failure option \<Rightarrow> outcome" where
  "conclude_training_attempt produced_final last_error =
     (if produced_final then succeeded
      else case last_error of
        Some f \<Rightarrow> failure_outcome f
      | None \<Rightarrow> failed_outcome ''subprocess exited without producing a final artifact'' UNKNOWN (Some ''INFRASTRUCTURE''))"

definition supervise_training ::
  "settings \<Rightarrow> codec \<Rightarrow> (bytes \<Rightarrow> string) \<Rightarrow> training_supervision \<Rightarrow> uuid \<Rightarrow> string \<Rightarrow> training_run \<Rightarrow> int \<Rightarrow> outcome program" where
  "supervise_training cfg cd hash_bytes ts jid worker_id tr n =
     bind (training_lines cfg cd hash_bytes jid worker_id tr n (ts_lines ts) False None) (\<lambda>seen.
     case seen of
       Abandoned \<Rightarrow> ret fenced_out
     | Drained produced_final last_error \<Rightarrow>
         bind (interfere (ts_others ts)) (\<lambda>_.
         if ts_abandoned ts then ret fenced_out
         else ret (conclude_training_attempt produced_final last_error)))"

definition run_training_attempt ::
  "settings \<Rightarrow> codec \<Rightarrow> (bytes \<Rightarrow> string) \<Rightarrow> (string \<Rightarrow> exn + bytes) \<Rightarrow> string
   \<Rightarrow> ((string \<times> json) list \<Rightarrow> bytes option \<Rightarrow> training_supervision) \<Rightarrow> time \<Rightarrow> string \<Rightarrow> int \<Rightarrow> job \<Rightarrow> training_run
   \<Rightarrow> outcome program" where
  "run_training_attempt cfg cd hash_bytes get_object work_dir process now worker_id n j tr =
     bind (prepare_resume hash_bytes get_object (tr_id tr)) (\<lambda>resumed.
     bind (lift_sum (training_context j tr n work_dir resumed)) (\<lambda>cx.
     bind (resume_decisions_record
             \<lparr>rd_training_run_id = tr_id tr, rd_attempt_number = n, rd_resumed_from_step = map_option snd resumed,
              rd_decided_at = now\<rparr> (j_id j) worker_id n) (\<lambda>_.
     supervise_training cfg cd hash_bytes (process cx (map_option fst resumed)) (j_id j) worker_id tr n)))"

end
