(* ===== verification/TrainingSafety.thy ===== *)
theory TrainingSafety
  imports ArtifactSafety EvaluatorSafety TrainerSafety TrainExecutor
begin

text \<open>
  The training executor as a run of the system, what a successful attempt leaves behind, and the two
  places where it goes wrong.
\<close>

subsection \<open>What every state of an attempt satisfies\<close>

text \<open>The attempt exists in a state of a well-formed system; all later states are such.\<close>

definition underway :: "uuid \<Rightarrow> int \<Rightarrow> db \<Rightarrow> bool" where
  "underway jid n d \<longleftrightarrow> system_ok d \<and> job_ids_ok d \<and> (\<exists>j \<in> set (t_jobs d). j_id j = jid \<and> n \<le> j_attempt_number j)"

lemma underway_later:
  assumes "(system_step cfg)\<^sup>*\<^sup>* d d'" and "underway jid n d"
  shows "underway jid n d'"
proof -
  have "system_ok d'" using system_run_inv [OF assms(1)] assms(2) system_inv_ok by (auto simp: underway_def)
  moreover have ev: "evolves d d'" using evolves_system [OF assms(1)] assms(2) by (simp add: underway_def)
  moreover obtain j where j: "j \<in> set (t_jobs d)" "j_id j = jid" "n \<le> j_attempt_number j"
    using assms(2) by (auto simp: underway_def)
  moreover obtain j' where "j' \<in> set (t_jobs d')" "job_evolves j j'" using ev j(1) by (auto simp: evolves_def)
  ultimately show ?thesis by (force simp: underway_def evolves_def job_evolves_def)
qed

text \<open>The final model is registered, or the attempt has been taken from the worker.\<close>

definition has_output :: "uuid \<Rightarrow> db \<Rightarrow> bool" where
  "has_output rid d \<longleftrightarrow> rid \<in> to_training_run_id ` set (t_training_run_outputs d)"

definition secured :: "uuid \<Rightarrow> uuid \<Rightarrow> string \<Rightarrow> int \<Rightarrow> db \<Rightarrow> bool" where
  "secured rid jid w n d \<longleftrightarrow> has_output rid d \<or> superseded jid w n d"

lemma has_output_later: "(system_step cfg)\<^sup>*\<^sup>* d d' \<Longrightarrow> underway jid n d \<Longrightarrow> has_output rid d \<Longrightarrow> has_output rid d'"
  using system_run_records [of cfg d d']
  by (auto simp: underway_def system_ok_def records_inv_def has_output_def records_later_def)

lemma superseded_stays:
  assumes "(system_step cfg)\<^sup>*\<^sup>* d d'" and "underway jid n d" and "superseded jid w n d"
  shows "superseded jid w n d'"
proof -
  have ev: "evolves d d'" using evolves_system [OF assms(1)] assms(2) by (simp add: underway_def)
  obtain j where "j \<in> set (t_jobs d')" "j_id j = jid" "n \<le> j_attempt_number j"
    using underway_later [OF assms(1,2)] by (auto simp: underway_def)
  with superseded_later [OF ev assms(3)] show ?thesis by (auto simp: superseded_def)
qed

lemma superseded_not_owner: "underway jid n d \<Longrightarrow> superseded jid w n d \<Longrightarrow> \<not> owns jid w n d"
  using superseded_later [OF evolves_refl] by (auto simp: underway_def owns_def sql_exists_iff)

lemma secured_later:
  "(system_step cfg)\<^sup>*\<^sup>* d d' \<Longrightarrow> underway jid n d \<Longrightarrow> secured rid jid w n d \<Longrightarrow> secured rid jid w n d'"
  using has_output_later superseded_stays unfolding secured_def by blast

text \<open>A run of the system from such a state ends in one.\<close>

lemma final_committed: "appends m \<Longrightarrow> final_db m d \<in> set (commits m d)"
  using appendsD [of m d d] session_result [of m "begin_session d"]
  by (metis begin_session_def commits_def final_db_def hd_in_set session.select_convs(2) snd_conv)

lemma runs_underway:
  assumes "runs (system_step cfg) (\<lambda>d. underway jid n d \<and> P d) m Q"
  shows "runs (system_step cfg) (\<lambda>d. underway jid n d \<and> P d) m (\<lambda>a d. underway jid n d \<and> Q a d)"
proof -
  from assms final_committed show ?thesis unfolding runs_def using underway_later by blast
qed

subsection \<open>Uploads and the writes that name them\<close>

lemma appends_update_artifacts: "appends (update_artifacts p f)"
  by (rule appendsI) (simp_all add: Runs.extend_def update_artifacts_def)

lemma appends_upload [appends_intros]: "appends (upload_artifact cfg hb put go others now later data ty u job att)"
  unfolding upload_artifact_def artifacts_get_by_hash_def artifacts_create_pending_def claim_upload_lease_def
    artifact_update_def artifacts_get_def storage_upload_def finish_upload_def object_exists_with_hash_def mark_uploaded_def
  by (intro appends_intros appends_update_artifacts | simp split: exn.split add: appends_intros)+

lemma runs_upload:
  assumes "\<And>x. (system_step cfg)\<^sup>*\<^sup>* x (others x)"
  shows "runs (system_step cfg) (underway jid n) (upload_artifact cfg hb put go others now later data ty u job att)
     (\<lambda>a d. underway jid n d \<and> f_status a = AUploaded \<and> uploaded_id (f_id a) d)"
proof -
  let ?m = "upload_artifact cfg hb put go others now later data ty u job att"
  have steps: "(system_step cfg)\<^sup>*\<^sup>* d x" if "x \<in> set (commits ?m d)" for d x
    using that assms system_step.upload by blast
  have post: "f_status a = AUploaded \<and> uploaded_id (f_id a) (final_db ?m d)"
    if u: "underway jid n d" and r: "result ?m d = Inr a" for d a
  proof -
    have ok: "registry_inv d d" using u by (simp add: underway_def system_ok_def registry_inv_def)
    have env: "registry_inv d x \<Longrightarrow> registry_inv d (others x)" for x
      using system_run_keeps [OF assms [of x]] by (simp add: step_keeps_def)
    have "registry_inv d (final_db ?m d) \<and> a \<in> set (t_artifacts (final_db ?m d))
        \<and> (distinct (map f_id (t_artifacts (final_db ?m d))) \<longrightarrow> f_status a = AUploaded)"
      by (rule triple_settles [OF art.upload_row [OF env] settles_upload ok ok r])
    then show ?thesis by (auto simp: registry_inv_def registry_ok_def uploaded_id_def)
  qed
  have "runs (system_step cfg) (\<lambda>d. underway jid n d \<and> True) ?m (\<lambda>a d. f_status a = AUploaded \<and> uploaded_id (f_id a) d)"
    by (rule runs_operation [OF appends_upload settles_upload]) (use steps post in blast)+
  from runs_underway [OF this] show ?thesis by simp
qed

subsection \<open>The executor as a run\<close>

text \<open>What other sessions do around a line, and while its file travels.\<close>

definition quiet_items :: "settings \<Rightarrow> training_item list \<Rightarrow> bool" where
  "quiet_items cfg its \<longleftrightarrow> (\<forall>it \<in> set its. (\<forall>x. (system_step cfg)\<^sup>*\<^sup>* x (si_others it x)) \<and> (\<forall>x. (system_step cfg)\<^sup>*\<^sup>* x (ti_others it x)))"

definition quiet_training :: "settings \<Rightarrow> training_supervision \<Rightarrow> bool" where
  "quiet_training cfg ts \<longleftrightarrow> quiet_items cfg (ts_lines ts) \<and> (\<forall>x. (system_step cfg)\<^sup>*\<^sup>* x (ts_others ts x))"

abbreviation goes_on :: "settings \<Rightarrow> uuid \<Rightarrow> int \<Rightarrow> 'a program \<Rightarrow> bool" where
  "goes_on cfg jid n m \<equiv> runs (system_step cfg) (underway jid n) m (\<lambda>_. underway jid n)"

lemma runs_goes_on: "runs (system_step cfg) anywhere m any_result \<Longrightarrow> goes_on cfg jid n m"
  using runs_underway [of cfg jid n "\<lambda>_. True" m any_result]
  by (simp add: runs_weaken)

lemma goes_on_bind: "goes_on cfg jid n m \<Longrightarrow> (\<And>a. goes_on cfg jid n (f a)) \<Longrightarrow> goes_on cfg jid n (bind m f)"
  by (rule runs_bind)

lemma goes_on_ret: "goes_on cfg jid n (ret a)"
  by (rule runs_ret)

lemma runs_training_writes:
  "runs (system_step cfg) anywhere (training_metrics_record m jid w n) any_result"
  "runs (system_step cfg) anywhere (resume_decisions_record r jid w n) any_result"
  using runs_fenced_any [of "WTrainingMetric m"] runs_fenced_any [of "WResumeDecision r"] by simp_all

lemma runs_registers:
  "runs (system_step cfg) (\<lambda>d. underway jid n d \<and> uploaded_id (c_artifact_id c) d) (checkpoints_register c jid w n)
     (\<lambda>_. underway jid n)"
  "runs (system_step cfg) (\<lambda>d. underway jid n d \<and> uploaded_id (to_final_artifact_id x) d) (outputs_register x jid w n)
     (\<lambda>_. underway jid n)"
proof -
  have "runs (system_step cfg) (\<lambda>d. underway jid n d \<and> uploaded_id (c_artifact_id c) d) (perform (WCheckpoint c) jid w n) any_result"
    "runs (system_step cfg) (\<lambda>d. underway jid n d \<and> uploaded_id (to_final_artifact_id x) d) (perform (WOutput x) jid w n) any_result"
    by (rule runs_fenced; simp)+
  from runs_underway [OF this(1)] runs_underway [OF this(2)] show
    "runs (system_step cfg) (\<lambda>d. underway jid n d \<and> uploaded_id (c_artifact_id c) d) (checkpoints_register c jid w n)
     (\<lambda>_. underway jid n)"
    "runs (system_step cfg) (\<lambda>d. underway jid n d \<and> uploaded_id (to_final_artifact_id x) d) (outputs_register x jid w n)
     (\<lambda>_. underway jid n)"
    by (simp_all add: runs_weaken)
qed

lemma runs_lift_underway: "goes_on cfg jid n (lift_sum r)"
  by (rule runs_goes_on [OF runs_lift_sum])

lemma runs_upload_file:
  assumes "\<And>x. (system_step cfg)\<^sup>*\<^sup>* x (ti_others it x)"
  shows "runs (system_step cfg) (underway jid n) (upload_event_file cfg hb it ty jid w m kvs)
     (\<lambda>a d. underway jid n d \<and> f_status a = AUploaded \<and> uploaded_id (f_id a) d)"
  unfolding upload_event_file_def by (intro runs_bind [OF runs_lift_underway] runs_upload assms)

lemma appends_registers [appends_intros]:
  "appends (checkpoints_register c jid w n)" "appends (outputs_register x jid w n)"
  using perform_run(1) [of "WCheckpoint c"] perform_run(1) [of "WOutput x"] by simp_all

abbreviation uploaded_here :: "uuid \<Rightarrow> int \<Rightarrow> artifact \<Rightarrow> db \<Rightarrow> bool" where
  "uploaded_here jid n a d \<equiv> underway jid n d \<and> f_status a = AUploaded \<and> uploaded_id (f_id a) d"

lemma runs_from_upload: "goes_on cfg jid n m \<Longrightarrow> runs (system_step cfg) (uploaded_here jid n a) m (\<lambda>_. underway jid n)"
  by (erule runs_weaken) simp_all

lemma runs_register_uploaded:
  "c_artifact_id c = f_id a \<Longrightarrow>
   runs (system_step cfg) (uploaded_here jid n a) (checkpoints_register c jid w n) (\<lambda>_. underway jid n)"
  "to_final_artifact_id x = f_id a \<Longrightarrow>
   runs (system_step cfg) (uploaded_here jid n a) (outputs_register x jid w n) (\<lambda>_. underway jid n)"
  by (rule runs_weaken [OF runs_registers(1)]; simp) (rule runs_weaken [OF runs_registers(2)]; simp)

lemma runs_lift_uploaded: "runs (system_step cfg) P (lift_sum r) (\<lambda>_. P)"
  unfolding lift_sum_def by (cases r) (simp_all add: runs_ret runs_raise)

lemma runs_checkpoint_event:
  assumes "\<And>x. (system_step cfg)\<^sup>*\<^sup>* x (ti_others it x)"
  shows "goes_on cfg jid n (upload_and_register_checkpoint cfg hb it jid w tr n kvs)"
  unfolding upload_and_register_checkpoint_def
  by (rule runs_bind [OF runs_upload_file [OF assms]], rule runs_if, rule runs_ret, simp,
      intro runs_bind [OF runs_lift_uploaded] runs_bind [where M = "\<lambda>_. underway jid n"] runs_option runs_ret
        runs_register_uploaded runs_from_upload runs_goes_on [OF runs_never_inserts])
     simp_all

lemma runs_final_event:
  assumes "\<And>x. (system_step cfg)\<^sup>*\<^sup>* x (ti_others it x)"
  shows "goes_on cfg jid n (upload_and_register_final cfg hb it jid w tr n kvs)"
  unfolding upload_and_register_final_def
  by (rule runs_bind [OF runs_upload_file [OF assms]], rule runs_if, rule runs_ret, simp,
      rule runs_bind [OF runs_register_uploaded(2)], simp, rule runs_ret)

lemma runs_metric_event: "goes_on cfg jid n (record_training_metric_event now jid w rid n kvs)"
  unfolding record_training_metric_event_def
  by (intro runs_bind [OF runs_lift_uploaded] runs_bind [where M = "\<lambda>_. underway jid n"] runs_option runs_ret
        runs_goes_on [OF runs_training_writes(1)] runs_goes_on [OF runs_never_inserts])

lemma appends_training_lines [appends_intros]: "appends (training_lines cfg cd hb jid w tr n its pf le)"
  unfolding record_training_metric_event_def
  by (induction its arbitrary: pf le)
     (auto intro!: appends_intros insert_select_run perform_run(1) [of "WTrainingMetric _", simplified]
       simp: handle_training_event_def record_training_metric_event_def upload_and_register_checkpoint_def
         upload_and_register_final_def upload_event_file_def Let_def split: option.split json.split)

lemma runs_reads: "goes_on cfg jid n (query f)" "goes_on cfg jid n (query_checked g)"
  by (rule runs_query, simp) (rule runs_query_checked, simp)

lemma runs_prepare_resume: "goes_on cfg jid n (prepare_resume hb go rid)"
proof -
  have hash: "goes_on cfg jid n (object_exists_with_hash hb go k h)" for k h
    unfolding object_exists_with_hash_def by (auto intro!: runs_ret runs_raise split: sum.split exn.split)
  have compatible: "goes_on cfg jid n (is_compatible hb go fmt tr c)" for fmt tr c
    unfolding is_compatible_def artifacts_get_def
    by (intro goes_on_bind runs_reads runs_option runs_if goes_on_ret hash)
  have first: "goes_on cfg jid n (first_compatible hb go fmt tr cs)" for fmt tr cs
    by (induction cs) (simp_all add: goes_on_ret goes_on_bind compatible)
  show ?thesis
    unfolding prepare_resume_def find_resume_checkpoint_def artifacts_get_def
    by (intro goes_on_bind runs_reads runs_option runs_sum goes_on_ret runs_raise first)
qed

subsection \<open>What a registered output is worth\<close>

definition produced :: "drained \<Rightarrow> bool" where
  "produced seen = (case seen of Abandoned \<Rightarrow> False | Drained produced_final last_error \<Rightarrow> produced_final)"

text \<open>The contract: \<open>U\<close> holds throughout the attempt, whatever the other sessions do; \<open>S\<close>, once it holds,
  stays; and an output row that is written or refused without an error brings \<open>S\<close>.  Then an attempt
  that answers SUCCEEDED has brought \<open>S\<close>.\<close>

locale training_report =
  fixes cfg :: settings and jid :: uuid and w :: string and n :: int and rid :: uuid
    and U :: "db \<Rightarrow> bool" and S :: "db \<Rightarrow> bool"
  assumes begun: "U d \<Longrightarrow> underway jid n d"
    and later: "(system_step cfg)\<^sup>*\<^sup>* d d' \<Longrightarrow> U d \<Longrightarrow> U d'"
    and lasts: "(system_step cfg)\<^sup>*\<^sup>* d d' \<Longrightarrow> U d \<Longrightarrow> S d \<Longrightarrow> S d'"
    and registers: "U d \<Longrightarrow> to_training_run_id x = rid \<Longrightarrow> result (outputs_register x jid w n) d = Inr b \<Longrightarrow>
      S (final_db (outputs_register x jid w n) d)"
begin

lemma throughout:
  assumes "runs (system_step cfg) (\<lambda>d. underway jid n d \<and> P d) m Q"
  shows "runs (system_step cfg) (\<lambda>d. U d \<and> P d) m (\<lambda>a d. U d \<and> Q a d)"
    and "runs (system_step cfg) (\<lambda>d. (U d \<and> S d) \<and> P d) m (\<lambda>a d. (U d \<and> S d) \<and> Q a d)"
  using assms final_committed begun unfolding runs_def by (blast intro: later lasts)+

lemma kept: "goes_on cfg jid n m \<Longrightarrow> runs (system_step cfg) U m (\<lambda>_. U)"
  using throughout(1) [of "\<lambda>_. True" m "\<lambda>_. underway jid n"] by (simp add: runs_weaken)

lemma secures: "goes_on cfg jid n m \<Longrightarrow> runs (system_step cfg) (\<lambda>d. U d \<and> S d) m (\<lambda>_ d. U d \<and> S d)"
  using throughout(2) [of "\<lambda>_. True" m "\<lambda>_. underway jid n"] by (simp add: runs_weaken)

lemma runs_output:
  assumes "to_training_run_id x = rid"
  shows "runs (system_step cfg) (\<lambda>d. U d \<and> uploaded_id (to_final_artifact_id x) d) (outputs_register x jid w n)
     (\<lambda>_ d. U d \<and> S d)"
proof -
  have run: "runs (system_step cfg) (\<lambda>d. U d \<and> uploaded_id (to_final_artifact_id x) d) (perform (WOutput x) jid w n)
      (\<lambda>_. S)"
    by (rule runs_fenced) (simp_all add: registers [OF _ assms])
  then show ?thesis using final_committed unfolding runs_def perform.simps by (blast intro: later)
qed

lemma runs_final:
  assumes "\<And>x. (system_step cfg)\<^sup>*\<^sup>* x (ti_others it x)" and "tr_id tr = rid"
  shows "runs (system_step cfg) U (upload_and_register_final cfg hb it jid w tr n kvs) (\<lambda>_ d. U d \<and> S d)"
proof -
  have register: "runs (system_step cfg) (\<lambda>d. U d \<and> f_status a = AUploaded \<and> uploaded_id (f_id a) d)
      (if f_status a \<noteq> AUploaded then ret ()
       else bind (outputs_register \<lparr>to_training_run_id = tr_id tr, to_final_artifact_id = f_id a,
                 to_attempt_number = n, to_created_at = ti_later it\<rparr> jid w n) (\<lambda>_. ret ()))
      (\<lambda>_ d. U d \<and> S d)" for a
    by (rule runs_if, rule runs_ret, simp, rule runs_bind [OF runs_weaken [OF runs_output, where Q' = "\<lambda>_ d. U d \<and> S d"]],
        simp_all only: training_run_output.select_convs assms(2)) (auto intro: runs_ret)
  have "runs (system_step cfg) (\<lambda>d. U d \<and> True) (upload_event_file cfg hb it ty jid w n kvs)
      (\<lambda>a d. U d \<and> (underway jid n d \<and> f_status a = AUploaded \<and> uploaded_id (f_id a) d))" for ty
    by (rule throughout(1), rule runs_weaken [OF runs_upload_file [OF assms(1)]]) simp_all
  then have "runs (system_step cfg) U (upload_event_file cfg hb it ty jid w n kvs)
      (\<lambda>a d. U d \<and> f_status a = AUploaded \<and> uploaded_id (f_id a) d)" for ty
    by (rule runs_weaken) simp_all
  from runs_bind [OF this register] show ?thesis unfolding upload_and_register_final_def .
qed

lemma runs_event:
  assumes "\<And>x. (system_step cfg)\<^sup>*\<^sup>* x (ti_others it x)" and "tr_id tr = rid"
  shows "runs (system_step cfg) (\<lambda>d. U d \<and> (pf \<longrightarrow> S d)) (handle_training_event cfg cd hb it jid w tr n kvs)
     (\<lambda>h d. U d \<and> (pf \<or> h = Some ''final_registered'' \<longrightarrow> S d))"
proof (cases pf)
  case True
  have "goes_on cfg jid n (handle_training_event cfg cd hb it jid w tr n kvs)"
    unfolding handle_training_event_def Let_def
    by (intro runs_if runs_ret runs_raise goes_on_bind runs_metric_event runs_checkpoint_event [OF assms(1)]
        runs_final_event [OF assms(1)])
  from secures [OF this] show ?thesis by (rule runs_weaken) (simp_all add: True)
next
  case False
  have "runs (system_step cfg) U (handle_training_event cfg cd hb it jid w tr n kvs)
     (\<lambda>h d. U d \<and> (h = Some ''final_registered'' \<longrightarrow> S d))"
    unfolding handle_training_event_def Let_def
    by (intro runs_if runs_ret runs_raise runs_bind [OF kept [OF runs_metric_event]]
        runs_bind [OF kept [OF runs_checkpoint_event [OF assms(1)]]] runs_bind [OF runs_final [OF assms]]) simp_all
  then show ?thesis by (rule runs_weaken) (simp_all add: False)
qed

lemma runs_lines:
  assumes "quiet_items cfg its" and "tr_id tr = rid"
  shows "runs (system_step cfg) (\<lambda>d. U d \<and> (pf \<longrightarrow> S d)) (training_lines cfg cd hb jid w tr n its pf le)
     (\<lambda>seen d. U d \<and> (produced seen \<longrightarrow> S d))"
  using assms(1)
proof (induction its arbitrary: pf le)
  case Nil
  then show ?case by (auto simp: produced_def intro: runs_ret)
next
  case (Cons it its)
  then have env: "\<And>x. (system_step cfg)\<^sup>*\<^sup>* x (si_others it x)" and up: "\<And>x. (system_step cfg)\<^sup>*\<^sup>* x (ti_others it x)"
    and rest: "quiet_items cfg its"
    by (simp_all add: quiet_items_def)
  note IH = Cons.IH [OF rest]
  let ?Q = "\<lambda>seen d. U d \<and> (produced seen \<longrightarrow> S d)"
  have event: "runs (system_step cfg) (\<lambda>d. U d \<and> (pf \<longrightarrow> S d))
      (bind (handle_training_event cfg cd hb it jid w tr n kvs) (\<lambda>handled.
          training_lines cfg cd hb jid w tr n its (pf \<or> handled = Some ''final_registered'')
            (training_failure cd handled kvs le))) ?Q" for kvs
    by (rule runs_bind [OF runs_event [OF up assms(2)] IH])
  have "runs (system_step cfg) (\<lambda>d. U d \<and> (pf \<longrightarrow> S d))
     (if si_abandoned it then ret Abandoned
      else case si_event it of
        None \<Rightarrow> training_lines cfg cd hb jid w tr n its pf le
      | Some (JObj kvs) \<Rightarrow>
          bind (handle_training_event cfg cd hb it jid w tr n kvs) (\<lambda>handled.
          training_lines cfg cd hb jid w tr n its (pf \<or> handled = Some ''final_registered'')
            (training_failure cd handled kvs le))
      | Some _ \<Rightarrow> raise PyAttributeError) ?Q"
    using IH event by (auto intro!: runs_if runs_ret runs_raise simp: produced_def [of Abandoned] split: option.split json.split)
  moreover have "runs (system_step cfg) (\<lambda>d. U d \<and> (pf \<longrightarrow> S d)) (interfere (si_others it)) (\<lambda>_ d. U d \<and> (pf \<longrightarrow> S d))"
    by (rule runs_interfere [OF env]) (use later [OF env] lasts [OF env] in blast)
  ultimately show ?case unfolding training_lines.simps by (intro runs_bind)
qed

lemma runs_supervised:
  assumes "quiet_training cfg ts" and "tr_id tr = rid"
  shows "runs (system_step cfg) U (supervise_training cfg cd hb ts jid w tr n) (\<lambda>out d. U d \<and> claims True S out d)"
proof -
  have lines: "quiet_items cfg (ts_lines ts)" and env: "\<And>x. (system_step cfg)\<^sup>*\<^sup>* x (ts_others ts x)"
    using assms by (auto simp: quiet_training_def)
  let ?Q = "\<lambda>out d. U d \<and> claims True S out d"
  have last: "runs (system_step cfg) (\<lambda>d. U d \<and> (pf \<longrightarrow> S d))
      (bind (interfere (ts_others ts)) (\<lambda>_. if ts_abandoned ts then ret fenced_out
         else ret (conclude_training_attempt pf le))) ?Q" for pf le
    by (rule runs_bind [OF runs_interfere [OF env, where Q = "\<lambda>_ d. U d \<and> (pf \<longrightarrow> S d)"]])
       (use later [OF env] lasts [OF env] in
         \<open>auto intro!: runs_ret simp: conclude_training_attempt_def claims_def [of _ _ succeeded] split: option.split\<close>)
  have "runs (system_step cfg) U (training_lines cfg cd hb jid w tr n (ts_lines ts) False None)
      (\<lambda>seen d. U d \<and> (produced seen \<longrightarrow> S d))"
    by (rule runs_weaken [OF runs_lines [OF lines assms(2), where pf = False]]) simp_all
  then show ?thesis
    unfolding supervise_training_def
    by (rule runs_bind, rename_tac seen, case_tac seen; simp only: drained.case produced_def)
       (rule runs_ret, simp, rule last)
qed

lemma runs_attempt:
  assumes "\<And>cx data. quiet_training cfg (process cx data)" and "tr_id tr = rid" and "j_id j = jid"
  shows "runs (system_step cfg) U (run_training_attempt cfg cd hb go wd process now w n j tr)
     (\<lambda>out d. U d \<and> claims True S out d)"
  unfolding run_training_attempt_def assms(3)
  by (intro runs_bind [OF kept [OF runs_prepare_resume]] runs_bind [OF kept [OF runs_lift_underway]]
        runs_bind [OF kept [OF runs_goes_on [OF runs_training_writes(2)]]] runs_supervised assms)

end

text \<open>In a state of a well-formed system the output is registered, or the worker has lost the attempt.\<close>

lemma registers_secures:
  assumes "underway jid n d" and "result (outputs_register x jid w n) d = Inr b"
  shows "secured (to_training_run_id x) jid w n (final_db (outputs_register x jid w n) d)"
    and "has_output (to_training_run_id x) d \<Longrightarrow> superseded jid w n (final_db (outputs_register x jid w n) d)"
proof -
  have lost: "superseded jid w n (final_db (outputs_register x jid w n) d)" if "\<not> owns jid w n d"
    using that assms(1) by (auto simp: outputs_register_def insert_select_effect superseded_def underway_def owns_def sql_exists_iff)
  have ok: "\<not> output_violates x d" if "owns jid w n d"
    using that assms(2) by (auto simp: outputs_register_def insert_select_effect split: if_splits)
  show "secured (to_training_run_id x) jid w n (final_db (outputs_register x jid w n) d)"
    using lost ok by (cases "owns jid w n d") (simp_all add: secured_def has_output_def outputs_register_def insert_select_effect)
  show "superseded jid w n (final_db (outputs_register x jid w n) d)" if "has_output (to_training_run_id x) d"
    by (cases "owns jid w n d") (use lost ok that in \<open>auto simp: output_violates_def has_output_def sql_exists_iff\<close>)
qed

interpretation earns: training_report cfg jid w n rid "underway jid n" "secured rid jid w n" for cfg jid w n rid
  by unfold_locales (auto intro: underway_later secured_later registers_secures)

interpretation repeats: training_report cfg jid w n rid "\<lambda>d. underway jid n d \<and> has_output rid d" "superseded jid w n" for cfg jid w n rid
  by unfold_locales (auto intro: underway_later has_output_later superseded_stays registers_secures(2))

lemmas runs_training_attempt = earns.runs_attempt [OF _ refl refl]

text \<open>C7: What a successful training attempt leaves, under any interference.  Whatever the trainer prints and
  whatever the other sessions do: if an attempt answers SUCCEEDED and still holds its lease at the end,
  the run has an output, and the artifact of that output is UPLOADED.\<close>

theorem training_success_has_output:
  assumes "\<And>cx data. quiet_training cfg (process cx data)" and "underway (j_id j) n d"
    and "m = run_training_attempt cfg cd hb go wd process now w n j tr"
    and "result m d = Inr out" and "out_status out = SUCCEEDED" and "owns (j_id j) w n (final_db m d)"
  shows "\<exists>x \<in> set (t_training_run_outputs (final_db m d)). to_training_run_id x = tr_id tr
     \<and> (\<exists>a \<in> set (t_artifacts (final_db m d)). f_id a = to_final_artifact_id x \<and> f_status a = AUploaded)"
proof -
  have run: "runs (system_step cfg) (underway (j_id j) n) m (\<lambda>out d. underway (j_id j) n d \<and> claims True (secured (tr_id tr) (j_id j) w n) out d)"
    unfolding assms(3) by (rule runs_training_attempt [OF assms(1)])
  from runs_result [OF run assms(2,4)] assms(5)
  have u: "underway (j_id j) n (final_db m d)" and s: "secured (tr_id tr) (j_id j) w n (final_db m d)"
    by (auto simp: claims_def)
  have "has_output (tr_id tr) (final_db m d)"
    using s superseded_not_owner [OF u] assms(6) by (auto simp: secured_def)
  then obtain x where x: "x \<in> set (t_training_run_outputs (final_db m d))" "to_training_run_id x = tr_id tr"
    by (auto simp: has_output_def)
  have "record_refs (final_db m d)" using u by (simp add: underway_def system_ok_def records_ok_def)
  with x have "uploaded_id (to_final_artifact_id x) (final_db m d)" by (simp add: record_refs_def)
  with x show ?thesis by (auto simp: uploaded_id_def)
qed

text \<open>C27: A run that has an output cannot succeed again.  If an attempt registers the output and its worker then
  dies before the final transaction of the job, the job is taken from it and retried; but whatever a
  later attempt does, it never answers SUCCEEDED while it holds its lease: the insert of a second output
  violates the primary key and raises.  The job of a run whose model is registered ends as FAILED.\<close>

theorem output_blocks_retry:
  assumes "\<And>cx data. quiet_training cfg (process cx data)" and "underway (j_id j) n d" and "has_output (tr_id tr) d"
    and "m = run_training_attempt cfg cd hb go wd process now w n j tr"
    and "result m d = Inr out" and "owns (j_id j) w n (final_db m d)"
  shows "out_status out \<noteq> SUCCEEDED"
proof
  assume s: "out_status out = SUCCEEDED"
  have run: "runs (system_step cfg) (\<lambda>d. underway (j_id j) n d \<and> has_output (tr_id tr) d) m
      (\<lambda>out d. (underway (j_id j) n d \<and> has_output (tr_id tr) d) \<and> claims True (superseded (j_id j) w n) out d)"
    unfolding assms(4) by (rule repeats.runs_attempt [OF assms(1) refl refl])
  from runs_result [OF run _ assms(5)] assms(2,3) s
  have "underway (j_id j) n (final_db m d)" and "superseded (j_id j) w n (final_db m d)"
    by (auto simp: claims_def)
  with superseded_not_owner assms(6) show False by blast
qed

definition sample_training_db :: db where
  "sample_training_db = sample_registry\<lparr>t_jobs := [sample_running]\<rparr>"

definition sample_final :: training_item where
  "sample_final = \<lparr>si_event = Some (JObj [(''event'', JStr ''final''), (''local_path'', JStr ''/w/f'')]),
     si_abandoned = False, si_others = id, si_at = 20, ti_read = \<lambda>_. Inr ''M'', ti_put = \<lambda>_ _. None,
     ti_get = \<lambda>_. Inr ''M'', ti_others = id, ti_later = 21\<rparr>"

definition sample_finisher :: "(string \<times> json) list \<Rightarrow> bytes option \<Rightarrow> training_supervision" where
  "sample_finisher cx data = \<lparr>ts_lines = [sample_final], ts_abandoned = False, ts_others = id\<rparr>"

definition sample_training_attempt :: "outcome program" where
  "sample_training_attempt = run_training_attempt default_settings sample_codec sample_hash (\<lambda>_. Inr ''M'') ''/w'' sample_finisher
     20 ''w1'' 1 sample_running sample_run"

lemmas sample_training_db_defs = sample_training_db_def sample_registry_defs sample_running_def sample_job_def new_job_def
  sample_payload_def

lemma sample_underway: "underway (j_id sample_running) 1 sample_training_db"
proof -
  have "registry_ok sample_training_db"
    by (simp add: registry_ok_def sample_training_db_defs contiguous_def numbers_def dataset_version_ok_def
        training_run_ok_def has_dataset_version_def uploaded_id_def)
  moreover have "records_ok sample_training_db" by (simp add: records_defs sample_training_db_defs)
  moreover have "job_ids_ok sample_training_db"
    by (simp add: job_ids_ok_def sample_training_db_defs waiting_unowned_def)
  ultimately show ?thesis
    by (simp add: underway_def system_ok_def) (simp add: sample_training_db_defs)
qed

lemma sample_finisher_quiet: "quiet_training cfg (sample_finisher cx data)"
  by (simp add: quiet_training_def quiet_items_def sample_finisher_def sample_final_def)

lemma sample_resume:
  assumes "find_training_run 1 d = Some sample_run" and "t_checkpoints d = []"
  shows "prepare_resume hb go 1 (begin_session d) = (Inr None, begin_session d)"
proof -
  have "resume_candidates 1 d = []" by (simp add: resume_candidates_def sql_select_def assms(2))
  with assms(1) show ?thesis
    by (simp add: prepare_resume_def find_resume_checkpoint_def bind_def query_def ret_def begin_session_def)
qed

lemma sample_training_context: "\<exists>cx. training_context sample_running sample_run 1 ''/w'' None = Inr cx"
  by (simp add: training_context_def configured_resource_def sum_bind_def sample_training_db_defs)

text \<open>An insert and a deduplicated upload, on a session.\<close>

lemma insert_select_session:
  "\<not> conflict d \<Longrightarrow> \<not> violates d \<Longrightarrow> fence d \<Longrightarrow>
   insert_select fence conflict violates ins \<lparr>work = d, durable = ds\<rparr> = (Inr True, \<lparr>work = ins d, durable = ins d # ds\<rparr>)"
  by (simp add: insert_select_def prog_defs)

lemma upload_known:
  assumes "find_by_hash (hb data) (work s) = Some a" and "f_status a = AUploaded"
  shows "upload_artifact cfg hb put go others now later data ty u job att s = (Inr a, s)"
  using assms by (simp add: upload_artifact_def artifacts_get_by_hash_def bind_def query_def ret_def)

lemma sample_event:
  assumes "owns 1 ''w1'' 1 d" and "find_by_hash ''y'' d = Some (sample_file 2 ''y'')" and "\<not> output_violates x d"
    and "x = \<lparr>to_training_run_id = tr_id tr, to_final_artifact_id = 2, to_attempt_number = 1, to_created_at = 21\<rparr>"
  shows "handle_training_event cfg cd sample_hash sample_final 1 ''w1'' tr 1 [(''event'', JStr ''final''), (''local_path'', JStr ''/w/f'')]
     \<lparr>work = d, durable = ds\<rparr> = (Inr (Some ''final_registered''),
        \<lparr>work = d\<lparr>t_training_run_outputs := t_training_run_outputs d @ [x]\<rparr>,
         durable = d\<lparr>t_training_run_outputs := t_training_run_outputs d @ [x]\<rparr> # ds\<rparr>)"
proof -
  have "upload_event_file cfg sample_hash sample_final ''MODEL'' 1 ''w1'' 1
      [(''event'', JStr ''final''), (''local_path'', JStr ''/w/f'')] \<lparr>work = d, durable = ds\<rparr>
    = (Inr (sample_file 2 ''y''), \<lparr>work = d, durable = ds\<rparr>)"
    using upload_known [of sample_hash "''M''" "\<lparr>work = d, durable = ds\<rparr>"] assms(2)
    by (simp add: upload_event_file_def key_get_def lift_sum_def bind_laws sample_final_def sample_hash_def sample_file_def)
  moreover have "f_status (sample_file 2 ''y'') = AUploaded" "f_id (sample_file 2 ''y'') = 2" "ti_later sample_final = 21"
    by (simp_all add: sample_file_def sample_final_def)
  ultimately show ?thesis
    using assms(1,3)
    by (simp add: handle_training_event_def obj_get_def upload_and_register_final_def bind_def outputs_register_def
        insert_select_session ret_def assms(4) del: One_nat_def)
qed

lemma sample_training_succeeds:
  "result sample_training_attempt sample_training_db = Inr succeeded
   \<and> owns (j_id sample_running) ''w1'' 1 (final_db sample_training_attempt sample_training_db)"
proof -
  obtain cx where cx: "training_context sample_running sample_run 1 ''/w'' None = Inr cx"
    using sample_training_context by blast
  have ids: "tr_id sample_run = 1" "j_id sample_running = 1"
    by (simp_all add: sample_training_db_defs)
  let ?r = "\<lparr>rd_training_run_id = 1, rd_attempt_number = 1, rd_resumed_from_step = None, rd_decided_at = 20\<rparr>"
  let ?d = "sample_training_db\<lparr>t_attempt_resume_decisions := [?r]\<rparr>"
  let ?x = "\<lparr>to_training_run_id = tr_id sample_run, to_final_artifact_id = 2, to_attempt_number = 1, to_created_at = 21\<rparr>"
  let ?e = "?d\<lparr>t_training_run_outputs := t_training_run_outputs ?d @ [?x]\<rparr>"
  have own: "owns 1 ''w1'' 1 sample_training_db" "owns 1 ''w1'' 1 ?d"
    "owns 1 ''w1'' 1 ?e"
    "find_training_run 1 sample_training_db = Some sample_run" "t_checkpoints sample_training_db = []"
    by (simp_all add: find_training_run_def owns_def sql_exists_iff holds_lease_def sample_training_db_defs)
  have db: "\<not> decision_violates ?r sample_training_db" "t_attempt_resume_decisions sample_training_db = []"
    "find_by_hash ''y'' ?d = Some (sample_file 2 ''y'')" "\<not> output_violates ?x ?d"
    by (simp_all add: decision_violates_def has_training_run_def find_training_run_def find_by_hash_def output_violates_def
        find_artifact_def sql_exists_iff sample_training_db_defs)
  have start: "resume_decisions_record ?r 1 ''w1'' 1 (begin_session sample_training_db)
      = (Inr True, \<lparr>work = ?d, durable = [?d, sample_training_db]\<rparr>)"
    using own(1) db(1,2) by (simp add: resume_decisions_record_def begin_session_def insert_select_session)
  note event = sample_event [where ds = ds for ds, OF own(2) db(3,4) refl, of default_settings sample_codec]
  have items: "ts_lines (sample_finisher cx None) = [sample_final]" "ts_others (sample_finisher cx None) = id"
    "\<not> ts_abandoned (sample_finisher cx None)" "si_others sample_final = id" "\<not> si_abandoned sample_final"
    "si_event sample_final = Some (JObj [(''event'', JStr ''final''), (''local_path'', JStr ''/w/f'')])"
    by (simp_all add: sample_finisher_def sample_final_def)
  have sup: "supervise_training default_settings sample_codec sample_hash (sample_finisher cx None) 1 ''w1'' sample_run 1
      \<lparr>work = ?d, durable = [?d, sample_training_db]\<rparr>
    = (Inr succeeded, \<lparr>work = ?e, durable = [?e, ?e, ?d, ?d, sample_training_db]\<rparr>)"
    by (simp add: supervise_training_def items bind_def interfere_def event ret_def conclude_training_attempt_def
        del: One_nat_def)
  have "sample_training_attempt (begin_session sample_training_db)
    = (Inr succeeded, \<lparr>work = ?e, durable = [?e, ?e, ?d, ?d, sample_training_db]\<rparr>)"
    by (simp add: sample_training_attempt_def run_training_attempt_def ids bind_def sample_resume [OF own(4,5)] cx lift_sum_def
        ret_def start sup del: One_nat_def)
  with own(3) ids show ?thesis by (simp add: result_def final_db_def del: One_nat_def)
qed

theorem training_success_has_output_witness:
  "\<exists>x \<in> set (t_training_run_outputs (final_db sample_training_attempt sample_training_db)). to_training_run_id x = tr_id sample_run"
proof -
  have "result sample_training_attempt sample_training_db = Inr succeeded" "out_status succeeded = SUCCEEDED"
    "owns (j_id sample_running) ''w1'' 1 (final_db sample_training_attempt sample_training_db)"
    using sample_training_succeeds by (simp_all add: succeeded_def)
  from training_success_has_output [OF sample_finisher_quiet sample_underway sample_training_attempt_def this]
  show ?thesis by blast
qed

definition sample_repeat_db :: db where
  "sample_repeat_db = sample_training_db\<lparr>t_training_run_outputs := [\<lparr>to_training_run_id = 1, to_final_artifact_id = 2,
     to_attempt_number = 1, to_created_at = 21\<rparr>]\<rparr>"

definition sample_idle :: "(string \<times> json) list \<Rightarrow> bytes option \<Rightarrow> training_supervision" where
  "sample_idle cx data = \<lparr>ts_lines = [], ts_abandoned = False, ts_others = id\<rparr>"

lemma sample_repeat_underway: "underway (j_id sample_running) 1 sample_repeat_db"
proof -
  have "registry_ok sample_repeat_db"
    by (simp add: registry_ok_def sample_repeat_db_def sample_training_db_defs contiguous_def numbers_def dataset_version_ok_def
        training_run_ok_def has_dataset_version_def uploaded_id_def)
  moreover have "records_ok sample_repeat_db"
    by (simp add: records_defs sample_repeat_db_def sample_training_db_defs uploaded_id_def)
  moreover have "job_ids_ok sample_repeat_db"
    by (simp add: job_ids_ok_def sample_repeat_db_def sample_training_db_defs waiting_unowned_def)
  ultimately show ?thesis
    by (simp add: underway_def system_ok_def) (simp add: sample_repeat_db_def sample_training_db_defs)
qed

lemma sample_repeat:
  defines "m \<equiv> run_training_attempt default_settings sample_codec sample_hash (\<lambda>_. Inr ''M'') ''/w'' sample_idle 20 ''w1'' 1
     sample_running sample_run"
  shows "\<exists>out. result m sample_repeat_db = Inr out \<and> owns (j_id sample_running) ''w1'' 1 (final_db m sample_repeat_db)"
proof -
  obtain cx where cx: "training_context sample_running sample_run 1 ''/w'' None = Inr cx"
    using sample_training_context by blast
  have ids: "tr_id sample_run = 1" "j_id sample_running = 1"
    by (simp_all add: sample_training_db_defs)
  let ?r = "\<lparr>rd_training_run_id = 1, rd_attempt_number = 1, rd_resumed_from_step = None, rd_decided_at = 20\<rparr>"
  let ?d = "sample_repeat_db\<lparr>t_attempt_resume_decisions := [?r]\<rparr>"
  have own: "owns 1 ''w1'' 1 sample_repeat_db" "owns 1 ''w1'' 1 ?d" "find_training_run 1 sample_repeat_db = Some sample_run"
    "t_checkpoints sample_repeat_db = []" "\<not> decision_violates ?r sample_repeat_db" "t_attempt_resume_decisions sample_repeat_db = []"
    by (simp_all add: find_training_run_def owns_def sql_exists_iff holds_lease_def decision_violates_def has_training_run_def
        sample_repeat_db_def sample_training_db_defs)
  have start: "resume_decisions_record ?r 1 ''w1'' 1 (begin_session sample_repeat_db)
      = (Inr True, \<lparr>work = ?d, durable = [?d, sample_repeat_db]\<rparr>)"
    using own by (simp add: resume_decisions_record_def begin_session_def insert_select_session)
  have "m (begin_session sample_repeat_db)
    = (Inr (conclude_training_attempt False None), \<lparr>work = ?d, durable = [?d, ?d, sample_repeat_db]\<rparr>)"
    by (simp add: m_def run_training_attempt_def ids bind_def sample_resume [OF own(3,4)] cx lift_sum_def ret_def start
        supervise_training_def sample_idle_def interfere_def del: One_nat_def)
  with own(2) ids show ?thesis by (simp add: result_def final_db_def del: One_nat_def)
qed

theorem output_blocks_retry_witness:
  "\<exists>out. result (run_training_attempt default_settings sample_codec sample_hash (\<lambda>_. Inr ''M'') ''/w'' sample_idle 20 ''w1'' 1
       sample_running sample_run) sample_repeat_db = Inr out \<and> out_status out \<noteq> SUCCEEDED"
proof -
  have "quiet_training default_settings (sample_idle cx data)" for cx data
    by (simp add: quiet_training_def quiet_items_def sample_idle_def)
  moreover have "has_output (tr_id sample_run) sample_repeat_db"
    by (simp add: has_output_def sample_repeat_db_def sample_run_def)
  ultimately show ?thesis
    using sample_repeat output_blocks_retry [OF _ sample_repeat_underway _ refl] by blast
qed

end
