(* ===== verification/WorkerRuns.thy ===== *)
theory WorkerRuns
  imports TrainingSafety
begin

text \<open>
  The worker with its two executors, as a whole: handling a message is a run of the system, and what
  the executors can and cannot answer.
\<close>

subsection \<open>Handling a message is a run of the system\<close>

text \<open>\<open>seals m\<close>: \<open>m\<close> returns with nothing uncommitted, whatever it found.\<close>

definition seals :: "'a program \<Rightarrow> bool" where
  "seals m \<longleftrightarrow> (\<forall>s a. fst (m s) = Inr a \<longrightarrow> work (snd (m s)) = hd (durable (snd (m s))))"

lemma seals_settles: "seals m \<Longrightarrow> settles m"
  by (simp add: seals_def settles_def)

lemma seals_raise: "seals (raise e)"
  by (simp add: seals_def raise_def)

lemma seals_bind: "(\<And>a. seals (f a)) \<Longrightarrow> seals (bind m f)"
  unfolding seals_def bind_def by (auto split: prod.splits sum.splits)

lemma seals_end: "settles (f ()) \<Longrightarrow> seals (bind commit f)" "settles (f ()) \<Longrightarrow> seals (bind rollback f)"
  unfolding seals_def settles_def bind_def commit_def rollback_def by (auto split: prod.splits sum.splits)

lemma seals_if: "seals m \<Longrightarrow> seals m' \<Longrightarrow> seals (if b then m else m')"
  by simp

lemma seals_option: "seals m \<Longrightarrow> (\<And>a. seals (f a)) \<Longrightarrow> seals (case x of None \<Rightarrow> m | Some a \<Rightarrow> f a)"
  by (cases x) simp_all

lemma seals_finish_with: "seals (finish_with now jid w n st ex ast em cl fd b)"
  unfolding finish_with_def by (intro seals_bind seals_if seals_end settles_pure)

lemma seals_finish_decided: "seals (finish_decided cfg now u jid w n out b)"
  unfolding finish_decided_def Let_def by (intro seals_if seals_option seals_finish_with seals_raise)

lemma appends_finish_with:
  assumes "appends b"
  shows "appends (finish_with now jid w n st ex ast em cl fd b)"
  unfolding finish_with_def by (intro appends_intros assms)

lemma appends_finish_decided: "appends (finish_decided cfg now u jid w n out b)"
  unfolding finish_decided_def Let_def
  by (intro appends_cases appends_finish_with appends_simple appends_bind appends_jobs_repo)

lemma runs_txn:
  assumes "appends m" and "settles m" and "\<And>d x. x \<in> set (commits m d) \<Longrightarrow> txn cfg d x"
  shows "runs (system_step cfg) anywhere m any_result"
  by (rule runs_steps [OF assms(1,2)]) (use assms(3) system_step.job in blast)

lemma runs_finish_attempt: "runs (system_step cfg) anywhere (finish_attempt cfg now u jid w n out) any_result"
  unfolding finish_attempt_def jobs_get_def
  by (intro runs_then runs_query TrueI runs_txn appends_finish_decided seals_settles [OF seals_finish_decided])
     (erule t_finish)

text \<open>A claim answers with the claimed row.\<close>

definition sound_state :: "db \<Rightarrow> bool" where
  "sound_state d \<longleftrightarrow> system_ok d \<and> job_ids_ok d"

lemma sound_state_run: "(system_step cfg)\<^sup>*\<^sup>* d d' \<Longrightarrow> sound_state d \<Longrightarrow> sound_state d'"
  using system_run_inv system_inv_ok evolves_system evolves_ids unfolding sound_state_def by blast

lemma sound_state_underway:
  "sound_state d \<Longrightarrow> j \<in> set (t_jobs d) \<Longrightarrow> underway (j_id j) (j_attempt_number j) d"
  by (auto simp: sound_state_def underway_def)

lemma runs_sound_state:
  assumes "runs (system_step cfg) anywhere m any_result" and "\<And>d a. result m d = Inr a \<Longrightarrow> Q a (final_db m d)"
  shows "runs (system_step cfg) sound_state m (\<lambda>a d. sound_state d \<and> Q a d)"
proof -
  from assms final_committed show ?thesis unfolding runs_def using sound_state_run by blast
qed

definition claimed_row :: "job option \<Rightarrow> db \<Rightarrow> bool" where
  "claimed_row c d \<longleftrightarrow> (\<forall>j. c = Some j \<longrightarrow> j \<in> set (t_jobs d))"

lemma settles_start: "settles (jobs_claim now jid w ls)" "settles (attempts_insert now jid n w)"
  unfolding jobs_claim_def jobs_get_def attempts_insert_def Let_def by (intro settles_intros)+

lemma runs_claim:
  "runs (system_step cfg) sound_state (jobs_claim now jid w (lease_duration_seconds cfg)) (\<lambda>c d. sound_state d \<and> claimed_row c d)"
proof (rule runs_sound_state)
  show "runs (system_step cfg) anywhere (jobs_claim now jid w (lease_duration_seconds cfg)) any_result"
    by (rule runs_txn [OF appends_jobs_repo(2) settles_start(1)]) (erule t_claim)
qed (auto simp: claimed_row_def prog_defs run_defs find_job_def dest: sql_one_SomeD split: if_splits)

lemma runs_insert_attempt: "runs (system_step cfg) anywhere (attempts_insert now jid n w) any_result"
  by (rule runs_txn [OF appends_jobs_repo(4) settles_start(2)]) (erule t_attempt)

lemma runs_start:
  "runs (system_step cfg) sound_state (start_attempt cfg now jid w)
     (\<lambda>c d. \<forall>j. c = Some j \<longrightarrow> underway (j_id j) (j_attempt_number j) d)"
proof -
  have "runs (system_step cfg) (\<lambda>d. sound_state d \<and> claimed_row (Some j) d)
      (bind (attempts_insert now jid (j_attempt_number j) w) (\<lambda>_. ret (Some j)))
      (\<lambda>c d. \<forall>j. c = Some j \<longrightarrow> underway (j_id j) (j_attempt_number j) d)" for j
  proof (rule runs_bind)
    show "runs (system_step cfg) (\<lambda>d. sound_state d \<and> claimed_row (Some j) d) (attempts_insert now jid (j_attempt_number j) w)
        (\<lambda>_. underway (j_id j) (j_attempt_number j))"
      by (rule runs_weaken [OF runs_goes_on [OF runs_insert_attempt]]) (auto simp: claimed_row_def sound_state_underway)
  qed (auto intro: runs_ret)
  then show ?thesis
    unfolding start_attempt_def
    by (intro runs_bind [OF runs_claim] runs_option runs_ret) simp_all
qed

lemma runs_everywhere: "(\<And>d0. runs R (\<lambda>d. d = d0) m (Q d0)) \<Longrightarrow> runs R anywhere m any_result"
  unfolding runs_def by blast

lemma runs_execute:
  assumes "\<And>cx. quiet cfg (ep cx)" and "\<And>cx data. quiet_training cfg (tp cx data)"
  shows "runs (system_step cfg) (underway (j_id j) (j_attempt_number j))
     (execute_attempt (\<lambda>j tr. run_training_attempt cfg cd hb go wd tp now w (j_attempt_number j) j tr)
       (\<lambda>j er. run_evaluation_attempt cd go ep now w (j_attempt_number j) j er) j) any_result"
proof -
  have train: "runs (system_step cfg) (underway (j_id j) (j_attempt_number j))
      (run_training_attempt cfg cd hb go wd tp now w (j_attempt_number j) j tr) any_result" for tr
    by (rule runs_weaken [OF runs_training_attempt [OF assms(2)]]) simp_all
  have evaluate: "runs (system_step cfg) (underway (j_id j) (j_attempt_number j))
      (run_evaluation_attempt cd go ep now w (j_attempt_number j) j er) any_result" for er
    by (rule runs_weaken [OF runs_everywhere [OF runs_evaluation_attempt [OF assms(1)]]]) simp_all
  have simulated: "runs (system_step cfg) (underway (j_id j) (j_attempt_number j)) (run_executor j) any_result"
    unfolding run_executor_def by (intro runs_option runs_if runs_ret runs_raise) simp_all
  show ?thesis
    unfolding execute_attempt_def training_runs_get_by_job_id_def evaluation_runs_get_by_job_id_def
    by (intro runs_bind [OF runs_reads(2)] runs_option train evaluate simulated)
qed

lemma registry_ok_initial: "registry_ok (initial_db cpu mem gpu)"
  by (simp add: registry_ok_def initial_db_def empty_db_def contiguous_def numbers_def)

lemma sound_state_reachable: "(system_step cfg)\<^sup>*\<^sup>* (initial_db cpu mem gpu) d \<Longrightarrow> sound_state d"
  using sound_state_run [of cfg "initial_db cpu mem gpu" d] records_ok_initial job_ids_ok_initial
  by (auto simp: sound_state_def system_ok_def registry_ok_initial)

definition worker_program ::
  "settings \<Rightarrow> codec \<Rightarrow> (bytes \<Rightarrow> string) \<Rightarrow> (string \<Rightarrow> exn + bytes) \<Rightarrow> string
   \<Rightarrow> ((string \<times> json) list \<Rightarrow> bytes option \<Rightarrow> training_supervision) \<Rightarrow> (evaluation_context \<Rightarrow> supervision)
   \<Rightarrow> (db \<Rightarrow> db) \<Rightarrow> bool \<Rightarrow> time \<Rightarrow> time \<Rightarrow> time \<Rightarrow> rat \<Rightarrow> uuid \<Rightarrow> string \<Rightarrow> string program" where
  "worker_program cfg cd hash_bytes get_object work_dir trainer evaluator others abandoned claim_at start_at finish_at u jid worker_id =
     process_job_message cfg
       (\<lambda>j tr. run_training_attempt cfg cd hash_bytes get_object work_dir trainer start_at worker_id (j_attempt_number j) j tr)
       (\<lambda>j er. run_evaluation_attempt cd get_object evaluator start_at worker_id (j_attempt_number j) j er)
       others abandoned claim_at finish_at u jid worker_id"

lemma runs_worker:
  assumes "\<And>cx. quiet cfg (ep cx)" and "\<And>cx data. quiet_training cfg (tp cx data)" and "\<And>x. (system_step cfg)\<^sup>*\<^sup>* x (others x)"
  shows "runs (system_step cfg) sound_state (worker_program cfg cd hb go wd tp ep others abandoned t0 t1 t2 u jid w) any_result"
proof -
  let ?te = "\<lambda>j tr. run_training_attempt cfg cd hb go wd tp t1 w (j_attempt_number j) j tr"
  let ?ee = "\<lambda>j er. run_evaluation_attempt cd go ep t1 w (j_attempt_number j) j er"
  have rest: "runs (system_step cfg) (underway (j_id j) (j_attempt_number j))
      (bind (execute_attempt ?te ?ee j) (\<lambda>out. bind (interfere others) (\<lambda>_.
         if abandoned then ret ''fenced_out'' else finish_attempt cfg t2 u jid w (j_attempt_number j) out))) any_result" for j
    by (intro runs_bind [OF runs_execute [OF assms(1,2)]] runs_bind [OF runs_interfere [OF assms(3), where Q = any_result]]
        runs_if runs_ret runs_finish_attempt TrueI)
  have case_some: "runs (system_step cfg) (\<lambda>d. \<forall>j. Some j' = Some j \<longrightarrow> underway (j_id j) (j_attempt_number j) d)
      (bind (execute_attempt ?te ?ee j') (\<lambda>out. bind (interfere others) (\<lambda>_.
         if abandoned then ret ''fenced_out'' else finish_attempt cfg t2 u jid w (j_attempt_number j') out))) any_result" for j'
    by (rule runs_weaken [OF rest]) simp_all
  show ?thesis
    unfolding worker_program_def process_job_message_def
    by (rule runs_bind [OF runs_start], rename_tac c, case_tac c)
       (simp_all only: option.case runs_ret case_some TrueI)
qed

text \<open>The worker refines the system.  In any state the platform reaches, whatever a worker commits while it
  handles a message, claim, attempt row, every write of its training or evaluation executor and the
  final transaction, is a state that the steps of the system reach, whatever the processes print and
  whatever the other sessions do meanwhile; so every invariant of the system holds in it.\<close>

theorem worker_refines_system:
  assumes "(system_step cfg)\<^sup>*\<^sup>* (initial_db cpu mem gpu) d"
    and "\<And>cx. quiet cfg (ep cx)" and "\<And>cx data. quiet_training cfg (tp cx data)" and "\<And>x. (system_step cfg)\<^sup>*\<^sup>* x (others x)"
    and "d' \<in> set (commits (worker_program cfg cd hb go wd tp ep others abandoned t0 t1 t2 u jid w) d)"
  shows "(system_step cfg)\<^sup>*\<^sup>* (initial_db cpu mem gpu) d'"
  using runs_commits [OF runs_worker [OF assms(2-4)] sound_state_reachable [OF assms(1)] assms(5)] assms(1)
  by (rule rtranclp_trans [rotated])

abbreviation sample_worker :: "string program" where
  "sample_worker \<equiv> worker_program default_settings sample_codec sample_hash (\<lambda>_. Inr ''M'') ''/w'' sample_finisher
     (\<lambda>_. undisturbed 20 ([], False)) (\<lambda>d. d) False 10 20 30 0 1 ''w1''"

theorem worker_refines_system_witness:
  "(system_step default_settings)\<^sup>*\<^sup>* (initial_db 4 4096 0) (final_db sample_worker sample_admitted)"
proof (rule worker_refines_system [OF sample_system_run(1) quiet_undisturbed sample_finisher_quiet])
  have "appends sample_worker"
    using runs_worker [of default_settings, OF quiet_undisturbed sample_finisher_quiet] by (simp add: runs_def)
  then show "final_db sample_worker sample_admitted \<in> set (commits sample_worker sample_admitted)" by (rule final_committed)
qed simp

end
