(* ===== verification/ExecutorFaults.thy ===== *)
theory ExecutorFaults
  imports WorkerRuns
begin

text \<open>
  What the executors cannot answer, and what a client's configuration can take from the platform: two
  places where the code does something else than it says.
\<close>

subsection \<open>What a program can answer\<close>

definition answers :: "('a \<Rightarrow> bool) \<Rightarrow> 'a program \<Rightarrow> bool" where
  "answers Q m \<longleftrightarrow> (\<forall>s a. fst (m s) = Inr a \<longrightarrow> Q a)"

named_theorems answers_intros

lemma answers_bind: "answers M m \<Longrightarrow> (\<And>a. M a \<Longrightarrow> answers Q (f a)) \<Longrightarrow> answers Q (bind m f)"
  unfolding answers_def bind_def by (auto split: prod.splits sum.splits) (metis fst_conv)

lemma answers_then [answers_intros]: "(\<And>a. answers Q (f a)) \<Longrightarrow> answers Q (bind m f)"
  by (rule answers_bind [where M = "\<lambda>_. True"]) (simp_all add: answers_def)

lemma answers_ret [answers_intros]: "Q a \<Longrightarrow> answers Q (ret a)"
  by (simp add: answers_def ret_def)

lemma answers_raise [answers_intros]: "answers Q (raise e)"
  by (simp add: answers_def raise_def)

lemma answers_cases [answers_intros]:
  "(b \<Longrightarrow> answers Q m) \<Longrightarrow> (\<not> b \<Longrightarrow> answers Q m') \<Longrightarrow> answers Q (if b then m else m')"
  "answers Q m \<Longrightarrow> (\<And>a. answers Q (g a)) \<Longrightarrow> answers Q (case x of None \<Rightarrow> m | Some a \<Rightarrow> g a)"
  by (simp_all split: option.split)

lemma answers_result: "answers Q m \<Longrightarrow> result m d = Inr a \<Longrightarrow> Q a"
  by (simp add: answers_def result_def)

subsection \<open>Reported errors are lost\<close>

text \<open>The failure that an outcome blames on a domain.\<close>

definition blames :: "string \<Rightarrow> failure option \<Rightarrow> bool" where
  "blames domain f \<longleftrightarrow> (\<exists>message classification. f = Some (message, classification, domain))"

definition blamed_end :: "string \<Rightarrow> drained \<Rightarrow> bool" where
  "blamed_end domain seen = (case seen of Abandoned \<Rightarrow> False | Drained produced_final last_error \<Rightarrow> blames domain last_error)"

lemma training_event_answers:
  assumes "logs_info cd"
  shows "answers (\<lambda>h. h \<noteq> Some ''training_error'') (handle_training_event cfg cd hb it jid w tr n kvs)"
  unfolding handle_training_event_def Let_def using assms by (intro answers_intros) simp_all

lemma evaluation_event_answers:
  assumes "logs_info cd"
  shows "answers (\<lambda>h. h \<noteq> Some ''evaluation_error'') (handle_evaluation_event cd now jid w rid n kvs)"
  unfolding handle_evaluation_event_def Let_def using assms by (intro answers_intros) simp_all

lemma training_lines_answer:
  assumes "logs_info cd" and "\<not> blames ''TRAINING'' le"
  shows "answers (\<lambda>seen. \<not> blamed_end ''TRAINING'' seen) (training_lines cfg cd hb jid w tr n its pf le)"
  using assms(2)
proof (induction its arbitrary: pf le)
  case Nil
  then show ?case by (simp add: answers_ret blamed_end_def)
next
  case (Cons it its)
  have handled: "\<not> blames ''TRAINING'' (training_failure cd h kvs le)" if "h \<noteq> Some ''training_error''" for h kvs
    using that Cons.prems by (simp add: training_failure_def blames_def)
  have "answers (\<lambda>seen. \<not> blamed_end ''TRAINING'' seen)
      (bind (handle_training_event cfg cd hb it jid w tr n kvs) (\<lambda>h.
        training_lines cfg cd hb jid w tr n its (pf \<or> h = Some ''final_registered'') (training_failure cd h kvs le)))" for kvs
    by (rule answers_bind [OF training_event_answers [OF assms(1)] Cons.IH [OF handled]])
  note parts = this Cons.IH [OF Cons.prems]
  show ?case
    by (simp only: training_lines.simps, rule answers_then)
       (use parts in \<open>auto intro: answers_ret answers_raise simp: blamed_end_def [of _ Abandoned] split: option.split json.split\<close>)
qed

lemma evaluation_lines_answer:
  assumes "logs_info cd" and "\<not> blames ''EVALUATION'' le"
  shows "answers (\<lambda>seen. \<not> blamed_end ''EVALUATION'' seen) (evaluation_lines cd jid w rid n its pf le)"
  using assms(2)
proof (induction its arbitrary: pf le)
  case Nil
  then show ?case by (simp add: answers_ret blamed_end_def)
next
  case (Cons it its)
  have handled: "\<not> blames ''EVALUATION'' (evaluation_failure cd h kvs le)" if "h \<noteq> Some ''evaluation_error''" for h kvs
    using that Cons.prems by (simp add: evaluation_failure_def blames_def)
  have "answers (\<lambda>seen. \<not> blamed_end ''EVALUATION'' seen)
      (bind (handle_evaluation_event cd (si_at it) jid w rid n kvs) (\<lambda>h.
        evaluation_lines cd jid w rid n its (pf \<or> h = Some ''final'') (evaluation_failure cd h kvs le)))" for kvs
    by (rule answers_bind [OF evaluation_event_answers [OF assms(1)] Cons.IH [OF handled]])
  note parts = this Cons.IH [OF Cons.prems]
  show ?case
    by (simp only: evaluation_lines.simps, rule answers_then)
       (use parts in \<open>auto intro: answers_ret answers_raise simp: blamed_end_def [of _ Abandoned] split: option.split json.split\<close>)
qed

lemma outcome_domains [simp]:
  "out_failure_domain fenced_out = Some ''INFRASTRUCTURE''" "out_failure_domain succeeded = None"
  "out_failure_domain (failed_outcome m c dm) = dm"
  "out_failure_domain (failure_outcome f) = Some (snd (snd f))"
  by (simp_all add: fenced_out_def failed_outcome_def succeeded_def failure_outcome_def split: prod.split)

lemma training_domain:
  assumes "logs_info cd"
  shows "answers (\<lambda>out. out_failure_domain out \<noteq> Some ''TRAINING'') (run_training_attempt cfg cd hb go wd process now w n j tr)"
proof -
  have conclude: "out_failure_domain (conclude_training_attempt pf le) \<noteq> Some ''TRAINING''" if "\<not> blamed_end ''TRAINING'' (Drained pf le)" for pf le
    using that by (auto simp: conclude_training_attempt_def blamed_end_def blames_def split: option.split)
  have "answers (\<lambda>out. out_failure_domain out \<noteq> Some ''TRAINING'') (supervise_training cfg cd hb ts jid w tr n)" for ts jid
    unfolding supervise_training_def
  proof (rule answers_bind [OF training_lines_answer [OF assms]])
    show "answers (\<lambda>out. out_failure_domain out \<noteq> Some ''TRAINING'')
        (case seen of Abandoned \<Rightarrow> ret fenced_out
         | Drained pf le \<Rightarrow> bind (interfere (ts_others ts)) (\<lambda>_. if ts_abandoned ts then ret fenced_out
             else ret (conclude_training_attempt pf le)))" if "\<not> blamed_end ''TRAINING'' seen" for seen
      using that conclude by (cases seen) (auto intro!: answers_intros)
  qed (simp add: blames_def)
  then show ?thesis unfolding run_training_attempt_def by (intro answers_intros)
qed

lemma evaluation_domain:
  assumes "logs_info cd"
  shows "answers (\<lambda>out. out_failure_domain out \<noteq> Some ''EVALUATION'') (run_evaluation_attempt cd go process now w n j er)"
proof -
  have conclude: "answers (\<lambda>out. out_failure_domain out \<noteq> Some ''EVALUATION'') (conclude_evaluation at' jid w rid n pf le)"
    if "\<not> blamed_end ''EVALUATION'' (Drained pf le)" for at' jid rid pf le
    unfolding conclude_evaluation_def using that
    by (intro answers_intros) (auto simp: blamed_end_def blames_def split: option.split)
  have "answers (\<lambda>out. out_failure_domain out \<noteq> Some ''EVALUATION'') (supervise_evaluation cd sv jid w rid n)" for sv jid rid
    unfolding supervise_evaluation_def
  proof (rule answers_bind [OF evaluation_lines_answer [OF assms]])
    show "answers (\<lambda>out. out_failure_domain out \<noteq> Some ''EVALUATION'')
        (case seen of Abandoned \<Rightarrow> ret fenced_out
         | Drained pf le \<Rightarrow> bind (interfere (sv_others sv)) (\<lambda>_. if sv_abandoned sv then ret fenced_out
             else conclude_evaluation (sv_at sv) jid w rid n pf le))" if "\<not> blamed_end ''EVALUATION'' seen" for seen
      using that conclude by (cases seen) (auto intro!: answers_intros)
  qed (simp add: blames_def)
  then show ?thesis
    unfolding run_evaluation_attempt_def fail_evaluation_def by (intro answers_intros) simp_all
qed

text \<open>C28: An error that a process reports never reaches the platform when the logger is enabled for INFO, as it
  is by default: the call that logs it raises KeyError.  So whatever the processes print, no training
  attempt is answered with the failure domain TRAINING and no evaluation with EVALUATION, the two that
  mark the fault of a body; their permanent errors are never classified as such.\<close>

theorem reported_error_is_lost:
  assumes "logs_info cd"
    and "result (run_training_attempt cfg cd hb go wd tp now w n j tr) d = Inr out"
    and "result (run_evaluation_attempt cd go' ep now w n j er) d' = Inr out'"
  shows "out_failure_domain out \<noteq> Some ''TRAINING'' \<and> out_failure_domain out' \<noteq> Some ''EVALUATION''"
  using answers_result [OF training_domain [OF assms(1)] assms(2)] answers_result [OF evaluation_domain [OF assms(1)] assms(3)]
  by simp

theorem reported_error_is_lost_witness: "out_failure_domain succeeded \<noteq> Some ''TRAINING''"
proof -
  have "logs_info sample_codec" by (simp add: sample_codec_def)
  from reported_error_is_lost [OF this conjunct1 [OF sample_training_succeeds, unfolded sample_training_attempt_def]
      sample_attempt_succeeds [unfolded sample_attempt_run]]
  show ?thesis by blast
qed

subsection \<open>The client's configuration and the platform's context\<close>

lemma map_of_client: "map_of (filter (\<lambda>(k, v). k \<noteq> x) kvs) k = (if k = x then None else map_of kvs k)"
  by (induction kvs) auto

lemma context_client:
  assumes "tr_training_config tr = JObj kvs" and "training_context j tr n wd resumed = Inr cx" and "map_of kvs k = Some v"
  shows "obj_get k cx = v"
  using assms
  by (auto simp: training_context_def sum_bind_def obj_get_def map_add_def map_of_client simp del: show_nat.simps
      split: sum.splits option.splits if_splits)

text \<open>C34: The client's configuration wins.  Every key of a run's \<open>training_config\<close> replaces the platform's entry
  in the context of the process, the work directory, the checkpoint to resume from and the resources
  included; in particular a run that configures \<open>required_gpu\<close> as 0 passes the GPU check of the
  process whatever its job reserved and whatever the driver reports.\<close>

theorem client_overrides_platform:
  assumes "tr_training_config tr = JObj kvs" and "training_context j tr n wd resumed = Inr cx" and "map_of kvs k = Some v"
  shows "obj_get k cx = v
     \<and> (k = ''required_gpu'' \<and> v = JInt 0 \<longrightarrow> (\<forall>events fs crashed. training_main cd probe modules cx = Some (events, fs, crashed) \<longrightarrow>
          events \<noteq> [] \<and> hd events = JObj [(''event'', JStr ''gpu_check_passed''), (''device_count'', JInt 0)]))"
proof (intro conjI impI allI)
  show v: "obj_get k cx = v" by (rule context_client [OF assms])
  fix events fs crashed
  assume k: "k = ''required_gpu'' \<and> v = JInt 0" and run: "training_main cd probe modules cx = Some (events, fs, crashed)"
  have "verify_gpu probe (if obj_has ''required_gpu'' cx then obj_get ''required_gpu'' cx else JInt 0) mem = Inr (gpu_passed 0 None)" for mem
    using v k by (auto simp: verify_gpu_def json_compare_def sum_bind_def)
  with run show "events \<noteq> []" "hd events = JObj [(''event'', JStr ''gpu_check_passed''), (''device_count'', JInt 0)]"
    by (auto simp: training_main_def gpu_passed_def Let_def split: option.splits prod.splits Option.bind_splits)
qed

definition sample_greedy :: training_run where
  "sample_greedy = sample_run\<lparr>tr_training_config := JObj [(''required_gpu'', JInt 0)]\<rparr>"

theorem client_overrides_platform_witness:
  "\<exists>cx. training_context sample_running sample_greedy 1 ''/w'' None = Inr cx \<and> obj_get ''required_gpu'' cx = JInt 0"
proof -
  have "\<exists>cx. training_context sample_running sample_greedy 1 ''/w'' None = Inr cx"
    by (simp add: training_context_def configured_resource_def sum_bind_def sample_greedy_def sample_training_db_defs)
  moreover have "tr_training_config sample_greedy = JObj [(''required_gpu'', JInt 0)]" by (simp add: sample_greedy_def)
  ultimately show ?thesis using client_overrides_platform by fastforce
qed

end
