(* ===== verification/Responses.thy ===== *)
theory Responses
  imports Evaluation Scheduler
begin

text \<open>
  The bodies of the responses (app/schemas.py, and the dictionaries the routers build).  How a UUID
  and a point in time are written is a parameter, \<open>wire\<close>.  \<open>updated_at\<close> and the identifier of a
  scheduling decision, which the tables of the model do not have, are left out.
\<close>

record wire =
  wr_uuid :: "uuid \<Rightarrow> string"
  wr_time :: "time \<Rightarrow> string"

definition optional :: "('a \<Rightarrow> json) \<Rightarrow> 'a option \<Rightarrow> json" where
  "optional f x = (case x of None \<Rightarrow> JNull | Some y \<Rightarrow> f y)"

definition out_uuid :: "wire \<Rightarrow> uuid \<Rightarrow> json" where
  "out_uuid w i = JStr (wr_uuid w i)"

definition out_time :: "wire \<Rightarrow> time \<Rightarrow> json" where
  "out_time w t = JStr (wr_time w t)"

fun attempt_status_value :: "attempt_status \<Rightarrow> string" where
  "attempt_status_value ARunning = ''RUNNING''"
| "attempt_status_value ASucceeded = ''SUCCEEDED''"
| "attempt_status_value AFailed = ''FAILED''"
| "attempt_status_value ACancelled = ''CANCELLED''"
| "attempt_status_value ALost = ''LOST''"

subsection \<open>Jobs and their history\<close>

definition job_out :: "wire \<Rightarrow> job \<Rightarrow> json" where
  "job_out w j = JObj
    [(''id'', out_uuid w (j_id j)), (''job_type'', JStr (j_job_type j)), (''status'', JStr (status_value (j_status j))),
     (''config'', optional id (j_config j)), (''cancel_requested'', JBool (j_cancel_requested j)),
     (''claimed_at'', optional (out_time w) (j_claimed_at j)), (''attempt_number'', JInt (j_attempt_number j)),
     (''lease_owner'', optional JStr (j_lease_owner j)), (''lease_expires_at'', optional (out_time w) (j_lease_expires_at j)),
     (''next_retry_at'', optional (out_time w) (j_next_retry_at j)), (''priority'', JInt (j_priority j)),
     (''created_at'', out_time w (j_created_at j))]"

definition scheduling_decision_out :: "wire \<Rightarrow> scheduling_decision \<Rightarrow> json" where
  "scheduling_decision_out w r = JObj
    [(''job_id'', out_uuid w (s_job_id r)), (''decided_at'', out_time w (s_decided_at r)), (''decision'', JStr (s_decision r)),
     (''reason'', JStr (s_reason r)), (''requested_cpu'', JInt (s_requested_cpu r)),
     (''requested_memory_mb'', JInt (s_requested_memory_mb r)), (''requested_gpu'', JInt (s_requested_gpu r)),
     (''available_cpu_snapshot'', JInt (s_available_cpu_snapshot r)),
     (''available_memory_mb_snapshot'', JInt (s_available_memory_mb_snapshot r)),
     (''available_gpu_snapshot'', JInt (s_available_gpu_snapshot r)), (''effective_priority'', JFloat (s_effective_priority r))]"

definition capacity_out :: "capacity \<Rightarrow> json" where
  "capacity_out c = JObj
    [(''total_cpu'', JInt (total_cpu c)), (''allocated_cpu'', JInt (allocated_cpu c)),
     (''available_cpu'', JInt (total_cpu c - allocated_cpu c)),
     (''total_memory_mb'', JInt (total_memory_mb c)), (''allocated_memory_mb'', JInt (allocated_memory_mb c)),
     (''available_memory_mb'', JInt (total_memory_mb c - allocated_memory_mb c)),
     (''total_gpu'', JInt (total_gpu c)), (''allocated_gpu'', JInt (allocated_gpu c)),
     (''available_gpu'', JInt (total_gpu c - allocated_gpu c))]"

definition attempt_out :: "wire \<Rightarrow> attempt \<Rightarrow> json" where
  "attempt_out w a = JObj
    [(''job_id'', out_uuid w (a_job_id a)), (''attempt_number'', JInt (a_attempt_number a)), (''worker_id'', JStr (a_worker_id a)),
     (''status'', JStr (attempt_status_value (a_status a))), (''started_at'', out_time w (a_started_at a)),
     (''finished_at'', optional (out_time w) (a_finished_at a)), (''error_message'', optional JStr (a_error_message a)),
     (''error_classification'', optional JStr (a_error_classification a))]"

definition dlq_entry_out :: "wire \<Rightarrow> dlq_entry \<Rightarrow> json" where
  "dlq_entry_out w e = JObj
    [(''job_id'', out_uuid w (d_job_id e)), (''moved_to_dlq_at'', out_time w (d_moved_to_dlq_at e)),
     (''last_attempt_number'', JInt (d_last_attempt_number e)), (''last_error_message'', optional JStr (d_last_error_message e)),
     (''last_error_classification'', JStr (d_last_error_classification e)), (''total_attempts'', JInt (d_total_attempts e))]"

definition page_out :: "('a \<Rightarrow> json) \<Rightarrow> nat \<Rightarrow> nat \<Rightarrow> 'a list \<times> nat \<Rightarrow> json" where
  "page_out f limit offset found =
     JObj [(''items'', JArr (map f (fst found))), (''limit'', JInt (int limit)), (''offset'', JInt (int offset)),
       (''total'', JInt (int (snd found)))]"

subsection \<open>Artifacts and the registry\<close>

definition artifact_out :: "wire \<Rightarrow> artifact \<Rightarrow> json" where
  "artifact_out w a = JObj
    [(''id'', out_uuid w (f_id a)), (''content_hash'', JStr (f_content_hash a)), (''storage_key'', JStr (f_storage_key a)),
     (''artifact_type'', JStr (f_artifact_type a)), (''size_bytes'', optional JInt (f_size_bytes a)),
     (''status'', JStr (artifact_status_value (f_status a))), (''job_id'', optional (out_uuid w) (f_job_id a)),
     (''attempt_number'', optional JInt (f_attempt_number a)), (''created_at'', out_time w (f_created_at a)),
     (''uploaded_at'', optional (out_time w) (f_uploaded_at a))]"

definition dataset_out :: "wire \<Rightarrow> dataset \<Rightarrow> json" where
  "dataset_out w x = JObj
    [(''id'', out_uuid w (ds_id x)), (''name'', JStr (ds_name x)), (''description'', optional JStr (ds_description x)),
     (''created_at'', out_time w (ds_created_at x))]"

definition dataset_version_out :: "wire \<Rightarrow> dataset_version \<Rightarrow> json" where
  "dataset_version_out w v = JObj
    [(''dataset_id'', out_uuid w (dv_dataset_id v)), (''version_number'', JInt (dv_version_number v)),
     (''artifact_id'', out_uuid w (dv_artifact_id v)), (''created_at'', out_time w (dv_created_at v))]"

definition model_out :: "wire \<Rightarrow> model \<Rightarrow> json" where
  "model_out w x = JObj
    [(''id'', out_uuid w (m_id x)), (''name'', JStr (m_name x)), (''description'', optional JStr (m_description x)),
     (''created_at'', out_time w (m_created_at x))]"

definition model_version_out :: "wire \<Rightarrow> model_version \<Rightarrow> json" where
  "model_version_out w v = JObj
    [(''model_id'', out_uuid w (mv_model_id v)), (''version_number'', JInt (mv_version_number v)),
     (''artifact_id'', out_uuid w (mv_artifact_id v)), (''training_run_id'', optional (out_uuid w) (mv_training_run_id v)),
     (''registered_at'', out_time w (mv_registered_at v))]"

definition training_run_out :: "wire \<Rightarrow> training_run \<Rightarrow> json" where
  "training_run_out w t = JObj
    [(''id'', out_uuid w (tr_id t)), (''job_id'', out_uuid w (tr_job_id t)), (''dataset_id'', out_uuid w (tr_dataset_id t)),
     (''dataset_version_number'', JInt (tr_dataset_version_number t)),
     (''base_model_id'', optional (out_uuid w) (tr_base_model_id t)),
     (''base_model_version_number'', optional JInt (tr_base_model_version_number t)),
     (''training_config'', tr_training_config t), (''code_commit'', JStr (tr_code_commit t)),
     (''container_image'', JStr (tr_container_image t)), (''random_seed'', optional JInt (tr_random_seed t)),
     (''created_at'', out_time w (tr_created_at t))]"

definition checkpoint_body :: "wire \<Rightarrow> checkpoint \<Rightarrow> json" where
  "checkpoint_body w c = JObj
    [(''training_run_id'', out_uuid w (c_training_run_id c)), (''attempt_number'', JInt (c_attempt_number c)),
     (''step'', JInt (c_step c)), (''artifact_id'', out_uuid w (c_artifact_id c)),
     (''checkpoint_format_version'', JInt (c_checkpoint_format_version c)), (''created_at'', out_time w (c_created_at c))]"

definition training_metric_body :: "wire \<Rightarrow> training_metric \<Rightarrow> json" where
  "training_metric_body w m = JObj
    [(''step'', JInt (tm_step m)), (''loss'', optional JFloat (tm_loss m)),
     (''learning_rate'', optional JFloat (tm_learning_rate m)),
     (''gpu_memory_allocated_mb'', optional JInt (tm_gpu_memory_allocated_mb m)), (''recorded_at'', out_time w (tm_recorded_at m))]"

definition output_body :: "wire \<Rightarrow> training_run_output \<Rightarrow> json" where
  "output_body w x = JObj
    [(''training_run_id'', out_uuid w (to_training_run_id x)), (''final_artifact_id'', out_uuid w (to_final_artifact_id x)),
     (''attempt_number'', JInt (to_attempt_number x)), (''created_at'', out_time w (to_created_at x))]"

subsection \<open>Lineage\<close>

text \<open>The route writes every column of a row under its name: for jobs and artifacts more than their
  schemas have.\<close>

definition job_columns :: "wire \<Rightarrow> job \<Rightarrow> json" where
  "job_columns w j = JObj
    [(''id'', out_uuid w (j_id j)), (''job_type'', JStr (j_job_type j)), (''status'', JStr (status_value (j_status j))),
     (''config'', optional id (j_config j)), (''cancel_requested'', JBool (j_cancel_requested j)),
     (''claimed_at'', optional (out_time w) (j_claimed_at j)), (''attempt_number'', JInt (j_attempt_number j)),
     (''lease_owner'', optional JStr (j_lease_owner j)), (''lease_expires_at'', optional (out_time w) (j_lease_expires_at j)),
     (''next_retry_at'', optional (out_time w) (j_next_retry_at j)), (''priority'', JInt (j_priority j)),
     (''deleted_at'', optional (out_time w) (j_deleted_at j)), (''created_at'', out_time w (j_created_at j))]"

definition artifact_columns :: "wire \<Rightarrow> artifact \<Rightarrow> json" where
  "artifact_columns w a = JObj
    [(''id'', out_uuid w (f_id a)), (''content_hash'', JStr (f_content_hash a)), (''storage_key'', JStr (f_storage_key a)),
     (''artifact_type'', JStr (f_artifact_type a)), (''size_bytes'', optional JInt (f_size_bytes a)),
     (''attempt_number'', optional JInt (f_attempt_number a)), (''job_id'', optional (out_uuid w) (f_job_id a)),
     (''status'', JStr (artifact_status_value (f_status a))), (''uploader_id'', optional JStr (f_uploader_id a)),
     (''upload_lease_expires_at'', optional (out_time w) (f_upload_lease_expires_at a)),
     (''created_at'', out_time w (f_created_at a)), (''uploaded_at'', optional (out_time w) (f_uploaded_at a))]"

definition lineage_body :: "wire \<Rightarrow> lineage \<Rightarrow> json" where
  "lineage_body w l = JObj
    [(''model_version'', model_version_out w (ln_model_version l)), (''artifact'', optional (artifact_columns w) (ln_artifact l)),
     (''training_run'', optional (training_run_out w) (ln_training_run l)), (''dataset'', optional (dataset_out w) (ln_dataset l)),
     (''dataset_version'', optional (dataset_version_out w) (ln_dataset_version l)),
     (''base_model_version'', optional (model_version_out w) (ln_base_model_version l)),
     (''job'', optional (job_columns w) (ln_job l))]"

subsection \<open>Evaluations\<close>

definition evaluation_config_out :: "wire \<Rightarrow> evaluation_config \<Rightarrow> json" where
  "evaluation_config_out w c = JObj
    [(''id'', out_uuid w (ec_id c)), (''task_type'', JStr (ec_task_type c)), (''metric_definitions'', ec_metric_definitions c),
     (''batch_size'', JInt (ec_batch_size c)), (''max_examples'', optional JInt (ec_max_examples c)),
     (''max_sequence_length'', optional JInt (ec_max_sequence_length c)),
     (''evaluator_code_commit'', JStr (ec_evaluator_code_commit c)), (''container_image'', JStr (ec_container_image c)),
     (''random_seed'', optional JInt (ec_random_seed c)), (''created_at'', out_time w (ec_created_at c))]"

definition evaluation_out :: "wire \<Rightarrow> evaluation_run \<Rightarrow> json" where
  "evaluation_out w e = JObj
    [(''id'', out_uuid w (er_id e)), (''job_id'', out_uuid w (er_job_id e)), (''model_id'', out_uuid w (er_model_id e)),
     (''model_version_number'', JInt (er_model_version_number e)), (''dataset_id'', out_uuid w (er_dataset_id e)),
     (''dataset_version_number'', JInt (er_dataset_version_number e)),
     (''evaluation_config_id'', out_uuid w (er_evaluation_config_id e)),
     (''baseline_model_id'', optional (out_uuid w) (er_baseline_model_id e)),
     (''baseline_model_version_number'', optional JInt (er_baseline_model_version_number e)),
     (''status'', JStr (status_value (er_status e))), (''evaluator_code_commit'', JStr (er_evaluator_code_commit e)),
     (''container_image'', JStr (er_container_image e)), (''created_at'', out_time w (er_created_at e)),
     (''completed_at'', optional (out_time w) (er_completed_at e))]"

definition evaluation_metric_body :: "wire \<Rightarrow> evaluation_metric \<Rightarrow> json" where
  "evaluation_metric_body w m = JObj
    [(''metric_name'', JStr (em_metric_name m)), (''split'', JStr (em_split m)), (''metric_value'', JFloat (em_metric_value m)),
     (''sample_count'', JInt (em_sample_count m)), (''attempt_number'', JInt (em_attempt_number m)),
     (''created_at'', out_time w (em_created_at m))]"

definition float_map :: "(string \<times> pyfloat) list \<Rightarrow> json" where
  "float_map kvs = JObj (map (\<lambda>(k, v). (k, JFloat v)) kvs)"

definition baseline_body :: "wire \<Rightarrow> baseline_comparison \<Rightarrow> json" where
  "baseline_body w b = JObj
    [(''baseline_model_id'', optional (out_uuid w) (bc_baseline_model_id b)),
     (''baseline_model_version_number'', optional JInt (bc_baseline_model_version_number b)),
     (''candidate_metrics'', float_map (bc_candidate_metrics b)), (''baseline_metrics'', float_map (bc_baseline_metrics b)),
     (''deltas'', float_map (bc_deltas b))]"

definition evaluation_metrics_body :: "wire \<Rightarrow> uuid \<Rightarrow> evaluation_run \<Rightarrow> evaluation_metric list \<Rightarrow> (string \<times> json) list" where
  "evaluation_metrics_body w eid run metrics =
    [(''evaluation_run_id'', out_uuid w eid), (''status'', JStr (status_value (er_status run))),
     (''metrics'', JArr (map (evaluation_metric_body w) metrics))]"

definition evaluation_result_body :: "wire \<Rightarrow> evaluation_result \<Rightarrow> json" where
  "evaluation_result_body w r = JObj
    [(''example_id'', JStr (ex_example_id r)), (''prediction'', optional JStr (ex_prediction r)),
     (''expected_output'', optional JStr (ex_expected_output r)), (''score'', optional JFloat (ex_score r)),
     (''latency_ms'', optional JFloat (ex_latency_ms r)), (''error_code'', optional JStr (ex_error_code r)),
     (''error_message'', optional JStr (ex_error_message r)), (''attempt_number'', JInt (ex_attempt_number r)),
     (''created_at'', out_time w (ex_created_at r))]"

definition gate_result_item :: "wire \<Rightarrow> quality_gate_result \<Rightarrow> json" where
  "gate_result_item w r = JObj
    [(''id'', out_uuid w (qr_id r)), (''quality_gate_id'', out_uuid w (qr_quality_gate_id r)),
     (''status'', JStr (gate_status_value (qr_status r))), (''rule_results'', qr_rule_results r),
     (''evaluated_at'', out_time w (qr_evaluated_at r))]"

definition gate_results_body :: "wire \<Rightarrow> uuid \<Rightarrow> quality_gate_result list \<Rightarrow> json" where
  "gate_results_body w eid rows = JObj
    [(''evaluation_run_id'', out_uuid w eid), (''quality_gate_results'', JArr (map (gate_result_item w) rows))]"

definition gate_verdict_body :: "wire \<Rightarrow> quality_gate_result \<times> bool \<Rightarrow> json" where
  "gate_verdict_body w verdict = (case verdict of (r, inserted) \<Rightarrow> JObj
    [(''id'', out_uuid w (qr_id r)), (''evaluation_run_id'', out_uuid w (qr_evaluation_run_id r)),
     (''quality_gate_id'', out_uuid w (qr_quality_gate_id r)), (''status'', JStr (gate_status_value (qr_status r))),
     (''rule_results'', qr_rule_results r), (''evaluated_at'', out_time w (qr_evaluated_at r)),
     (''newly_evaluated'', JBool inserted)])"

definition quality_gate_out :: "wire \<Rightarrow> quality_gate \<Rightarrow> json" where
  "quality_gate_out w g = JObj
    [(''id'', out_uuid w (qg_id g)), (''name'', JStr (qg_name g)), (''rules'', qg_rules g), (''created_at'', out_time w (qg_created_at g))]"

end
