(* ===== verification/Routes.thy ===== *)
theory Routes
  imports Responses System
begin

text \<open>
  The HTTP interface (app/routers, with the validation of app/schemas.py).  A request is a value of
  \<open>get_request\<close> or \<open>write_request\<close>: its method and path with the parameters already of their types, and
  its payload.  \<open>serve_get\<close> and \<open>serve_write\<close> are the handlers, \<open>respond\<close> the status and body the
  framework answers.  The text of /metrics is left out.
\<close>

subsection \<open>Requests\<close>

datatype get_request =
    GetJob uuid | ListJobs "int option" "int option" | ListAttempts uuid | ListSchedulingDecisions uuid
  | GetCapacity | ListDlq "int option" "int option"
  | GetArtifact uuid | ListArtifacts "string option" "int option" "int option"
  | GetDataset uuid | ListDatasetVersions uuid "int option" "int option" | GetDatasetVersion uuid int
  | GetModel uuid | ListModelVersions uuid "int option" "int option" | GetModelVersion uuid int
  | GetModelVersionLineage uuid int
  | GetTrainingRun uuid | ListCheckpoints uuid | ListTrainingMetrics uuid "int option" "int option" | GetOutput uuid
  | GetEvaluationConfig uuid | GetEvaluation uuid | GetEvaluationMetrics uuid
  | GetEvaluationResults uuid "int option" "int option" | GetEvaluationQualityGates uuid

datatype write_request =
    CreateJob job_create | UpdateJob uuid job_update | DeleteJob uuid | CancelJob uuid
  | UploadArtifact string "uuid option" "int option" bytes
  | CreateDataset string "string option" | CreateDatasetVersion uuid bytes
  | CreateModel string "string option" | RegisterModelVersion uuid uuid "uuid option"
  | CreateTrainingRun training_run_create
  | CreateEvaluationConfig evaluation_config_create | CreateEvaluation evaluation_create
  | EvaluateQualityGate uuid uuid | CreateQualityGate string json

subsection \<open>Validation\<close>

fun is_object :: "json \<Rightarrow> bool" where
  "is_object (JObj _) = True"
| "is_object _ = False"

definition text_between :: "nat \<Rightarrow> nat \<Rightarrow> string \<Rightarrow> bool" where
  "text_between lo hi s \<longleftrightarrow> lo \<le> length s \<and> length s \<le> hi"

definition priority_valid :: "int \<Rightarrow> bool" where
  "priority_valid p \<longleftrightarrow> 0 \<le> p \<and> p \<le> 100"

definition evaluation_config_valid :: "evaluation_config_create \<Rightarrow> bool" where
  "evaluation_config_valid p \<longleftrightarrow> text_between 1 128 (gc_task_type p) \<and> is_object (gc_metric_definitions p)
     \<and> 1 \<le> gc_batch_size p \<and> pred_option (\<lambda>n. 1 \<le> n) (gc_max_examples p) \<and> pred_option (\<lambda>n. 1 \<le> n) (gc_max_sequence_length p)"

definition training_run_valid :: "training_run_create \<Rightarrow> bool" where
  "training_run_valid p \<longleftrightarrow> text_between 1 128 (tc_job_type p) \<and> is_object (tc_training_config p)
     \<and> priority_valid (tc_priority p) \<and> pred_option is_object (tc_job_config p)"

definition evaluation_valid :: "evaluation_create \<Rightarrow> bool" where
  "evaluation_valid p \<longleftrightarrow> text_between 1 128 (ev_job_type p) \<and> priority_valid (ev_priority p)
     \<and> pred_option is_object (ev_job_config p)"

fun payload_valid :: "write_request \<Rightarrow> bool" where
  "payload_valid (CreateJob p) \<longleftrightarrow> job_create_valid p \<and> pred_option is_object (jc_config p)"
| "payload_valid (UpdateJob _ p) \<longleftrightarrow> pred_option is_object (ju_config p)"
| "payload_valid (CreateDataset name _) \<longleftrightarrow> text_between 1 200 name"
| "payload_valid (CreateModel name _) \<longleftrightarrow> text_between 1 200 name"
| "payload_valid (CreateTrainingRun p) \<longleftrightarrow> training_run_valid p"
| "payload_valid (CreateEvaluationConfig p) \<longleftrightarrow> evaluation_config_valid p"
| "payload_valid (CreateEvaluation p) \<longleftrightarrow> evaluation_valid p"
| "payload_valid (CreateQualityGate name rules) \<longleftrightarrow> text_between 1 200 name \<and> is_object rules"
| "payload_valid _ \<longleftrightarrow> True"

text \<open>The two query parameters of a page, with the default and the maximum of the route.\<close>

definition with_page :: "nat \<Rightarrow> nat \<Rightarrow> int option \<Rightarrow> int option \<Rightarrow> (nat \<Rightarrow> nat \<Rightarrow> 'a program) \<Rightarrow> 'a program" where
  "with_page preset most limit offset f =
     (let l = (case limit of None \<Rightarrow> int preset | Some l \<Rightarrow> l); k = (case offset of None \<Rightarrow> 0 | Some k \<Rightarrow> k)
      in if l < 1 \<or> int most < l \<or> k < 0 then raise (HTTPException 422) else f (nat l) (nat k))"

subsection \<open>Reading\<close>

text \<open>One definition for each handler; the dispatch is the routing of app/main.py.\<close>

named_theorems route_defs

definition or_404 :: "'a option \<Rightarrow> 'a program" where
  "or_404 found = (case found of None \<Rightarrow> raise (HTTPException 404) | Some x \<Rightarrow> ret x)"

definition project :: "('a \<Rightarrow> json) \<Rightarrow> 'a program \<Rightarrow> json program" where
  "project f m = bind m (\<lambda>x. ret (f x))"

definition get_capacity :: "json program" where
  "get_capacity = bind capacity_get (\<lambda>c. case c of None \<Rightarrow> raise PyAttributeError | Some c \<Rightarrow> ret (capacity_out c))"

definition get_evaluation_metrics :: "wire \<Rightarrow> uuid \<Rightarrow> json program" where
  "get_evaluation_metrics w eid =
     bind (get_evaluation_or_404 eid) (\<lambda>run.
     bind (list_metrics eid) (\<lambda>metrics.
     if er_baseline_model_id run = None then ret (JObj (evaluation_metrics_body w eid run metrics))
     else bind (query_checked (compute_baseline_deltas run)) (\<lambda>comparison.
          ret (JObj (evaluation_metrics_body w eid run metrics
                 @ [(''baseline_comparison'', optional (baseline_body w) comparison)])))))"

definition get_output :: "wire \<Rightarrow> uuid \<Rightarrow> json program" where
  "get_output w rid =
     bind (get_training_run_or_404 rid) (\<lambda>_. bind (query (find_output rid)) (\<lambda>found. project (output_body w) (or_404 found)))"

definition get_job_route :: "wire \<Rightarrow> uuid \<Rightarrow> json program" where
  [route_defs]: "get_job_route w i =
     project (job_out w) (get_job i)"

definition list_jobs_route :: "wire \<Rightarrow> int option \<Rightarrow> int option \<Rightarrow> json program" where
  [route_defs]: "list_jobs_route w limit offset =
     with_page 20 200 limit offset (\<lambda>l k. project (page_out (job_out w) l k) (list_jobs (int l) (int k)))"

definition list_attempts_route :: "wire \<Rightarrow> uuid \<Rightarrow> json program" where
  [route_defs]: "list_attempts_route w i =
     bind (get_job i) (\<lambda>_. project (\<lambda>xs. JArr (map (attempt_out w) xs)) (query (attempts_list_for_job i)))"

definition list_scheduling_decisions_route :: "wire \<Rightarrow> uuid \<Rightarrow> json program" where
  [route_defs]: "list_scheduling_decisions_route w i =
     bind (get_job i) (\<lambda>_. project (\<lambda>xs. JArr (map (scheduling_decision_out w) xs)) (query (decisions_list_for_job i)))"

definition list_dlq_route :: "wire \<Rightarrow> int option \<Rightarrow> int option \<Rightarrow> json program" where
  [route_defs]: "list_dlq_route w limit offset =
     with_page 20 200 limit offset (\<lambda>l k. project (page_out (dlq_entry_out w) l k) (query (dlq_list l k)))"

definition get_artifact_route :: "wire \<Rightarrow> uuid \<Rightarrow> json program" where
  [route_defs]: "get_artifact_route w i =
     bind (artifacts_get i) (\<lambda>found. project (artifact_out w) (or_404 found))"

definition list_artifacts_route :: "wire \<Rightarrow> string option \<Rightarrow> int option \<Rightarrow> int option \<Rightarrow> json program" where
  [route_defs]: "list_artifacts_route w st limit offset =
     with_page 20 200 limit offset (\<lambda>l k. project (page_out (artifact_out w) l k) (query (artifacts_list st l k)))"

definition get_dataset_route :: "wire \<Rightarrow> uuid \<Rightarrow> json program" where
  [route_defs]: "get_dataset_route w i =
     project (dataset_out w) (get_dataset_or_404 i)"

definition list_dataset_versions_route :: "wire \<Rightarrow> uuid \<Rightarrow> int option \<Rightarrow> int option \<Rightarrow> json program" where
  [route_defs]: "list_dataset_versions_route w i limit offset =
     with_page 20 200 limit offset (\<lambda>l k. project (page_out (dataset_version_out w) l k) (list_dataset_versions i l k))"

definition get_dataset_version_route :: "wire \<Rightarrow> uuid \<Rightarrow> int \<Rightarrow> json program" where
  [route_defs]: "get_dataset_version_route w i n =
     project (dataset_version_out w) (get_dataset_version_or_404 i n)"

definition get_model_route :: "wire \<Rightarrow> uuid \<Rightarrow> json program" where
  [route_defs]: "get_model_route w i =
     project (model_out w) (get_model_or_404 i)"

definition list_model_versions_route :: "wire \<Rightarrow> uuid \<Rightarrow> int option \<Rightarrow> int option \<Rightarrow> json program" where
  [route_defs]: "list_model_versions_route w i limit offset =
     with_page 20 200 limit offset (\<lambda>l k. project (page_out (model_version_out w) l k) (list_model_versions i l k))"

definition get_model_version_route :: "wire \<Rightarrow> uuid \<Rightarrow> int \<Rightarrow> json program" where
  [route_defs]: "get_model_version_route w i n =
     project (model_version_out w) (get_model_version_or_404 i n)"

definition get_model_version_lineage_route :: "wire \<Rightarrow> uuid \<Rightarrow> int \<Rightarrow> json program" where
  [route_defs]: "get_model_version_lineage_route w i n =
     bind (query (get_lineage i n)) (\<lambda>found. project (lineage_body w) (or_404 found))"

definition get_training_run_route :: "wire \<Rightarrow> uuid \<Rightarrow> json program" where
  [route_defs]: "get_training_run_route w i =
     project (training_run_out w) (get_training_run_or_404 i)"

definition list_checkpoints_route :: "wire \<Rightarrow> uuid \<Rightarrow> json program" where
  [route_defs]: "list_checkpoints_route w i =
     bind (get_training_run_or_404 i)
       (\<lambda>_. project (\<lambda>xs. JArr (map (checkpoint_body w) xs)) (query (checkpoints_list_for_run i)))"

definition list_training_metrics_route :: "wire \<Rightarrow> uuid \<Rightarrow> int option \<Rightarrow> int option \<Rightarrow> json program" where
  [route_defs]: "list_training_metrics_route w i limit offset =
     with_page 50 500 limit offset (\<lambda>l k.
       bind (get_training_run_or_404 i) (\<lambda>_.
       project (page_out (training_metric_body w) l k) (query (training_metrics_list_for_run i l k))))"

definition get_evaluation_config_route :: "wire \<Rightarrow> uuid \<Rightarrow> json program" where
  [route_defs]: "get_evaluation_config_route w i =
     project (evaluation_config_out w) (get_evaluation_config_or_404 i)"

definition get_evaluation_route :: "wire \<Rightarrow> uuid \<Rightarrow> json program" where
  [route_defs]: "get_evaluation_route w i =
     project (evaluation_out w) (get_evaluation_or_404 i)"

definition get_evaluation_results_route :: "wire \<Rightarrow> uuid \<Rightarrow> int option \<Rightarrow> int option \<Rightarrow> json program" where
  [route_defs]: "get_evaluation_results_route w i limit offset =
     with_page 50 500 limit offset (\<lambda>l k. project (page_out (evaluation_result_body w) l k) (list_results i l k))"

definition get_evaluation_quality_gates_route :: "wire \<Rightarrow> uuid \<Rightarrow> json program" where
  [route_defs]: "get_evaluation_quality_gates_route w i =
     project (gate_results_body w i) (list_quality_gate_results i)"

fun serve_get :: "wire \<Rightarrow> get_request \<Rightarrow> json program" where
  "serve_get w (GetJob i) = get_job_route w i"
| "serve_get w (ListJobs limit offset) = list_jobs_route w limit offset"
| "serve_get w (ListAttempts i) = list_attempts_route w i"
| "serve_get w (ListSchedulingDecisions i) = list_scheduling_decisions_route w i"
| "serve_get w GetCapacity = get_capacity"
| "serve_get w (ListDlq limit offset) = list_dlq_route w limit offset"
| "serve_get w (GetArtifact i) = get_artifact_route w i"
| "serve_get w (ListArtifacts st limit offset) = list_artifacts_route w st limit offset"
| "serve_get w (GetDataset i) = get_dataset_route w i"
| "serve_get w (ListDatasetVersions i limit offset) = list_dataset_versions_route w i limit offset"
| "serve_get w (GetDatasetVersion i n) = get_dataset_version_route w i n"
| "serve_get w (GetModel i) = get_model_route w i"
| "serve_get w (ListModelVersions i limit offset) = list_model_versions_route w i limit offset"
| "serve_get w (GetModelVersion i n) = get_model_version_route w i n"
| "serve_get w (GetModelVersionLineage i n) = get_model_version_lineage_route w i n"
| "serve_get w (GetTrainingRun i) = get_training_run_route w i"
| "serve_get w (ListCheckpoints i) = list_checkpoints_route w i"
| "serve_get w (ListTrainingMetrics i limit offset) = list_training_metrics_route w i limit offset"
| "serve_get w (GetOutput i) = get_output w i"
| "serve_get w (GetEvaluationConfig i) = get_evaluation_config_route w i"
| "serve_get w (GetEvaluation i) = get_evaluation_route w i"
| "serve_get w (GetEvaluationMetrics i) = get_evaluation_metrics w i"
| "serve_get w (GetEvaluationResults i limit offset) = get_evaluation_results_route w i limit offset"
| "serve_get w (GetEvaluationQualityGates i) = get_evaluation_quality_gates_route w i"

subsection \<open>Writing\<close>

text \<open>What a request meets: the settings, the hash and the object store, what other processes commit in
  the middle of it, and its clock.\<close>

record environment =
  en_cfg :: settings
  en_hash :: "bytes \<Rightarrow> string"
  en_put :: "string \<Rightarrow> bytes \<Rightarrow> exn option"
  en_get :: "string \<Rightarrow> exn + bytes"
  en_others :: "db \<Rightarrow> db"
  en_now :: time
  en_later :: time

definition API_UPLOADER :: string where
  "API_UPLOADER = ''api''"

definition create_job_route :: "wire \<Rightarrow> environment \<Rightarrow> job_create \<Rightarrow> json program" where
  [route_defs]: "create_job_route w en p =
     project (job_out w) (create_job (en_now en) p)"

definition update_job_route :: "wire \<Rightarrow> environment \<Rightarrow> uuid \<Rightarrow> job_update \<Rightarrow> json program" where
  [route_defs]: "update_job_route w en i p =
     project (job_out w) (update_job i p)"

definition delete_job_route :: "wire \<Rightarrow> environment \<Rightarrow> uuid \<Rightarrow> json program" where
  [route_defs]: "delete_job_route w en i =
     project (\<lambda>_. JNull) (delete_job (en_now en) i)"

definition cancel_job_route :: "wire \<Rightarrow> environment \<Rightarrow> uuid \<Rightarrow> json program" where
  [route_defs]: "cancel_job_route w en i =
     project (job_out w) (cancel_job (en_now en) i)"

definition upload_artifact_route :: "wire \<Rightarrow> environment \<Rightarrow> string \<Rightarrow> uuid option \<Rightarrow> int option \<Rightarrow> bytes \<Rightarrow> json program" where
  [route_defs]: "upload_artifact_route w en ty j n data =
     project (artifact_out w)
       (upload_artifact (en_cfg en) (en_hash en) (en_put en) (en_get en) (en_others en) (en_now en) (en_later en)
          data ty API_UPLOADER j n)"

definition create_dataset_route :: "wire \<Rightarrow> environment \<Rightarrow> string \<Rightarrow> string option \<Rightarrow> json program" where
  [route_defs]: "create_dataset_route w en name description =
     project (dataset_out w) (datasets_create (en_now en) name description)"

definition create_dataset_version_route :: "wire \<Rightarrow> environment \<Rightarrow> uuid \<Rightarrow> bytes \<Rightarrow> json program" where
  [route_defs]: "create_dataset_version_route w en i data =
     project (dataset_version_out w)
       (create_dataset_version (en_cfg en) (en_hash en) (en_put en) (en_get en) (en_others en) (en_now en) (en_later en)
          i data API_UPLOADER)"

definition create_model_route :: "wire \<Rightarrow> environment \<Rightarrow> string \<Rightarrow> string option \<Rightarrow> json program" where
  [route_defs]: "create_model_route w en name description =
     project (model_out w) (models_create (en_now en) name description)"

definition register_model_version_route :: "wire \<Rightarrow> environment \<Rightarrow> uuid \<Rightarrow> uuid \<Rightarrow> uuid option \<Rightarrow> json program" where
  [route_defs]: "register_model_version_route w en m a r =
     project (model_version_out w) (register_version (en_others en) (en_now en) m a r)"

definition create_training_run_route :: "wire \<Rightarrow> environment \<Rightarrow> training_run_create \<Rightarrow> json program" where
  [route_defs]: "create_training_run_route w en p =
     project (training_run_out w) (create_training_run (en_others en) (en_now en) p)"

definition create_evaluation_config_route :: "wire \<Rightarrow> environment \<Rightarrow> evaluation_config_create \<Rightarrow> json program" where
  [route_defs]: "create_evaluation_config_route w en p =
     project (evaluation_config_out w) (create_evaluation_config (en_now en) p)"

definition create_evaluation_route :: "wire \<Rightarrow> environment \<Rightarrow> evaluation_create \<Rightarrow> json program" where
  [route_defs]: "create_evaluation_route w en p =
     project (evaluation_out w) (create_evaluation (en_others en) (en_now en) p)"

definition evaluate_quality_gate_route :: "wire \<Rightarrow> environment \<Rightarrow> uuid \<Rightarrow> uuid \<Rightarrow> json program" where
  [route_defs]: "evaluate_quality_gate_route w en e g =
     project (gate_verdict_body w) (evaluate_quality_gate (en_others en) (en_now en) e g)"

definition create_quality_gate_route :: "wire \<Rightarrow> environment \<Rightarrow> string \<Rightarrow> json \<Rightarrow> json program" where
  [route_defs]: "create_quality_gate_route w en name rules =
     project (quality_gate_out w) (create_quality_gate (en_now en) name rules)"

fun handle_write :: "wire \<Rightarrow> environment \<Rightarrow> write_request \<Rightarrow> json program" where
  "handle_write w en (CreateJob p) = create_job_route w en p"
| "handle_write w en (UpdateJob i p) = update_job_route w en i p"
| "handle_write w en (DeleteJob i) = delete_job_route w en i"
| "handle_write w en (CancelJob i) = cancel_job_route w en i"
| "handle_write w en (UploadArtifact ty j n data) = upload_artifact_route w en ty j n data"
| "handle_write w en (CreateDataset name description) = create_dataset_route w en name description"
| "handle_write w en (CreateDatasetVersion i data) = create_dataset_version_route w en i data"
| "handle_write w en (CreateModel name description) = create_model_route w en name description"
| "handle_write w en (RegisterModelVersion m a r) = register_model_version_route w en m a r"
| "handle_write w en (CreateTrainingRun p) = create_training_run_route w en p"
| "handle_write w en (CreateEvaluationConfig p) = create_evaluation_config_route w en p"
| "handle_write w en (CreateEvaluation p) = create_evaluation_route w en p"
| "handle_write w en (EvaluateQualityGate e g) = evaluate_quality_gate_route w en e g"
| "handle_write w en (CreateQualityGate name rules) = create_quality_gate_route w en name rules"

definition serve_write :: "wire \<Rightarrow> environment \<Rightarrow> write_request \<Rightarrow> json program" where
  "serve_write w en r = (if payload_valid r then handle_write w en r else raise (HTTPException 422))"

fun success_code :: "write_request \<Rightarrow> nat" where
  "success_code (UpdateJob _ _) = 200"
| "success_code (CancelJob _) = 200"
| "success_code (EvaluateQualityGate _ _) = 200"
| "success_code (DeleteJob _) = 204"
| "success_code _ = 201"

text \<open>An HTTPException is its status, any other exception a 500, and so is a body with a float that JSON
  does not have: the response is rendered with \<^verbatim>\<open>allow_nan=False\<close>.\<close>

definition respond :: "nat \<Rightarrow> json program \<Rightarrow> db \<Rightarrow> nat \<times> json option" where
  "respond success m d =
     (case result m d of
        Inl (HTTPException c) \<Rightarrow> (c, None)
      | Inl _ \<Rightarrow> (500, None)
      | Inr body \<Rightarrow> if storable body then (success, Some body) else (500, None))"

subsection \<open>Health\<close>

text \<open>The probe of the database, \<open>ping\<close>, is a parameter: the exception it raises, if any.\<close>

definition is_ready :: "exn option \<Rightarrow> bool" where
  "is_ready ping = (case ping of None \<Rightarrow> True | Some _ \<Rightarrow> False)"

definition healthz :: "nat \<times> json option" where
  "healthz = (200, Some (JObj [(''status'', JStr ''ok'')]))"

definition readyz :: "exn option \<Rightarrow> nat \<times> json option" where
  "readyz ping = (if \<not> is_ready ping then (503, Some (JObj [(''status'', JStr ''unavailable'')]))
     else (200, Some (JObj [(''status'', JStr ''ready'')])))"

end
