(* ===== verification/RouteSafety.thy ===== *)
theory RouteSafety
  imports Routes TrainingSafety
begin

text \<open>
  The HTTP interface against the system: a request commits only what the system's steps do, a GET
  changes nothing and answers 200, 404, 409 or 422 while every stored float is finite, what a POST
  answers is what the GET of its identifier answers, and the pages of a list are the list.
\<close>

subsection \<open>Programs whose result is rendered\<close>

lemma project_run: "project f m s = (case m s of (Inl e, s') \<Rightarrow> (Inl e, s') | (Inr x, s') \<Rightarrow> (Inr (f x), s'))"
  by (simp add: project_def bind_def ret_def split: prod.split sum.split)

lemma project_db [simp]: "commits (project f m) d = commits m d" "final_db (project f m) d = final_db m d"
  by (simp_all add: commits_def final_db_def project_run split: prod.split sum.split)

lemma project_result: "result (project f m) d = map_sum id f (result m d)"
  by (simp add: result_def project_run split: prod.split sum.split)

subsection \<open>Requests are runs of the system\<close>

lemma delete_commits:
  assumes "d' \<in> set (commits (delete_job now jid) d)"
  shows "d' = d \<or> (\<exists>j. d' \<in> set (commits (jobs_soft_delete now j) d))"
proof (cases "find_job jid d")
  case None
  with assms show ?thesis by (simp add: run_defs prog_defs)
next
  case (Some j)
  then have "commits (delete_job now jid) d = commits (jobs_soft_delete now j) d"
    by (simp add: commits_def delete_job_def get_job_def jobs_get_def bind_def query_def ret_def begin_session_def
        split: prod.split sum.split)
  with assms show ?thesis by auto
qed

lemma request_runs:
  assumes "\<And>x. (system_step (en_cfg en))\<^sup>*\<^sup>* x (en_others en x)"
    and "d' \<in> set (commits (serve_write w en r) d)"
  shows "(system_step (en_cfg en))\<^sup>*\<^sup>* d d'"
proof (cases "payload_valid r")
  case False
  with assms(2) have "d' = d" by (simp add: serve_write_def run_defs prog_defs)
  then show ?thesis by simp
next
  case True
  with assms(2) have c: "d' \<in> set (commits (handle_write w en r) d)" by (simp add: serve_write_def)
  have "d' = d \<or> system_step (en_cfg en) d d'"
    using c by (cases r)
      (auto simp: route_defs dest!: delete_commits intro: assms(1) system_step.job [OF t_create] system_step.job [OF t_patch]
        system_step.job [OF t_cancel_job] system_step.job [OF t_delete] system_step.upload system_step.dataset
        system_step.dataset_version system_step.model system_step.model_version system_step.training_run
        system_step.evaluation_config system_step.evaluation system_step.gate system_step.decision)
  then show ?thesis by auto
qed


subsection \<open>What a GET answers\<close>

text \<open>The rows a request names, as a sum: an error or the body.\<close>

definition found_or_404 :: "('a \<Rightarrow> json) \<Rightarrow> 'a option \<Rightarrow> exn + json" where
  "found_or_404 f x = (case x of None \<Rightarrow> Inl (HTTPException 404) | Some y \<Rightarrow> Inr (f y))"

lemma run_or_404: "or_404 found s = (case found of None \<Rightarrow> (Inl (HTTPException 404), s) | Some x \<Rightarrow> (Inr x, s))"
  by (simp add: or_404_def raise_def ret_def split: option.split)

lemmas get_or_404_defs = get_dataset_or_404_def get_dataset_version_or_404_def get_model_or_404_def get_model_version_or_404_def
  get_training_run_or_404_def get_evaluation_config_or_404_def get_evaluation_or_404_def artifacts_get_def get_job_def jobs_get_def
  list_dataset_versions_def list_model_versions_def list_metrics_def list_results_def list_quality_gate_results_def
  route_defs get_capacity_def capacity_get_def get_output_def get_evaluation_metrics_def list_jobs_def

fun page_valid :: "get_request \<Rightarrow> bool" where
  "page_valid (ListJobs l k) = (pred_option (\<lambda>l. 1 \<le> l \<and> l \<le> 200) l \<and> pred_option (\<lambda>k. 0 \<le> k) k)"
| "page_valid (ListDlq l k) = (pred_option (\<lambda>l. 1 \<le> l \<and> l \<le> 200) l \<and> pred_option (\<lambda>k. 0 \<le> k) k)"
| "page_valid (ListArtifacts _ l k) = (pred_option (\<lambda>l. 1 \<le> l \<and> l \<le> 200) l \<and> pred_option (\<lambda>k. 0 \<le> k) k)"
| "page_valid (ListDatasetVersions _ l k) = (pred_option (\<lambda>l. 1 \<le> l \<and> l \<le> 200) l \<and> pred_option (\<lambda>k. 0 \<le> k) k)"
| "page_valid (ListModelVersions _ l k) = (pred_option (\<lambda>l. 1 \<le> l \<and> l \<le> 200) l \<and> pred_option (\<lambda>k. 0 \<le> k) k)"
| "page_valid (ListTrainingMetrics _ l k) = (pred_option (\<lambda>l. 1 \<le> l \<and> l \<le> 500) l \<and> pred_option (\<lambda>k. 0 \<le> k) k)"
| "page_valid (GetEvaluationResults _ l k) = (pred_option (\<lambda>l. 1 \<le> l \<and> l \<le> 500) l \<and> pred_option (\<lambda>k. 0 \<le> k) k)"
| "page_valid _ = True"

text \<open>\<open>reads d E Q m\<close>: from the view \<open>d\<close> the program changes nothing and ends with an exception of \<open>E\<close> or
  a value of \<open>Q\<close>.\<close>

definition reads :: "db \<Rightarrow> (exn \<Rightarrow> bool) \<Rightarrow> ('a \<Rightarrow> bool) \<Rightarrow> 'a program \<Rightarrow> bool" where
  "reads d E Q m \<longleftrightarrow> (\<forall>s. work s = d \<longrightarrow> snd (m s) = s \<and> (case fst (m s) of Inl e \<Rightarrow> E e | Inr x \<Rightarrow> Q x))"

named_theorems reads_intros

lemma reads_ret [reads_intros]: "Q x \<Longrightarrow> reads d E Q (ret x)"
  by (simp add: reads_def ret_def)

lemma reads_raise [reads_intros]: "E e \<Longrightarrow> reads d E Q (raise e)"
  by (simp add: reads_def raise_def)

lemma reads_query [reads_intros]: "Q (f d) \<Longrightarrow> reads d E Q (query f)"
  by (simp add: reads_def query_def)

lemma reads_query_checked [reads_intros]:
  "(\<And>e. f d = Inl e \<Longrightarrow> E e) \<Longrightarrow> (\<And>x. f d = Inr x \<Longrightarrow> Q x) \<Longrightarrow> reads d E Q (query_checked f)"
  by (simp add: reads_def query_checked_def split: sum.split)

lemma reads_bind:
  assumes "reads d E P m" and "\<And>x. P x \<Longrightarrow> reads d E Q (f x)"
  shows "reads d E Q (bind m f)"
  unfolding reads_def
proof (intro allI impI)
  fix s :: session assume s: "work s = d"
  obtain r s' where m: "m s = (r, s')" by fastforce
  from assms(1) s m have r: "s' = s" "case r of Inl e \<Rightarrow> E e | Inr x \<Rightarrow> P x" by (auto simp: reads_def)
  show "snd (bind m f s) = s \<and> (case fst (bind m f s) of Inl e \<Rightarrow> E e | Inr x \<Rightarrow> Q x)"
  proof (cases r)
    case (Inr x)
    with r have "reads d E Q (f x)" by (intro assms(2)) simp
    with s m r Inr show ?thesis by (simp add: bind_def reads_def)
  qed (use m r in \<open>simp add: bind_def\<close>)
qed

lemma reads_query_bind [reads_intros]: "reads d E Q (f (g d)) \<Longrightarrow> reads d E Q (bind (query g) f)"
  by (simp add: reads_def bind_def query_def)

lemma reads_project [reads_intros]: "reads d E (\<lambda>x. Q (f x)) m \<Longrightarrow> reads d E Q (project f m)"
  unfolding reads_def project_run by (fastforce split: prod.split sum.splits)

lemma reads_option [reads_intros]:
  "(x = None \<Longrightarrow> reads d E Q m) \<Longrightarrow> (\<And>y. x = Some y \<Longrightarrow> reads d E Q (f y)) \<Longrightarrow> reads d E Q (case x of None \<Rightarrow> m | Some y \<Rightarrow> f y)"
  by (cases x) auto

lemma reads_or_404: "E (HTTPException 404) \<Longrightarrow> (\<And>x. found = Some x \<Longrightarrow> Q x) \<Longrightarrow> reads d E Q (or_404 found)"
  unfolding or_404_def by (intro reads_intros) auto

lemma reads_query_checked_bind [reads_intros]:
  "(\<And>e. f d = Inl e \<Longrightarrow> E e) \<Longrightarrow> (\<And>x. f d = Inr x \<Longrightarrow> reads d E Q (g x)) \<Longrightarrow> reads d E Q (bind (query_checked f) g)"
  by (cases "f d") (simp_all add: reads_def bind_def query_checked_def)

lemma reads_found_bind [reads_intros]:
  "E e \<Longrightarrow> (\<And>x. found = Some x \<Longrightarrow> reads d E Q (f x)) \<Longrightarrow>
   reads d E Q (bind (case found of None \<Rightarrow> raise e | Some x \<Rightarrow> ret x) f)"
  by (simp add: reads_def bind_def raise_def ret_def split: option.split)

lemma bind_assoc: "bind (bind m f) g = bind m (\<lambda>x. bind (f x) g)"
  by (simp add: fun_eq_iff bind_def split: prod.split sum.split)

lemma reads_if [reads_intros]:
  "(c \<Longrightarrow> reads d E Q m) \<Longrightarrow> (\<not> c \<Longrightarrow> reads d E Q m') \<Longrightarrow> reads d E Q (if c then m else m')"
  by simp

lemma reads_page:
  assumes "pred_option (\<lambda>l. 1 \<le> l \<and> l \<le> int most) limit" and "pred_option (\<lambda>k. 0 \<le> k) offset" and "1 \<le> preset" and "preset \<le> most"
    and "\<And>l k. 1 \<le> l \<Longrightarrow> l \<le> most \<Longrightarrow> reads d E Q (f l k)"
  shows "reads d E Q (with_page preset most limit offset f)"
  using assms by (auto simp: with_page_def Let_def split: option.split intro: reads_raise)

lemma reads_result:
  assumes "reads d E Q m"
  shows "case result m d of Inl e \<Rightarrow> E e | Inr x \<Rightarrow> Q x" and "commits m d = [d]" and "final_db m d = d"
  using assms by (auto simp: reads_def run_defs)

text \<open>Every float the responses show is finite, and so is every difference of two metric values.\<close>

definition presentable :: "db \<Rightarrow> bool" where
  "presentable d \<longleftrightarrow>
     (\<forall>j \<in> set (t_jobs d). pred_option storable (j_config j))
   \<and> (\<forall>r \<in> set (t_scheduling_decisions d). storable (JFloat (s_effective_priority r)))
   \<and> (\<forall>t \<in> set (t_training_runs d). storable (tr_training_config t))
   \<and> (\<forall>m \<in> set (t_training_metrics d). storable (optional JFloat (tm_loss m)) \<and> storable (optional JFloat (tm_learning_rate m)))
   \<and> (\<forall>c \<in> set (t_evaluation_configs d). storable (ec_metric_definitions c))
   \<and> (\<forall>m \<in> set (t_evaluation_metrics d). storable (JFloat (em_metric_value m))
        \<and> (\<forall>m' \<in> set (t_evaluation_metrics d). storable (JFloat (f_sub (em_metric_value m) (em_metric_value m')))))
   \<and> (\<forall>r \<in> set (t_evaluation_results d). storable (optional JFloat (ex_score r)) \<and> storable (optional JFloat (ex_latency_ms r)))
   \<and> (\<forall>r \<in> set (t_quality_gate_results d). storable (qr_rule_results r))"

lemma storable_optional [simp]:
  "storable (optional id x) = pred_option storable x" "storable (optional JStr s)" "storable (optional JInt n)"
  "storable (optional (out_time w) t)" "storable (optional (out_uuid w) i)" "storable (out_uuid w j)" "storable (out_time w u)"
  by (simp_all add: optional_def out_uuid_def out_time_def split: option.split)

lemma storable_rows [simp]: "storable (JArr (map f xs)) \<longleftrightarrow> (\<forall>x \<in> set xs. storable (f x))"
  by (simp add: list_all_iff)

lemma storable_page [simp]: "storable (page_out f l k p) \<longleftrightarrow> (\<forall>x \<in> set (fst p). storable (f x))"
  by (simp add: page_out_def list_all_iff)

lemma storable_found [simp]:
  "storable (optional (job_columns w) j) = pred_option (\<lambda>j. pred_option storable (j_config j)) j"
  "storable (optional (artifact_columns w) a)"
  "storable (optional (training_run_out w) t) = pred_option (\<lambda>t. storable (tr_training_config t)) t"
  "storable (optional (dataset_out w) x)" "storable (optional (dataset_version_out w) v)" "storable (optional (model_version_out w) y)"
  by (simp_all add: optional_def job_columns_def artifact_columns_def training_run_out_def dataset_out_def dataset_version_out_def
      model_version_out_def split: option.split)

lemmas bodies = job_out_def scheduling_decision_out_def capacity_out_def attempt_out_def dlq_entry_out_def
  artifact_out_def dataset_out_def dataset_version_out_def model_out_def model_version_out_def training_run_out_def
  checkpoint_body_def training_metric_body_def output_body_def lineage_body_def evaluation_config_out_def evaluation_out_def
  evaluation_metric_body_def evaluation_result_body_def gate_result_item_def gate_results_body_def

lemma find_rows:
  "find_job i d = Some j \<Longrightarrow> j \<in> set (t_jobs d)" "find_training_run r d = Some t \<Longrightarrow> t \<in> set (t_training_runs d)"
  "find_evaluation_config c d = Some x \<Longrightarrow> x \<in> set (t_evaluation_configs d)"
  by (auto simp: find_job_def find_training_run_def find_evaluation_config_def dest: sql_one_SomeD)

lemma listed_rows:
  "x \<in> set (attempts_list_for_job i d) \<Longrightarrow> x \<in> set (t_attempts d)"
  "r \<in> set (decisions_list_for_job i d) \<Longrightarrow> r \<in> set (t_scheduling_decisions d)"
  "j \<in> set (fst (jobs_list l k d)) \<Longrightarrow> j \<in> set (t_jobs d)"
  "m \<in> set (fst (training_metrics_list_for_run i l k d)) \<Longrightarrow> m \<in> set (t_training_metrics d)"
  "e \<in> set (fst (evaluation_results_list_for_run i l k d)) \<Longrightarrow> e \<in> set (t_evaluation_results d)"
  "n \<in> set (evaluation_metrics_list_for_run i d) \<Longrightarrow> n \<in> set (t_evaluation_metrics d)"
  "q \<in> set (gate_results_list_for_run i d) \<Longrightarrow> q \<in> set (t_quality_gate_results d)"
  by (auto simp: attempts_list_for_job_def decisions_list_for_job_def jobs_list_def training_metrics_list_for_run_def
      evaluation_results_list_for_run_def evaluation_metrics_list_for_run_def gate_results_list_for_run_def Let_def
      dest!: in_set_takeD in_set_dropD)

lemma presentableD:
  assumes "presentable d"
  shows "j \<in> set (t_jobs d) \<Longrightarrow> pred_option storable (j_config j)"
    and "r \<in> set (t_scheduling_decisions d) \<Longrightarrow> storable (JFloat (s_effective_priority r))"
    and "t \<in> set (t_training_runs d) \<Longrightarrow> storable (tr_training_config t)"
    and "m \<in> set (t_training_metrics d) \<Longrightarrow> storable (optional JFloat (tm_loss m))"
    and "m \<in> set (t_training_metrics d) \<Longrightarrow> storable (optional JFloat (tm_learning_rate m))"
    and "c \<in> set (t_evaluation_configs d) \<Longrightarrow> storable (ec_metric_definitions c)"
    and "n \<in> set (t_evaluation_metrics d) \<Longrightarrow> storable (JFloat (em_metric_value n))"
    and "n \<in> set (t_evaluation_metrics d) \<Longrightarrow> n' \<in> set (t_evaluation_metrics d) \<Longrightarrow>
         storable (JFloat (f_sub (em_metric_value n) (em_metric_value n')))"
    and "x \<in> set (t_evaluation_results d) \<Longrightarrow> storable (optional JFloat (ex_score x))"
    and "x \<in> set (t_evaluation_results d) \<Longrightarrow> storable (optional JFloat (ex_latency_ms x))"
    and "q \<in> set (t_quality_gate_results d) \<Longrightarrow> storable (qr_rule_results q)"
  using assms by (simp_all add: presentable_def del: storable.simps)

lemma shown:
  assumes "presentable d"
  shows "find_job i d = Some j \<Longrightarrow> pred_option storable (j_config j)"
    and "j \<in> set (fst (jobs_list l k d)) \<Longrightarrow> pred_option storable (j_config j)"
    and "r \<in> set (decisions_list_for_job i d) \<Longrightarrow> storable (JFloat (s_effective_priority r))"
    and "find_training_run i d = Some t \<Longrightarrow> storable (tr_training_config t)"
    and "m \<in> set (fst (training_metrics_list_for_run i l k d)) \<Longrightarrow> storable (optional JFloat (tm_loss m))"
    and "m \<in> set (fst (training_metrics_list_for_run i l k d)) \<Longrightarrow> storable (optional JFloat (tm_learning_rate m))"
    and "find_evaluation_config i d = Some c \<Longrightarrow> storable (ec_metric_definitions c)"
    and "n \<in> set (evaluation_metrics_list_for_run i d) \<Longrightarrow> storable (JFloat (em_metric_value n))"
    and "x \<in> set (fst (evaluation_results_list_for_run i l k d)) \<Longrightarrow> storable (optional JFloat (ex_score x))"
    and "x \<in> set (fst (evaluation_results_list_for_run i l k d)) \<Longrightarrow> storable (optional JFloat (ex_latency_ms x))"
    and "q \<in> set (gate_results_list_for_run i d) \<Longrightarrow> storable (qr_rule_results q)"
  by (erule presentableD(1) [OF assms find_rows(1)] presentableD(1) [OF assms listed_rows(3)] presentableD(2) [OF assms listed_rows(2)]
      presentableD(3) [OF assms find_rows(2)] presentableD(4) [OF assms listed_rows(4)] presentableD(5) [OF assms listed_rows(4)]
      presentableD(6) [OF assms find_rows(3)] presentableD(7) [OF assms listed_rows(6)] presentableD(9) [OF assms listed_rows(5)]
      presentableD(10) [OF assms listed_rows(5)] presentableD(11) [OF assms listed_rows(7)])+

lemma lineage_shown:
  assumes "presentable d" and "get_lineage mid v d = Some lin"
  shows "pred_option (\<lambda>t. storable (tr_training_config t)) (ln_training_run lin)"
    and "pred_option (\<lambda>j. pred_option storable (j_config j)) (ln_job lin)"
proof -
  have "pred_option (\<lambda>j. pred_option storable (j_config j)) (find_job i d)" for i
    by (cases "find_job i d") (auto dest: shown(1) [OF assms(1)])
  moreover have "pred_option (\<lambda>t. storable (tr_training_config t)) (find_training_run i d)" for i
    by (cases "find_training_run i d") (auto dest: shown(4) [OF assms(1)])
  ultimately show "pred_option (\<lambda>t. storable (tr_training_config t)) (ln_training_run lin)"
    "pred_option (\<lambda>j. pred_option storable (j_config j)) (ln_job lin)"
    using assms(2) by (auto simp: get_lineage_def lineage_of_def Let_def split: option.splits dest: shown(4) [OF assms(1)])
qed

lemma metric_map_rows: "(n, v) \<in> set (metric_map i sp d) \<Longrightarrow> \<exists>m \<in> set (t_evaluation_metrics d). v = em_metric_value m"
  by (auto simp: metric_map_def)

lemma metric_values_shown:
  assumes "presentable d" and "(n, v) \<in> set (metric_map i sp d)"
  shows "storable (JFloat v)"
    and "(n', v') \<in> set (metric_map i' sp' d) \<Longrightarrow> storable (JFloat (f_sub v v'))"
  using assms(2) presentableD(7,8) [OF assms(1)] by (auto dest!: metric_map_rows simp del: storable.simps)

lemma float_map_storable: "storable (float_map kvs) \<longleftrightarrow> (\<forall>(n, v) \<in> set kvs. storable (JFloat v))"
  by (auto simp: float_map_def list_all_iff)

lemma deltas_storable:
  assumes "presentable d" and "compute_baseline_deltas run d = Inr (Some b)"
  shows "storable (baseline_body w b)"
proof -
  from assms(2) obtain i where b: "bc_candidate_metrics b = metric_map (er_id run) ''all'' d"
      "bc_baseline_metrics b = metric_map i ''all'' d"
      "bc_deltas b = metric_deltas (metric_map (er_id run) ''all'' d) (metric_map i ''all'' d)"
    by (auto simp: compute_baseline_deltas_def resolve_baseline_metrics_def Let_def split: sum.splits option.splits if_splits)
  have shown_map: "storable (float_map (metric_map i sp d))" for i sp
    unfolding float_map_storable using metric_values_shown(1) [OF assms(1)] by blast
  have "storable (float_map (bc_deltas b))"
    unfolding float_map_storable b metric_deltas_def
    using metric_values_shown(2) [OF assms(1)] by (fastforce dest: map_of_SomeD simp del: storable.simps)
  then show ?thesis using shown_map unfolding baseline_body_def b by simp
qed

lemma deltas_error: "compute_baseline_deltas run d = Inl e \<Longrightarrow> e = HTTPException 409"
  by (auto simp: compute_baseline_deltas_def resolve_baseline_metrics_def Let_def split: sum.splits option.splits if_splits)

lemma metrics_storable:
  assumes "presentable d"
  shows "list_all storable (map (evaluation_metric_body w) (evaluation_metrics_list_for_run i d))"
  using shown(8) [OF assms] by (auto simp: list_all_iff evaluation_metric_body_def simp del: storable.simps(1))

lemma serve_get_reads:
  assumes "presentable d" and "t_capacity d \<noteq> None" and "page_valid g"
  shows "reads d (\<lambda>e. e = HTTPException 404 \<or> e = HTTPException 409 \<and> (\<exists>i. g = GetEvaluationMetrics i)) storable (serve_get w g)"
  using assms(2,3)
proof (cases g)
  case (GetEvaluationMetrics i)
  then show ?thesis
    using metrics_storable [OF assms(1)] deltas_storable [OF assms(1)]
    by (auto simp: get_or_404_defs evaluation_metrics_body_def optional_def bind_assoc dest: deltas_error
        intro!: reads_intros split: option.split)
qed (auto simp: get_or_404_defs bodies bind_assoc list_all_iff intro!: reads_intros reads_page reads_or_404
    intro: shown [OF assms(1)] lineage_shown [OF assms(1)] simp del: storable.simps(1))

lemma page_invalid: "\<not> page_valid g \<Longrightarrow> serve_get w g s = (Inl (HTTPException 422), s)"
  by (cases g) (auto simp: route_defs with_page_def raise_def Let_def split: option.split)


subsection \<open>Reading what was written\<close>

definition lands :: "('a \<Rightarrow> db \<Rightarrow> bool) \<Rightarrow> 'a program \<Rightarrow> bool" where
  "lands P m \<longleftrightarrow> (\<forall>s x s'. m s = (Inr x, s') \<longrightarrow> P x (hd (durable s')))"

lemma lands_bind: "(\<And>y. lands P (f y)) \<Longrightarrow> lands P (bind m f)"
  unfolding lands_def bind_def by (auto split: prod.splits sum.splits)

lemma lands_raise: "lands P (raise e)"
  by (simp add: lands_def raise_def)

lemma lands_if: "(c \<Longrightarrow> lands P m) \<Longrightarrow> (\<not> c \<Longrightarrow> lands P m') \<Longrightarrow> lands P (if c then m else m')"
  by simp

lemma lands_option: "lands P m \<Longrightarrow> (\<And>y. lands P (f y)) \<Longrightarrow> lands P (case x of None \<Rightarrow> m | Some y \<Rightarrow> f y)"
  by (cases x) auto

lemmas lands_rules = lands_raise lands_if lands_option

lemma sql_one_appended: "i \<notin> k ` set xs \<Longrightarrow> k x = i \<Longrightarrow> q x \<Longrightarrow> sql_one (\<lambda>r. k r = i \<and> q r) (xs @ [x]) = Some x"
  "i \<notin> k ` set xs \<Longrightarrow> k x = i \<Longrightarrow> sql_one (\<lambda>r. k r = i) (xs @ [x]) = Some x"
  by (induction xs) auto

lemma lands_inserts:
  "lands (\<lambda>j d. find_job (j_id j) d = Some j) (create_job now p)"
  "lands (\<lambda>x d. find_dataset (ds_id x) d = Some x) (datasets_create now name description)"
  "lands (\<lambda>x d. find_model (m_id x) d = Some x) (models_create now name description)"
  "lands (\<lambda>x d. find_training_run (tr_id x) d = Some x) (training_runs_create t)"
  "lands (\<lambda>x d. find_evaluation_config (ec_id x) d = Some x) (create_evaluation_config now ec)"
  "lands (\<lambda>x d. find_evaluation_run (er_id x) d = Some x) (evaluation_runs_create e)"
proof -
  show "lands (\<lambda>j d. find_job (j_id j) d = Some j) (create_job now p)"
    unfolding lands_def
  proof (intro allI impI)
    fix s s' :: session and j assume run: "create_job now p s = (Inr j, s')"
    then have c: "pred_option storable (jc_config p)" using create_job_run(2) by fastforce
    have "j_id (created_job now p (work s)) \<notin> j_id ` set (t_jobs (work s))"
      and "j_deleted_at (created_job now p (work s)) = None"
      by (simp_all add: created_job_def new_job_def)
    then show "find_job (j_id j) (hd (durable s')) = Some j"
      using run create_job_run(1) [OF c, of now s] by (auto simp: find_job_def intro!: sql_one_appended)
  qed
qed (auto simp: lands_def datasets_create_def models_create_def training_runs_create_def create_evaluation_config_def
    evaluation_runs_create_def insert_or_fail_def prog_defs find_dataset_def find_model_def find_training_run_def
    find_evaluation_config_def find_evaluation_run_def new_evaluation_config_def split: if_splits intro!: sql_one_appended(2) dest: fresh_id_newD)

text \<open>The creating requests and the GET of what they created.\<close>

fun created :: "write_request \<Rightarrow> (uuid \<Rightarrow> get_request) option" where
  "created (CreateJob _) = Some GetJob"
| "created (CreateDataset _ _) = Some GetDataset"
| "created (CreateModel _ _) = Some GetModel"
| "created (CreateTrainingRun _) = Some GetTrainingRun"
| "created (CreateEvaluationConfig _) = Some GetEvaluationConfig"
| "created (CreateEvaluation _) = Some GetEvaluation"
| "created _ = None"

lemma lands_services:
  "lands (\<lambda>x d. find_training_run (tr_id x) d = Some x) (create_training_run others now tc)"
  "lands (\<lambda>x d. find_evaluation_run (er_id x) d = Some x) (create_evaluation others now ev)"
  unfolding create_training_run_def create_evaluation_def
  by (rule lands_bind lands_rules lands_inserts)+

lemma lands_result:
  assumes "lands P m" and "result (project f m) d = Inr body"
  obtains x where "body = f x" and "P x (final_db m d)"
  using assms by (cases "m (begin_session d)")
    (auto simp: lands_def result_def final_db_def project_run begin_session_def split: sum.splits)

lemma get_run:
  "result (serve_get w (GetJob i)) d = (case find_job i d of None \<Rightarrow> Inl (HTTPException 404) | Some x \<Rightarrow> Inr (job_out w x))"
  "result (serve_get w (GetDataset i)) d = (case find_dataset i d of None \<Rightarrow> Inl (HTTPException 404) | Some x \<Rightarrow> Inr (dataset_out w x))"
  "result (serve_get w (GetModel i)) d = (case find_model i d of None \<Rightarrow> Inl (HTTPException 404) | Some x \<Rightarrow> Inr (model_out w x))"
  "result (serve_get w (GetTrainingRun i)) d
     = (case find_training_run i d of None \<Rightarrow> Inl (HTTPException 404) | Some x \<Rightarrow> Inr (training_run_out w x))"
  "result (serve_get w (GetEvaluationConfig i)) d
     = (case find_evaluation_config i d of None \<Rightarrow> Inl (HTTPException 404) | Some x \<Rightarrow> Inr (evaluation_config_out w x))"
  "result (serve_get w (GetEvaluation i)) d
     = (case find_evaluation_run i d of None \<Rightarrow> Inl (HTTPException 404) | Some x \<Rightarrow> Inr (evaluation_out w x))"
  by (simp_all add: project_run get_or_404_defs run_defs prog_defs split: option.split)

text \<open>A row that can be found, rendered by both requests in the same way.\<close>

lemma created_found:
  assumes "lands (\<lambda>x d. look (k x) d = Some x) m" and "result (project f m) d = Inr body"
    and "\<And>x. \<exists>kvs. f x = JObj kvs \<and> obj_get ''id'' kvs = out_uuid w (k x)"
    and "\<And>i d. result (serve_get w (g i)) d = (case look i d of None \<Rightarrow> Inl (HTTPException 404) | Some x \<Rightarrow> Inr (f x))"
  shows "\<exists>i kvs. body = JObj kvs \<and> obj_get ''id'' kvs = out_uuid w i \<and> result (serve_get w (g i)) (final_db m d) = Inr body"
proof -
  obtain x where x: "body = f x" "look (k x) (final_db m d) = Some x" by (rule lands_result [OF assms(1,2)])
  with assms(3) [of x] assms(4) [of "k x"] show ?thesis by (intro exI [of _ "k x"]) auto
qed

lemma rendered_ids:
  "\<exists>kvs. job_out w j = JObj kvs \<and> obj_get ''id'' kvs = out_uuid w (j_id j)"
  "\<exists>kvs. dataset_out w x = JObj kvs \<and> obj_get ''id'' kvs = out_uuid w (ds_id x)"
  "\<exists>kvs. model_out w m = JObj kvs \<and> obj_get ''id'' kvs = out_uuid w (m_id m)"
  "\<exists>kvs. training_run_out w t = JObj kvs \<and> obj_get ''id'' kvs = out_uuid w (tr_id t)"
  "\<exists>kvs. evaluation_config_out w c = JObj kvs \<and> obj_get ''id'' kvs = out_uuid w (ec_id c)"
  "\<exists>kvs. evaluation_out w e = JObj kvs \<and> obj_get ''id'' kvs = out_uuid w (er_id e)"
  by (simp_all add: obj_get_def job_out_def dataset_out_def model_out_def training_run_out_def evaluation_config_out_def
      evaluation_out_def)

lemmas created_by = created_found [OF lands_inserts(1) _ rendered_ids(1) get_run(1)]
  created_found [OF lands_inserts(2) _ rendered_ids(2) get_run(2)] created_found [OF lands_inserts(3) _ rendered_ids(3) get_run(3)]
  created_found [OF lands_services(1) _ rendered_ids(4) get_run(4)] created_found [OF lands_inserts(5) _ rendered_ids(5) get_run(5)]
  created_found [OF lands_services(2) _ rendered_ids(6) get_run(6)]

text \<open>C37: What a creating POST answers is what the GET of the identifier in the answer returns afterwards, with whatever
  races before the row is written.\<close>

theorem read_your_writes:
  assumes "created r = Some g" and "result (serve_write w en r) d = Inr body"
  shows "\<exists>i kvs. body = JObj kvs \<and> obj_get ''id'' kvs = out_uuid w i
     \<and> result (serve_get w (g i)) (final_db (serve_write w en r) d) = Inr body"
proof -
  have "payload_valid r" using assms(2) by (auto simp: serve_write_def run_defs raise_def split: if_splits)
  with assms(2) have res: "result (handle_write w en r) d = Inr body"
    and fin: "final_db (serve_write w en r) d = final_db (handle_write w en r) d" by (simp_all add: serve_write_def)
  show ?thesis
    using assms(1) res unfolding fin by (cases r) (auto simp: route_defs dest!: created_by simp del: serve_get.simps)
qed

subsection \<open>Pages\<close>

text \<open>The rows a list request ranges over, in the order of the request; none if the request is no
  list or what it lists the rows of does not exist.\<close>

fun listing :: "wire \<Rightarrow> db \<Rightarrow> get_request \<Rightarrow> json list option" where
  "listing w d (ListJobs _ _) = Some (map (job_out w)
     (sort_key (\<lambda>j. - j_created_at j) (sql_select (\<lambda>j. j_deleted_at j = None) (t_jobs d))))"
| "listing w d (ListDlq _ _) = Some (map (dlq_entry_out w) (sort_key (\<lambda>e. - d_moved_to_dlq_at e) (t_dlq d)))"
| "listing w d (ListArtifacts st _ _) = Some (map (artifact_out w) (sort_key (\<lambda>a. - f_created_at a)
     (case st of None \<Rightarrow> t_artifacts d | Some st \<Rightarrow> sql_select (\<lambda>a. artifact_status_value (f_status a) = st) (t_artifacts d))))"
| "listing w d (ListDatasetVersions i _ _) = (if find_dataset i d = None then None
     else Some (map (dataset_version_out w) (sort_key (\<lambda>v. - dv_version_number v)
       (sql_select (\<lambda>v. dv_dataset_id v = i) (t_dataset_versions d)))))"
| "listing w d (ListModelVersions i _ _) = (if find_model i d = None then None
     else Some (map (model_version_out w) (sort_key (\<lambda>v. - mv_version_number v)
       (sql_select (\<lambda>v. mv_model_id v = i) (t_model_versions d)))))"
| "listing w d (ListTrainingMetrics i _ _) = (if find_training_run i d = None then None
     else Some (map (training_metric_body w) (sort_key tm_step
       (sql_select (\<lambda>m. tm_training_run_id m = i) (t_training_metrics d)))))"
| "listing w d (GetEvaluationResults i _ _) = (if find_evaluation_run i d = None then None
     else Some (map (evaluation_result_body w) (sort_key ex_example_id
       (sql_select (\<lambda>r. ex_evaluation_run_id r = i) (t_evaluation_results d)))))"
| "listing w d _ = None"

fun at_page :: "get_request \<Rightarrow> nat \<Rightarrow> nat \<Rightarrow> get_request" where
  "at_page (ListJobs _ _) l k = ListJobs (Some (int l)) (Some (int k))"
| "at_page (ListDlq _ _) l k = ListDlq (Some (int l)) (Some (int k))"
| "at_page (ListArtifacts st _ _) l k = ListArtifacts st (Some (int l)) (Some (int k))"
| "at_page (ListDatasetVersions i _ _) l k = ListDatasetVersions i (Some (int l)) (Some (int k))"
| "at_page (ListModelVersions i _ _) l k = ListModelVersions i (Some (int l)) (Some (int k))"
| "at_page (ListTrainingMetrics i _ _) l k = ListTrainingMetrics i (Some (int l)) (Some (int k))"
| "at_page (GetEvaluationResults i _ _) l k = GetEvaluationResults i (Some (int l)) (Some (int k))"
| "at_page g _ _ = g"

definition items_of :: "exn + json \<Rightarrow> json list" where
  "items_of r = (case r of Inr (JObj kvs) \<Rightarrow> (case obj_get ''items'' kvs of JArr xs \<Rightarrow> xs | _ \<Rightarrow> []) | _ \<Rightarrow> [])"

lemma items_page [simp]: "items_of (Inr (page_out f l k (rows, n))) = map f rows"
  by (simp add: items_of_def page_out_def obj_get_def)

lemma page_run:
  assumes "listing w d g = Some rows" and "1 \<le> l" and "l \<le> 200"
  shows "items_of (result (serve_get w (at_page g l k)) d) = take l (drop k rows)"
proof -
  from assms(2,3) have page: "with_page preset 200 (Some (int l)) (Some (int k)) f = f l k"
    "with_page preset 500 (Some (int l)) (Some (int k)) f = f l k" for preset and f :: "nat \<Rightarrow> nat \<Rightarrow> json program"
    by (simp_all add: with_page_def)
  note eval = page project_run get_or_404_defs run_defs prog_defs jobs_list_def dlq_list_def artifacts_list_def
    datasets_list_versions_def models_list_versions_def training_metrics_list_for_run_def evaluation_results_list_for_run_def
    Let_def take_map drop_map
  show ?thesis
    using assms by (cases g) (auto simp: eval split: option.splits if_splits)
qed

lemma concat_pages: "concat (map (\<lambda>k. take l (drop (k * l) xs)) [0..<n]) = take (n * l) xs"
proof (induction n)
  case (Suc n)
  then show ?case using take_add [of "n * l" l xs] by (simp add: add.commute)
qed simp


subsection \<open>A loss that is no number\<close>

text \<open>C40: Once the owner of the attempt has recorded a loss that is not finite, the metrics of the run are
  answered with 500: the row is stored, and the body cannot be rendered.\<close>

theorem infinite_loss_hides_metrics:
  assumes "owns jid wk n d" and "find_training_run rid d = Some t" and "\<not> storable (JFloat loss)"
    and "metric_report step loss (JFloat rate) = JObj kvs" and "- (2 ^ 31) \<le> step" and "step < 2 ^ 31"
    and "rowcount (\<lambda>m. tm_training_run_id m = rid) (t_training_metrics d) < 500"
    and "d' = final_db (record_training_metric_event now jid wk rid n kvs) d"
  shows "respond 200 (serve_get w (ListTrainingMetrics rid (Some 500) None)) d' = (500, None)"
proof -
  have has: "has_training_run rid d"
    using assms(2) by (auto simp: has_training_run_def find_training_run_def sql_exists_iff dest: sql_one_SomeD)
  let ?m = "\<lparr>tm_id = fresh_id (map tm_id (t_training_metrics d)), tm_training_run_id = rid, tm_attempt_number = n, tm_step = step,
      tm_loss = Some loss, tm_learning_rate = Some rate, tm_gpu_memory_allocated_mb = None, tm_recorded_at = now\<rparr>"
  have kvs: "kvs = [(''event'', JStr ''metric''), (''step'', JInt step), (''loss'', JFloat loss), (''learning_rate'', JFloat rate)]"
    using assms(4) by (simp add: metric_report_def)
  have d': "d' = d\<lparr>t_training_metrics := t_training_metrics d @ [?m]\<rparr>"
    using assms(1,5,6) has unfolding assms(8) kvs
    by (simp add: record_training_metric_event_def training_metrics_record_def insert_select_def key_get_def obj_get_def
        lift_sum_def prog_defs run_defs)
  let ?rows = "sort_key tm_step (sql_select (\<lambda>m. tm_training_run_id m = rid) (t_training_metrics d'))"
  have len: "length ?rows \<le> 500" using assms(7) by (simp add: d' sql_select_def rowcount_def)
  have row: "?m \<in> set ?rows" by (simp add: d' sql_select_def)
  have page: "result (serve_get w (ListTrainingMetrics rid (Some 500) None)) d'
      = Inr (page_out (training_metric_body w) 500 0 (?rows, length ?rows))"
    using assms(2) len by (simp add: with_page_def project_run get_or_404_defs run_defs prog_defs d' find_training_run_def
        training_metrics_list_for_run_def Let_def)
  have "\<not> storable (training_metric_body w ?m)"
    using assms(3) by (simp add: training_metric_body_def optional_def del: storable.simps(1))
  with row have "\<not> storable (page_out (training_metric_body w) 500 0 (?rows, length ?rows))" by auto
  then show ?thesis unfolding respond_def page by (simp del: storable_page)
qed

subsection \<open>Sample requests\<close>

definition sample_wire :: wire where
  "sample_wire = \<lparr>wr_uuid = (\<lambda>_. ''id''), wr_time = (\<lambda>_. ''time'')\<rparr>"

definition sample_environment :: environment where
  "sample_environment = \<lparr>en_cfg = default_settings, en_hash = sample_hash, en_put = (\<lambda>_ _. None), en_get = sample_objects,
     en_others = (\<lambda>d. d), en_now = 20, en_later = 21\<rparr>"

definition sample_served :: db where
  "sample_served = sample_training_db\<lparr>t_capacity := Some \<lparr>total_cpu = 4, allocated_cpu = 0, total_memory_mb = 4096,
     allocated_memory_mb = 0, total_gpu = 0, allocated_gpu = 0\<rparr>\<rparr>"

lemma sample_presentable: "presentable sample_served"
  by (simp add: presentable_def sample_served_def sample_training_db_defs)



theorem read_your_writes_witness:
  "\<exists>i. result (serve_get sample_wire (GetDataset i))
       (final_db (serve_write sample_wire sample_environment (CreateDataset ''d'' None)) empty_db)
     = Inr (dataset_out sample_wire \<lparr>ds_id = 1, ds_name = ''d'', ds_description = None, ds_created_at = 20\<rparr>)"
proof -
  have "result (serve_write sample_wire sample_environment (CreateDataset ''d'' None)) empty_db
     = Inr (dataset_out sample_wire \<lparr>ds_id = 1, ds_name = ''d'', ds_description = None, ds_created_at = 20\<rparr>)"
    by (simp add: serve_write_def route_defs text_between_def project_result)
      (simp add: datasets_create_def insert_or_fail_def sample_environment_def empty_db_def run_defs prog_defs fresh_id_def)
  from read_your_writes [OF _ this, of GetDataset] show ?thesis by (auto simp del: serve_get.simps)
qed


theorem infinite_loss_hides_metrics_witness:
  "respond 200 (serve_get sample_wire (ListTrainingMetrics 1 (Some 500) None))
     (final_db (record_training_metric_event 9 1 ''w1'' 1 1
        [(''event'', JStr ''metric''), (''step'', JInt 3), (''loss'', JFloat NaN), (''learning_rate'', JFloat (Fin 1))]) sample_training_db)
   = (500, None)"
  by (rule infinite_loss_hides_metrics [OF _ _ _ _ _ _ _ refl, where t = sample_run and loss = NaN and rate = "Fin 1" and step = 3])
    (simp_all add: metric_report_def find_training_run_def owns_def sql_exists_iff holds_lease_def sample_training_db_defs)

end
