(* ===== verification/Scrape.thy ===== *)
theory Scrape
  imports Metrics EvaluationSafety
begin

text \<open>
  The operational metrics (app/metrics.py): what a scrape computes from the tables.  A metric
  family is its constructor in the client library, its name and its samples, each a list of label
  values and a float; the help texts and the exposition format are left out.  The rows of a
  \<^verbatim>\<open>GROUP BY\<close> are in the order of first occurrence here; PostgreSQL promises none.
\<close>

subsection \<open>Families\<close>

datatype metric_family =
    CounterMetricFamily string "string list" "(string list \<times> pyfloat) list"
  | GaugeMetricFamily string "string list" "(string list \<times> pyfloat) list"
  | HistogramMetricFamily string "(string \<times> pyfloat) list" pyfloat

text \<open>The edges, each with \<^verbatim>\<open>str(edge)\<close>.\<close>

definition DURATION_BUCKETS :: "(string \<times> pyfloat) list" where
  "DURATION_BUCKETS = [(''0.05'', fl (1/20)), (''0.1'', fl (1/10)), (''0.25'', fl (1/4)), (''0.5'', fl (1/2)),
     (''1.0'', fl 1), (''2.5'', fl (5/2)), (''5.0'', fl 5), (''10.0'', fl 10), (''30.0'', fl 30), (''60.0'', fl 60),
     (''300.0'', fl 300)]"

definition float_of :: "nat \<Rightarrow> pyfloat" where
  "float_of n = fl (of_nat n)"

subsection \<open>Histograms\<close>

text \<open>The inner loop: what is left of the observations, how many were passed and their sum.\<close>

fun pass_until :: "(pyfloat \<Rightarrow> bool) \<Rightarrow> pyfloat list \<Rightarrow> nat \<Rightarrow> pyfloat \<Rightarrow> pyfloat list \<times> nat \<times> pyfloat" where
  "pass_until inside [] cumulative summed = ([], cumulative, summed)"
| "pass_until inside (x # xs) cumulative summed =
     (if inside x then pass_until inside xs (Suc cumulative) (f_add summed x) else (x # xs, cumulative, summed))"

fun fill_buckets ::
  "(string \<times> pyfloat) list \<Rightarrow> pyfloat list \<Rightarrow> nat \<Rightarrow> pyfloat \<Rightarrow> (string \<times> pyfloat) list \<times> pyfloat" where
  "fill_buckets [] ordered cumulative summed =
     (case pass_until (\<lambda>_. True) ordered cumulative summed of (rest, c, t) \<Rightarrow> ([(''+Inf'', float_of c)], t))"
| "fill_buckets ((label, edge) # edges) ordered cumulative summed =
     (case pass_until (\<lambda>x. f_le x edge) ordered cumulative summed of (rest, c, t) \<Rightarrow>
       (case fill_buckets edges rest c t of (buckets, sum_value) \<Rightarrow> ((label, float_of c) # buckets, sum_value)))"

definition histogram_from_durations :: "string \<Rightarrow> pyfloat list \<Rightarrow> metric_family" where
  "histogram_from_durations name durations =
     (case fill_buckets DURATION_BUCKETS (py_sorted durations) 0 (Fin 0) of (buckets, summed) \<Rightarrow>
       HistogramMetricFamily name buckets summed)"

subsection \<open>Counts\<close>

definition grouped_jobs :: "(job \<Rightarrow> bool) \<Rightarrow> db \<Rightarrow> (string list \<times> pyfloat) list" where
  "grouped_jobs p d =
     (let rows = sql_select p (t_jobs d)
      in map (\<lambda>t. ([t], float_of (rowcount (\<lambda>j. j_job_type j = t) rows))) (remdups (map j_job_type rows)))"

definition retried_attempts :: "db \<Rightarrow> nat" where
  "retried_attempts d = rowcount (\<lambda>a. 1 < a_attempt_number a) (t_attempts d)"

definition queued_jobs :: "db \<Rightarrow> nat" where
  "queued_jobs d = rowcount (\<lambda>j. j_status j = QUEUED) (t_jobs d)"

definition running_jobs :: "db \<Rightarrow> nat" where
  "running_jobs d = rowcount (\<lambda>j. j_status j = RUNNING) (t_jobs d)"

definition pending_events :: "db \<Rightarrow> nat" where
  "pending_events d = rowcount (\<lambda>o'. o_published_at o' = None) (t_outbox d)"

definition active_reservations :: "db \<Rightarrow> nat" where
  "active_reservations d = rowcount (\<lambda>r. r_status r = ACTIVE) (t_reservations d)"

definition evaluation_runs_total :: "db \<Rightarrow> nat" where
  "evaluation_runs_total d = length (t_evaluation_runs d)"

definition evaluation_failures :: "db \<Rightarrow> nat" where
  "evaluation_failures d = rowcount (\<lambda>e. er_status e = FAILED) (t_evaluation_runs d)"

definition checkpoints_total :: "db \<Rightarrow> nat" where
  "checkpoints_total d = length (t_checkpoints d)"

definition resumes_total :: "db \<Rightarrow> nat" where
  "resumes_total d = rowcount (\<lambda>r. rd_resumed_from_step r \<noteq> None) (t_attempt_resume_decisions d)"

subsection \<open>Durations\<close>

text \<open>\<^verbatim>\<open>EXTRACT(EPOCH FROM (end - start))\<close> as a float, for the rows that have both and did not end before
  they began.\<close>

definition elapsed :: "time \<Rightarrow> time option \<Rightarrow> pyfloat list" where
  "elapsed start finish =
     (case finish of None \<Rightarrow> []
      | Some t \<Rightarrow> let seconds = fl (of_int (t - start) / 1000000) in if f_le (Fin 0) seconds then [seconds] else [])"

definition attempt_durations :: "attempt_status \<Rightarrow> db \<Rightarrow> pyfloat list" where
  "attempt_durations st d =
     concat (map (\<lambda>a. elapsed (a_started_at a) (a_finished_at a)) (sql_select (\<lambda>a. a_status a = st) (t_attempts d)))"

definition evaluation_durations :: "db \<Rightarrow> pyfloat list" where
  "evaluation_durations d =
     concat (map (\<lambda>e. elapsed (er_created_at e) (er_completed_at e))
       (sql_select (\<lambda>e. er_status e = SUCCEEDED) (t_evaluation_runs d)))"

subsection \<open>The scrape\<close>

definition capacity_samples :: "(capacity \<Rightarrow> int) \<Rightarrow> (capacity \<Rightarrow> int) \<Rightarrow> (capacity \<Rightarrow> int) \<Rightarrow> db \<Rightarrow> (string list \<times> pyfloat) list" where
  "capacity_samples cpu mem gpu d =
     (case t_capacity d of None \<Rightarrow> []
      | Some c \<Rightarrow> [([''cpu''], fl (of_int (cpu c))), ([''memory_mb''], fl (of_int (mem c))), ([''gpu''], fl (of_int (gpu c)))])"

definition platform_metrics :: "db \<Rightarrow> metric_family list" where
  "platform_metrics d =
    [CounterMetricFamily ''jobs_created'' [''job_type''] (grouped_jobs (\<lambda>_. True) d),
     CounterMetricFamily ''jobs_completed'' [''job_type''] (grouped_jobs (\<lambda>j. j_status j = SUCCEEDED) d),
     CounterMetricFamily ''jobs_failed'' [''job_type''] (grouped_jobs (\<lambda>j. j_status j = FAILED) d),
     CounterMetricFamily ''jobs_retried'' [] [([], float_of (retried_attempts d))],
     GaugeMetricFamily ''job_queue_depth'' [] [([], float_of (queued_jobs d))],
     GaugeMetricFamily ''worker_active_jobs'' [] [([], float_of (running_jobs d))],
     GaugeMetricFamily ''outbox_pending'' [] [([], float_of (pending_events d))],
     GaugeMetricFamily ''scheduler_reservations'' [] [([], float_of (active_reservations d))],
     GaugeMetricFamily ''scheduler_capacity_allocated'' [''resource'']
       (capacity_samples allocated_cpu allocated_memory_mb allocated_gpu d),
     GaugeMetricFamily ''scheduler_capacity_total'' [''resource''] (capacity_samples total_cpu total_memory_mb total_gpu d),
     CounterMetricFamily ''evaluation_runs'' [] [([], float_of (evaluation_runs_total d))],
     CounterMetricFamily ''evaluation_failures'' [] [([], float_of (evaluation_failures d))],
     CounterMetricFamily ''checkpoint_created'' [] [([], float_of (checkpoints_total d))],
     CounterMetricFamily ''checkpoint_resume'' [] [([], float_of (resumes_total d))],
     histogram_from_durations ''job_execution_seconds'' (attempt_durations ASucceeded d),
     histogram_from_durations ''job_recovery_seconds'' (attempt_durations ALost d),
     histogram_from_durations ''evaluation_duration_seconds'' (evaluation_durations d)]"

section \<open>The histogram is the cumulative count\<close>

definition f_ordered :: "pyfloat list \<Rightarrow> bool" where
  "f_ordered xs \<longleftrightarrow> sorted_wrt f_le xs \<and> (\<forall>x \<in> set xs. \<not> f_isnan x)"

lemma f_insert_set: "set (f_insert x xs) = insert x (set xs)" "mset (f_insert x xs) = add_mset x (mset xs)"
  by (induction xs) auto

lemma f_insert_ordered: "f_ordered xs \<Longrightarrow> \<not> f_isnan x \<Longrightarrow> f_ordered (f_insert x xs)"
proof (induction xs)
  case (Cons y ys)
  then show ?case
    using f_le_total [of x y] f_le_trans [of x y] f_le_refl [of x]
    by (auto simp: f_ordered_def f_insert_set f_lt_iff)
qed (simp add: f_ordered_def)

lemma py_sorted_ordered: "\<forall>x \<in> set xs. \<not> f_isnan x \<Longrightarrow> f_ordered (py_sorted xs)" "mset (py_sorted xs) = mset xs"
  unfolding py_sorted_def by (induction xs) (auto simp: f_insert_ordered f_insert_set, simp add: f_ordered_def)

text \<open>On an ordered list the loop takes exactly the observations within the bound, and leaves the others.\<close>

lemma pass_until_run:
  "pass_until inside xs c t = (dropWhile inside xs, c + length (takeWhile inside xs), foldl f_add t (takeWhile inside xs))"
  by (induction xs arbitrary: c t) auto

lemma takeWhile_ordered:
  assumes "f_ordered xs"
  shows "takeWhile (\<lambda>x. f_le x e) xs = filter (\<lambda>x. f_le x e) xs" and "dropWhile (\<lambda>x. f_le x e) xs = filter (\<lambda>x. \<not> f_le x e) xs"
proof -
  have "takeWhile (\<lambda>x. f_le x e) xs = filter (\<lambda>x. f_le x e) xs \<and> dropWhile (\<lambda>x. f_le x e) xs = filter (\<lambda>x. \<not> f_le x e) xs"
    using assms
  proof (induction xs)
    case (Cons y ys)
    show ?case
    proof (cases "f_le y e")
      case False
      then have "\<forall>x \<in> set ys. \<not> f_le x e" using Cons.prems f_le_trans by (auto simp: f_ordered_def)
      with False show ?thesis by (auto simp: filter_empty_conv filter_id_conv)
    qed (use Cons in \<open>simp add: f_ordered_def\<close>)
  qed simp
  then show "takeWhile (\<lambda>x. f_le x e) xs = filter (\<lambda>x. f_le x e) xs" "dropWhile (\<lambda>x. f_le x e) xs = filter (\<lambda>x. \<not> f_le x e) xs"
    by simp_all
qed

definition cumulative_histogram :: "string \<Rightarrow> pyfloat list \<Rightarrow> metric_family" where
  "cumulative_histogram name durations =
     HistogramMetricFamily name
       (map (\<lambda>(label, edge). (label, float_of (length (filter (\<lambda>x. f_le x edge) durations)))) DURATION_BUCKETS
          @ [(''+Inf'', float_of (length durations))])
       (foldl f_add (Fin 0) (py_sorted durations))"

lemma fill_buckets_exact:
  assumes "sorted_wrt f_le (map snd edges)" and "f_ordered xs"
  shows "fill_buckets edges xs c t =
     (map (\<lambda>(label, edge). (label, float_of (c + length (filter (\<lambda>x. f_le x edge) xs)))) edges
        @ [(''+Inf'', float_of (c + length xs))], foldl f_add t xs)"
  using assms
proof (induction edges arbitrary: xs c t)
  case Nil
  have all: "takeWhile (\<lambda>_. True) xs = xs" by (induction xs) simp_all
  show ?case by (simp add: pass_until_run all)
next
  case (Cons le edges)
  obtain label edge where le: "le = (label, edge)" by fastforce
  let ?below = "filter (\<lambda>x. f_le x edge) xs" and ?above = "filter (\<lambda>x. \<not> f_le x edge) xs"
  have above: "f_ordered ?above" using Cons.prems(2) by (simp add: f_ordered_def sorted_wrt_filter)
  have split: "length ?below + length (filter (\<lambda>x. \<not> f_le x edge \<and> f_le x e) xs) = length (filter (\<lambda>x. f_le x e) xs)" if "f_le edge e" for e
    using that f_le_trans by (induction xs) auto
  have edges: "f_le edge e" if "(l, e) \<in> set edges" for l e
    using Cons.prems(1) that by (force simp: le)
  have total: "foldl f_add (foldl f_add t ?below) ?above = foldl f_add t xs"
    using takeWhile_ordered [OF Cons.prems(2), of edge] takeWhile_dropWhile_id [of "\<lambda>x. f_le x edge" xs]
    by (metis foldl_append)
  have "length ?below + length ?above = length xs" by (rule sum_length_filter_compl)
  then show ?case
    using Cons.IH [OF _ above] Cons.prems takeWhile_ordered [OF Cons.prems(2), of edge]
    by (auto simp: le pass_until_run total split edges add.assoc)
qed

lemma edges_sorted: "sorted_wrt f_le (map snd DURATION_BUCKETS)"
  by (auto simp: DURATION_BUCKETS_def intro: f_le_Fin_fl)

lemma histogram_cumulative:
  assumes "\<forall>x \<in> set ds. \<not> f_isnan x"
  shows "histogram_from_durations name ds = cumulative_histogram name ds"
proof -
  have count: "length (filter p (py_sorted ds)) = length (filter p ds)" for p
    using py_sorted_ordered(2) [of ds] by (metis mset_filter size_mset)
  have len: "length (py_sorted ds) = length ds"
    using py_sorted_ordered(2) [of ds] by (metis size_mset)
  show ?thesis
    by (simp add: histogram_from_durations_def cumulative_histogram_def count len
        fill_buckets_exact [OF edges_sorted py_sorted_ordered(1) [OF assms]])
qed

lemma durations_numbers:
  "\<forall>x \<in> set (attempt_durations st d). \<not> f_isnan x" "\<forall>x \<in> set (evaluation_durations d). \<not> f_isnan x"
  by (auto simp: attempt_durations_def evaluation_durations_def elapsed_def Let_def split: option.splits if_splits)

text \<open>C35: The histograms of a scrape are cumulative counts: for any state the one pass over the sorted
  durations yields, for every edge, the number of observations up to it, for \<^verbatim>\<open>+Inf\<close> the number of all
  of them, and as sum their sum in ascending order.\<close>

theorem histograms_exact:
  "histogram_from_durations name (attempt_durations st d) = cumulative_histogram name (attempt_durations st d)
   \<and> histogram_from_durations name (evaluation_durations d) = cumulative_histogram name (evaluation_durations d)"
  by (simp add: histogram_cumulative durations_numbers)

section \<open>Counters\<close>

lemma count_le_by_key:
  assumes "distinct (map k xs)" and "distinct (map k ys)"
    and "\<And>x. x \<in> set xs \<Longrightarrow> p x \<Longrightarrow> \<exists>y \<in> set ys. q y \<and> k y = k x"
  shows "rowcount p xs \<le> rowcount q ys"
proof -
  have card: "rowcount r zs = card (k ` {z \<in> set zs. r z})" if "distinct (map k zs)" for r zs
    using that distinct_card [of "map k (filter r zs)"] distinct_map_filter [of k zs r] by (simp add: rowcount_def)
  have "k ` {x \<in> set xs. p x} \<subseteq> k ` {y \<in> set ys. q y}" using assms(3) by (auto simp: image_iff) metis
  then show ?thesis by (simp add: card [OF assms(1)] card [OF assms(2)] card_mono)
qed

lemma rowcount_all: "rowcount (\<lambda>_. True) xs = length xs"
  by (simp add: rowcount_def)

text \<open>The sample of a group is its count.\<close>

definition group_count :: "(job \<Rightarrow> bool) \<Rightarrow> string \<Rightarrow> db \<Rightarrow> nat" where
  "group_count p t d = rowcount (\<lambda>j. p j \<and> j_job_type j = t) (t_jobs d)"

lemma grouped_jobs_count:
  "map_of (grouped_jobs p d) [t] = (if group_count p t d = 0 then None else Some (float_of (group_count p t d)))"
proof -
  let ?rows = "sql_select p (t_jobs d)"
  have rows: "rowcount (\<lambda>j. j_job_type j = t) ?rows = group_count p t d" for t
    by (simp add: group_count_def rowcount_def sql_select_def)
  have look: "map_of (map (\<lambda>t. ([t], h t)) ts) [t] = (if t \<in> set ts then Some (h t) else None)" for h :: "string \<Rightarrow> pyfloat" and ts
    by (induction ts) auto
  have "t \<in> set (remdups (map j_job_type ?rows)) \<longleftrightarrow> group_count p t d \<noteq> 0"
    by (auto simp: group_count_def rowcount_def sql_select_def filter_empty_conv)
  then show ?thesis by (simp add: grouped_jobs_def Let_def rows look)
qed

text \<open>No transaction takes back an attempt.\<close>

definition retried_at_least :: "nat \<Rightarrow> db \<Rightarrow> bool" where
  "retried_at_least k d \<longleftrightarrow> k \<le> retried_attempts d"

lemma rowcount_append: "rowcount p (xs @ ys) = rowcount p xs + rowcount p ys"
  by (simp add: rowcount_def)

lemma retried_sql_update:
  assumes "\<And>a. a_attempt_number (f a) = a_attempt_number a"
  shows "rowcount (\<lambda>a. 1 < a_attempt_number a) (sql_update p f t) = rowcount (\<lambda>a. 1 < a_attempt_number a) t"
  by (induction t) (simp_all add: assms)

lemma retried_execute:
  "(\<And>d. rowcount (\<lambda>a. 1 < a_attempt_number a) (t_attempts d) \<le> rowcount (\<lambda>a. 1 < a_attempt_number a) (t_attempts (f d))) \<Longrightarrow>
   keeps (retried_at_least k) (execute f)"
  by (rule keeps_execute) (simp add: retried_at_least_def retried_attempts_def order_trans)

lemma retried_update_jobs: "keeps (retried_at_least k) (update_jobs p f)"
  by (simp add: keeps_def kept_def durable_ok_def update_jobs_def retried_at_least_def retried_attempts_def)

lemma retried_jobs_repo:
  "keeps (retried_at_least k) (jobs_conditional_transition jid vf st id c)"
  "keeps (retried_at_least k) (jobs_set_cancel_requested jid)"
  "keeps (retried_at_least k) (jobs_claim now jid w ls)"
  "keeps (retried_at_least k) (jobs_heartbeat now jid w n ls)"
  "keeps (retried_at_least k) (jobs_finalize_attempt jid w n st ex c)"
  "keeps (retried_at_least k) (jobs_reclaim_stale now jid ma t c)"
  "keeps (retried_at_least k) (jobs_clear_retry_dispatched jid)"
  "keeps (retried_at_least k) (jobs_update j u)"
  "keeps (retried_at_least k) (jobs_soft_delete now j)"
  "keeps (retried_at_least k) (jobs_create_and_enqueue j QUEUED)"
  unfolding jobs_get_def jobs_conditional_transition_def jobs_set_cancel_requested_def jobs_claim_def
    jobs_heartbeat_def jobs_finalize_attempt_def jobs_reclaim_stale_def jobs_clear_retry_dispatched_def
    jobs_update_def jobs_soft_delete_def jobs_create_and_enqueue_def
  by (intro keeps_intros retried_update_jobs retried_execute; simp)+

lemma retried_history:
  "keeps (retried_at_least k) (release_reservation now jid n)"
  "keeps (retried_at_least k) (attempts_insert now jid n w)"
  "keeps (retried_at_least k) (attempts_finalize now jid n ast em ec fd c)"
  "keeps (retried_at_least k) (attempts_mark_lost now jid n w c)"
  "keeps (retried_at_least k) (dlq_insert now jid n em cls q c)"
  "keeps (retried_at_least k) (outbox_insert_event now jid et)"
  "keeps (retried_at_least k) (outbox_mark_published now oid)"
  "keeps (retried_at_least k) (decisions_insert row)"
  unfolding release_reservation_def reservations_release_def capacity_release_def
    attempts_insert_def attempts_finalize_def attempts_mark_lost_def dlq_insert_def
    outbox_insert_event_def outbox_mark_published_def decisions_insert_def Let_def
  by (intro keeps_intros retried_execute;
      simp add: retried_sql_update finish_attempt_row_def lost_set_def rowcount_append)+

lemma retried_reserve:
  assumes "durable_ok (retried_at_least k) s" and "retried_at_least k (work s)" and "\<And>a. keeps (retried_at_least k) (f a)"
  shows "kept (retried_at_least k)
    (bind (reserve_or_reject cpu mem gpu) (\<lambda>_. bind (reservations_insert now jid n cpu mem gpu) f) s)"
proof -
  have "keeps (retried_at_least k)
    (bind (reserve_or_reject cpu mem gpu) (\<lambda>_. bind (reservations_insert now jid n cpu mem gpu) f))"
    unfolding reserve_or_reject_def capacity_try_reserve_def capacity_get_def reservations_insert_def Let_def
    by (intro keeps_intros retried_execute assms(3)) simp_all
  with assms(1,2) show ?thesis by (rule keepsD [rotated 1])
qed

interpretation retries: job_side "retried_at_least k" for k
proof unfold_locales
  show "retried_at_least k d'" if "retried_at_least k d" "same_job_tables d d'" for d d'
    using that by (simp add: retried_at_least_def retried_attempts_def same_job_tables_def)
qed (simp_all add: retried_jobs_repo retried_history retried_reserve keepsD)

text \<open>C36: Which counters count.  Along every run of the system, from any state in which its invariants hold, the
  counters of jobs created, of jobs SUCCEEDED and of jobs FAILED do not decrease for any job type, nor do
  those of retried attempts, evaluation runs, checkpoints and resumed attempts.\<close>

theorem counters_monotone:
  assumes "(system_step cfg)\<^sup>*\<^sup>* d d'" and "records_ok d" and "job_ids_ok d"
  shows "group_count (\<lambda>_. True) t d \<le> group_count (\<lambda>_. True) t d'
     \<and> group_count (\<lambda>j. j_status j = SUCCEEDED) t d \<le> group_count (\<lambda>j. j_status j = SUCCEEDED) t d'
     \<and> group_count (\<lambda>j. j_status j = FAILED) t d \<le> group_count (\<lambda>j. j_status j = FAILED) t d'
     \<and> retried_attempts d \<le> retried_attempts d' \<and> evaluation_runs_total d \<le> evaluation_runs_total d'
     \<and> checkpoints_total d \<le> checkpoints_total d' \<and> resumes_total d \<le> resumes_total d'"
proof -
  have ev: "evolves d d'" by (rule evolves_system [OF assms(1,3)])
  have ids: "distinct (map j_id (t_jobs d))" "distinct (map j_id (t_jobs d'))"
    using ev assms(3) by (simp_all add: evolves_def job_ids_ok_def)
  have jobs: "group_count p t d \<le> group_count p t d'" if "\<And>j j'. p j \<Longrightarrow> job_evolves j j' \<Longrightarrow> p j'" for p
    unfolding group_count_def
  proof (rule count_le_by_key [OF ids])
    fix j assume j: "j \<in> set (t_jobs d)" "p j \<and> j_job_type j = t"
    then obtain j' where j': "j' \<in> set (t_jobs d')" "job_evolves j j'" using ev by (auto simp: evolves_def)
    with that j show "\<exists>j' \<in> set (t_jobs d'). (p j' \<and> j_job_type j' = t) \<and> j_id j' = j_id j"
      by (auto simp: job_evolves_def)
  qed
  have rec: "records_ok d'" "records_later d d'" using system_run_records [OF assms(1,2)] by (simp_all add: records_inv_def)
  then have keys: "record_keys d" "record_keys d'" using assms(2) by (simp_all add: records_ok_def)
  have runs: "evaluation_runs_total d \<le> evaluation_runs_total d'"
    unfolding evaluation_runs_total_def rowcount_all [symmetric]
    by (rule count_le_by_key [where k = er_id]) (use keys rec(2) in \<open>auto simp: record_keys_def records_later_def dest!: bspec same_run_id\<close>)
  have checkpoints: "checkpoints_total d \<le> checkpoints_total d'"
    unfolding checkpoints_total_def rowcount_all [symmetric]
    by (rule count_le_by_key [where k = checkpoint_key]) (use keys rec(2) in \<open>auto simp: record_keys_def records_later_def\<close>)
  have resumes: "resumes_total d \<le> resumes_total d'"
    unfolding resumes_total_def
    by (rule count_le_by_key [where k = decision_key]) (use keys rec(2) in \<open>auto simp: record_keys_def records_later_def\<close>)
  have "retried_attempts d \<le> retried_attempts d'"
    using retries.system_run [OF assms(1), of "retried_attempts d"] by (simp add: retried_at_least_def)
  moreover have "group_count (\<lambda>_. True) t d \<le> group_count (\<lambda>_. True) t d'" by (rule jobs) simp
  moreover have "group_count (\<lambda>j. j_status j = st) t d \<le> group_count (\<lambda>j. j_status j = st) t d'" if "terminal st" for st
    by (rule jobs) (use that in \<open>simp add: job_evolves_def\<close>)
  then have "group_count (\<lambda>j. j_status j = SUCCEEDED) t d \<le> group_count (\<lambda>j. j_status j = SUCCEEDED) t d'"
    "group_count (\<lambda>j. j_status j = FAILED) t d \<le> group_count (\<lambda>j. j_status j = FAILED) t d'"
    by (simp_all add: terminal_def)
  ultimately show ?thesis using runs checkpoints resumes by simp
qed

theorem counters_monotone_witness:
  "group_count (\<lambda>_. True) ''train'' sample_admitted \<le> group_count (\<lambda>_. True) ''train'' sample_started"
proof -
  have "records_ok sample_admitted"
    using system_run_records [OF sample_system_run(1) records_ok_initial] by (simp add: records_inv_def)
  from counters_monotone [OF sample_system_run(2) this job_ids_ok_admitted] show ?thesis by blast
qed

lemma rowcount_leaves:
  assumes "distinct (map k xs)" and "x \<in> set xs" and "p x" and "\<And>y. \<not> p (f y)"
  shows "rowcount p (sql_update (\<lambda>y. k y = k x) f xs) + 1 = rowcount p xs"
  using assms(1,2)
proof (induction xs)
  case (Cons y ys)
  show ?case
  proof (cases "y = x")
    case True
    then have "sql_update (\<lambda>y. k y = k x) f ys = ys" using Cons.prems(1) by (intro sql_update_unmatched) (auto simp: image_iff)
    with True assms(3,4) show ?thesis by simp
  next
    case False
    with Cons.prems have "k y \<noteq> k x" "x \<in> set ys" by auto
    with Cons show ?thesis by simp
  qed
qed simp

text \<open>And one does not: the counter of failed evaluations.  A worker that owns the job of a FAILED evaluation,
  which a retry does, marks it RUNNING again, and the counter goes down by one.\<close>

theorem failed_evaluations_decrease:
  assumes "records_ok d" and "owns jid w n d" and "e \<in> set (t_evaluation_runs d)" and "er_status e = FAILED"
  shows "evaluation_failures (final_db (mark_status now (er_id e) RUNNING False jid w n) d) + 1 = evaluation_failures d
     \<and> system_step cfg d (final_db (mark_status now (er_id e) RUNNING False jid w n) d)"
proof
  have run: "mark_status now (er_id e) RUNNING False jid w n (begin_session d)
      = (Inr (owns jid w n d \<and> has_evaluation_run (er_id e) d),
         \<lparr>work = final_db (mark_status now (er_id e) RUNNING False jid w n) d,
          durable = [final_db (mark_status now (er_id e) RUNNING False jid w n) d, d]\<rparr>)"
    and final: "final_db (mark_status now (er_id e) RUNNING False jid w n) d
      = d\<lparr>t_evaluation_runs := sql_update (\<lambda>x. er_id x = er_id e)
           (\<lambda>x. x\<lparr>er_status := RUNNING, er_completed_at := None\<rparr>) (t_evaluation_runs d)\<rparr>"
    using assms(2) by (simp_all add: mark_status_def prog_defs run_defs)
  have "distinct (map er_id (t_evaluation_runs d))" using assms(1) by (simp add: records_ok_def record_keys_def)
  from rowcount_leaves [OF this assms(3), of "\<lambda>e. er_status e = FAILED"] assms(4)
  show "evaluation_failures (final_db (mark_status now (er_id e) RUNNING False jid w n) d) + 1 = evaluation_failures d"
    by (simp add: final evaluation_failures_def)
  have "final_db (mark_status now (er_id e) RUNNING False jid w n) d
      \<in> set (commits (perform (WStatus now (er_id e) RUNNING False) jid w n) d)"
    by (simp add: commits_def run)
  then show "system_step cfg d (final_db (mark_status now (er_id e) RUNNING False jid w n) d)"
    by (rule fenced [rotated]) simp
qed

definition sample_failed_evaluation :: db where
  "sample_failed_evaluation = (sample_evaluated ''all'')\<lparr>t_jobs := [sample_running],
     t_evaluation_runs := [sample_evaluation\<lparr>er_status := FAILED, er_completed_at := None\<rparr>]\<rparr>"

theorem failed_evaluations_decrease_witness:
  "evaluation_failures (final_db (mark_status 30 1 RUNNING False 1 ''w1'' 1) sample_failed_evaluation) = 0"
proof -
  let ?e = "sample_evaluation\<lparr>er_status := FAILED, er_completed_at := None\<rparr>"
  have "records_ok sample_failed_evaluation"
    by (simp add: records_defs sample_failed_evaluation_def sample_evaluated_defs evaluation_run_ok_def has_model_version_def
        has_dataset_version_def sample_running_def sample_job_def new_job_def)
  moreover have "owns 1 ''w1'' 1 sample_failed_evaluation"
    by (simp add: owns_def sql_exists_iff holds_lease_def sample_failed_evaluation_def sample_running_def sample_job_def new_job_def)
  moreover have "?e \<in> set (t_evaluation_runs sample_failed_evaluation)" "er_status ?e = FAILED" "er_id ?e = 1"
    "evaluation_failures sample_failed_evaluation = 1"
    by (simp_all add: sample_failed_evaluation_def evaluation_failures_def sample_evaluation_def)
  ultimately show ?thesis
    using failed_evaluations_decrease [of sample_failed_evaluation 1 "''w1''" 1 ?e 30 default_settings] by simp
qed

end
