(* ===== verification/Processes.thy ===== *)
theory Processes
  imports WorkerRuns RouteSafety Scrape
begin

text \<open>
  The processes of the deployment (the \<^verbatim>\<open>main.py\<close> of worker, scheduler, recovery, outbox_relay and
  reconciler).  Each repeats: open a session, run one pass, log what it returned or raised, close the
  session, which drops what was not committed, and sleep.  A run of a process is given by its
  iterations: what the other processes commit while it sleeps, and the pass.  \<open>platform_step\<close> is one
  pass of any process, or one request of the API, cut off at any commit.
\<close>

subsection \<open>Loops\<close>

fun poll_loop :: "((db \<Rightarrow> db) \<times> 'a program) list \<Rightarrow> db \<Rightarrow> db \<times> (exn + 'a) list" where
  "poll_loop [] d = (d, [])"
| "poll_loop ((others, run_once) # iterations) d =
     (case poll_loop iterations (final_db run_once (others d)) of
        (d', logged) \<Rightarrow> (d', result run_once (others d) # logged))"

definition scheduler_process :: "settings \<Rightarrow> ((db \<Rightarrow> db) \<times> time) list \<Rightarrow> db \<Rightarrow> db \<times> (exn + (nat \<times> nat)) list" where
  "scheduler_process cfg its = poll_loop (map (\<lambda>(others, now). (others, scheduler_run_once cfg now)) its)"

definition recovery_process :: "settings \<Rightarrow> ((db \<Rightarrow> db) \<times> time \<times> rat) list \<Rightarrow> db \<Rightarrow> db \<times> (exn + (nat \<times> nat)) list" where
  "recovery_process cfg its = poll_loop (map (\<lambda>(others, now, u). (others, recovery_run_once cfg now u)) its)"

definition relay_process :: "((db \<Rightarrow> db) \<times> time \<times> (outbox \<Rightarrow> exn option)) list \<Rightarrow> db \<Rightarrow> db \<times> (exn + nat) list" where
  "relay_process its = poll_loop (map (\<lambda>(others, now, send). (others, relay_once now send)) its)"

definition reconciler_process ::
  "settings \<Rightarrow> (bytes \<Rightarrow> string) \<Rightarrow> ((db \<Rightarrow> db) \<times> time \<times> (string \<Rightarrow> exn + bytes)) list \<Rightarrow> db \<Rightarrow> db \<times> (exn + (nat \<times> nat)) list" where
  "reconciler_process cfg hash_bytes its =
     poll_loop (map (\<lambda>(others, now, get_object). (others, reconcile_pending_artifacts cfg hash_bytes get_object now)) its)"

text \<open>The worker consumes messages.  One without a job identifier, \<open>None\<close>, raises outside the handler and
  ends the process; any other is acknowledged, whatever handling it did.\<close>

fun worker_process ::
  "((db \<Rightarrow> db) \<times> uuid option \<times> (uuid \<Rightarrow> string program)) list \<Rightarrow> db \<Rightarrow> db \<times> (exn + string) list" where
  "worker_process [] d = (d, [])"
| "worker_process ((others, None, handle) # messages) d = (others d, [])"
| "worker_process ((others, Some jid, handle) # messages) d =
     (case worker_process messages (final_db (handle jid) (others d)) of
        (d', logged) \<Rightarrow> (d', result (handle jid) (others d) # logged))"

subsection \<open>The platform\<close>

text \<open>A pass that raises, or is killed, leaves the states it had committed: a step ends in any of them.
  Artifact and retry passes get the object store, the broker and the jitter as arguments; the child
  processes of a worker are quiet, as in \<open>WorkerRuns\<close>.\<close>

inductive platform_step :: "settings \<Rightarrow> db \<Rightarrow> db \<Rightarrow> bool" for cfg :: settings where
  request: "en_cfg en = cfg \<Longrightarrow> (\<And>x. (system_step cfg)\<^sup>*\<^sup>* x (en_others en x)) \<Longrightarrow>
    d' \<in> set (commits (serve_write w en r) d) \<Longrightarrow> platform_step cfg d d'"
| scheduling: "d' \<in> set (commits (scheduler_run_once cfg now) d) \<Longrightarrow> platform_step cfg d d'"
| recovery: "d' \<in> set (commits (recovery_run_once cfg now u) d) \<Longrightarrow> platform_step cfg d d'"
| relay: "d' \<in> set (commits (relay_once now send) d) \<Longrightarrow> platform_step cfg d d'"
| reconciling: "d' \<in> set (commits (reconcile_pending_artifacts cfg hb go now) d) \<Longrightarrow> platform_step cfg d d'"
| worker: "(\<And>cx. quiet cfg (ep cx)) \<Longrightarrow> (\<And>cx data. quiet_training cfg (tp cx data)) \<Longrightarrow>
    (\<And>x. (system_step cfg)\<^sup>*\<^sup>* x (others x)) \<Longrightarrow>
    d' \<in> set (commits (worker_program cfg cd hb go wd tp ep others abandoned t0 t1 t2 u jid wk) d) \<Longrightarrow>
    platform_step cfg d d'"

lemma platform_step_runs:
  assumes "platform_step cfg d d'" and "sound_state d"
  shows "(system_step cfg)\<^sup>*\<^sup>* d d'"
  using assms
proof (cases rule: platform_step.cases)
  case (request en w r)
  then show ?thesis using request_runs [of en d' w r d] by simp
next
  case (worker ep tp others cd hb go wd abandoned t0 t1 t2 u jid wk)
  show ?thesis by (rule runs_commits [OF runs_worker [OF worker(1-3)] assms(2) worker(4)])
qed (auto intro: system_step.job [OF t_schedule] system_step.job [OF t_recovery] system_step.job [OF t_relay]
    system_step.reconcile)

lemma platform_run_reachable:
  "(platform_step cfg)\<^sup>*\<^sup>* x d \<Longrightarrow> (system_step cfg)\<^sup>*\<^sup>* (initial_db cpu mem gpu) x \<Longrightarrow>
   (system_step cfg)\<^sup>*\<^sup>* (initial_db cpu mem gpu) d"
proof (induction rule: rtranclp_induct)
  case (step y z)
  then show ?case
    using platform_step_runs [OF step(2) sound_state_reachable] by (blast intro: rtranclp_trans)
qed simp

text \<open>C1: The deployed processes refine the system.  From the state the migrations leave, whatever the API,
  scheduler, workers, recovery, relay and reconciler do in any order, each cut off at any of its
  commits, is a run of the system, so the capacity is conserved and the schema of the registry, of
  training and of evaluation holds.\<close>

theorem platform_refines_system:
  assumes "(platform_step cfg)\<^sup>*\<^sup>* (initial_db cpu mem gpu) d"
  shows "(system_step cfg)\<^sup>*\<^sup>* (initial_db cpu mem gpu) d \<and> conserved d \<and> registry_ok d \<and> records_ok d"
proof -
  have run: "(system_step cfg)\<^sup>*\<^sup>* (initial_db cpu mem gpu) d"
    by (rule platform_run_reachable [OF assms rtranclp.rtrancl_refl])
  then show ?thesis
    using accounting_reachable_system [OF run] sound_state_reachable [OF run]
    by (simp add: accounting_def sound_state_def system_ok_def)
qed

subsection \<open>The loops run the platform\<close>

lemma retried_none: "retried_at_least 0 d"
  by (simp add: retried_at_least_def)

lemma pass_committed:
  "final_db (scheduler_run_once cfg now) d \<in> set (commits (scheduler_run_once cfg now) d)"
  "final_db (recovery_run_once cfg now u) d \<in> set (commits (recovery_run_once cfg now u) d)"
  "final_db (relay_once now send) d \<in> set (commits (relay_once now send) d)"
  "final_db (reconcile_pending_artifacts cfg hb go now) d \<in> set (commits (reconcile_pending_artifacts cfg hb go now) d)"
  by (rule keeps_final_in [OF retries.scheduler retried_none] keeps_final_in [OF retries.recovery retried_none]
      keeps_final_in [OF retries.relay retried_none] keeps_final_in [OF retries.art.reconcile retried_none])+

lemma poll_loop_runs:
  assumes "\<And>others m x. (others, m) \<in> set its \<Longrightarrow> S\<^sup>*\<^sup>* x (others x) \<and> S x (final_db m x)"
  shows "S\<^sup>*\<^sup>* d (fst (poll_loop its d))"
  using assms
proof (induction its arbitrary: d)
  case (Cons it its)
  obtain others m where it: "it = (others, m)" by fastforce
  have "S\<^sup>*\<^sup>* d (others d)" and "S (others d) (final_db m (others d))" using Cons(2) by (auto simp: it)
  moreover have "S\<^sup>*\<^sup>* (final_db m (others d)) (fst (poll_loop its (final_db m (others d))))"
    by (rule Cons(1)) (use Cons(2) in auto)
  ultimately show ?case by (simp add: it split_beta)
qed simp

lemma process_runs:
  "(\<And>others now x. (others, now) \<in> set its1 \<Longrightarrow> (platform_step cfg)\<^sup>*\<^sup>* x (others x)) \<Longrightarrow>
   (platform_step cfg)\<^sup>*\<^sup>* d (fst (scheduler_process cfg its1 d))"
  "(\<And>others now u x. (others, now, u) \<in> set its2 \<Longrightarrow> (platform_step cfg)\<^sup>*\<^sup>* x (others x)) \<Longrightarrow>
   (platform_step cfg)\<^sup>*\<^sup>* d (fst (recovery_process cfg its2 d))"
  "(\<And>others now send x. (others, now, send) \<in> set its3 \<Longrightarrow> (platform_step cfg)\<^sup>*\<^sup>* x (others x)) \<Longrightarrow>
   (platform_step cfg)\<^sup>*\<^sup>* d (fst (relay_process its3 d))"
  "(\<And>others now go x. (others, now, go) \<in> set its4 \<Longrightarrow> (platform_step cfg)\<^sup>*\<^sup>* x (others x)) \<Longrightarrow>
   (platform_step cfg)\<^sup>*\<^sup>* d (fst (reconciler_process cfg hb its4 d))"
  unfolding scheduler_process_def recovery_process_def relay_process_def reconciler_process_def
  by (rule poll_loop_runs; auto intro: platform_step.scheduling [OF pass_committed(1)] platform_step.recovery [OF pass_committed(2)]
      platform_step.relay [OF pass_committed(3)] platform_step.reconciling [OF pass_committed(4)])+

lemma worker_process_runs:
  assumes "\<And>others found handle x. (others, found, handle) \<in> set msgs \<Longrightarrow> (platform_step cfg)\<^sup>*\<^sup>* x (others x)"
    and "\<And>others jid handle x. (others, Some jid, handle) \<in> set msgs \<Longrightarrow> platform_step cfg x (final_db (handle jid) x)"
  shows "(platform_step cfg)\<^sup>*\<^sup>* d (fst (worker_process msgs d))"
  using assms
proof (induction msgs d rule: worker_process.induct)
  case (3 others jid handle messages d)
  have "(platform_step cfg)\<^sup>*\<^sup>* d (others d)" using 3(2) [of others "Some jid" handle] by simp
  moreover have "platform_step cfg (others d) (final_db (handle jid) (others d))" using 3(3) [of others jid handle] by simp
  moreover have "(platform_step cfg)\<^sup>*\<^sup>* (final_db (handle jid) (others d))
      (fst (worker_process messages (final_db (handle jid) (others d))))"
    by (rule 3(1)) (rule 3(2,3) [OF list.set_intros(2)], assumption)+
  ultimately show ?case by (simp add: split_beta)
qed auto

subsection \<open>A sample run\<close>

abbreviation sample_worker_pass :: "string program" where
  "sample_worker_pass \<equiv> worker_program default_settings sample_codec sample_hash (\<lambda>_. Inr ''M'') ''/w'' sample_finisher
     (\<lambda>_. undisturbed 20 ([], False)) (\<lambda>d. d) False 10 20 30 0 1 ''w1''"

lemma sample_platform_run:
  "(platform_step default_settings)\<^sup>*\<^sup>* (initial_db 4 4096 0) (final_db sample_worker_pass sample_admitted)"
proof -
  have "sample_created \<in> set (commits (serve_write sample_wire (sample_environment\<lparr>en_now := 7\<rparr>) (CreateJob sample_payload))
      (initial_db 4 4096 0))"
    using sample_created_run(2) by (simp add: serve_write_def route_defs sample_environment_def sample_payload_def job_create_valid_def)
  then have "platform_step default_settings (initial_db 4 4096 0) sample_created"
    by (rule platform_step.request [rotated 2]) (simp_all add: sample_environment_def)
  moreover have "platform_step default_settings sample_created sample_admitted"
    using sample_admitted_tables by (intro platform_step.scheduling)
  moreover have "appends sample_worker_pass"
    using runs_worker [of default_settings, OF quiet_undisturbed sample_finisher_quiet] by (simp add: runs_def)
  then have "platform_step default_settings sample_admitted (final_db sample_worker_pass sample_admitted)"
    by (intro platform_step.worker [OF quiet_undisturbed sample_finisher_quiet _ final_committed]) simp_all
  ultimately show ?thesis by (meson converse_rtranclp_into_rtranclp r_into_rtranclp)
qed

theorem platform_refines_system_witness:
  "conserved (final_db sample_worker_pass sample_admitted) \<and> registry_ok (final_db sample_worker_pass sample_admitted)"
  using platform_refines_system [OF sample_platform_run] by simp

end
