(* ===== verification/Spec2Isabelle.thy ===== *)
theory Spec2Isabelle
  imports Guarantees Admission Api ArtifactSafety Gates Metrics ExecutorFaults Processes
begin

text \<open>
  Verification of the post-training and evaluation platform: an HTTP API over PostgreSQL, a
  scheduler, workers, recovery, an outbox relay and an artifact reconciler, each a process of its
  own, that share nothing but the database, the object store and a message queue.

  \<^bold>\<open>How the program is modelled.\<close>  The database is one record \<open>db\<close> of tables (Schema), a row is a
  record with the columns of the class in app/models.  A service is a \<open>program\<close> over a \<open>session\<close>
  (Prelude, Schema): it reads and writes the working view, \<open>commit\<close> makes the view durable, \<open>rollback\<close>
  drops it, and exceptions are values of \<open>exn\<close>.  \<open>commits m d\<close> lists every state \<open>m\<close> makes durable
  when it starts from \<open>d\<close>, so a crash at any point is a prefix of it.  What other processes do is
  either the next transaction of a run (\<open>txn\<close>, \<open>system_step\<close>: one operation, stopped at any commit,
  with arguments as stale as you like) or, where a race inside one operation matters, a function
  \<open>others\<close> applied between two of its statements (\<open>interfere\<close>), which the theorems allow to be any
  run of the system.

  \<^bold>\<open>Parts and theories.\<close>
  \<^item> Prelude, PyFloat, Schema: sessions and programs; IEEE doubles as rationals rounded to 53 bits with
    infinities and NaN, and the Python comparisons on them; the tables, JSON values, settings
    (app/config.py, app/models).
  \<^item> JobsRepo, ResourcesRepo, HistoryRepo: app/repository/jobs.py and app/statemachine.py; capacity.py
    and reservations.py; attempts.py, dlq.py, outbox.py, scheduling_decisions.py and the relay.
    Conditional updates are their WHERE clause as a predicate and their SET as a function.
  \<^item> RetryPolicy, JobService, Scheduler, Worker, Recovery: app/retry_policy.py and the services of the
    same names; the worker's body is a parameter there.
  \<^item> Artifacts, Registry: app/repository/artifacts.py, app/services/artifacts.py, reconciler.py,
    app/storage.py; datasets, models, training runs and lineage.
  \<^item> FencedRepo, Evaluation: the tables executors write with \<^verbatim>\<open>INSERT ... SELECT\<close> guarded by the lease;
    app/services/evaluations.py with baselines and gates.
  \<^item> Metrics, Gates: app/evaluation/metrics.py and quality_gate_engine.py.
  \<^item> EvalExecutor, Evaluator, Gpu: app/evaluation/executor.py, subprocess_main.py, toy_evaluator.py and
    app/training/gpu.py.  Trainer, Discovery, TrainExecutor: toy_trainer.py, checkpoint_discovery.py
    and app/training/executor.py.
  \<^item> Scrape: app/metrics.py.  Responses, Routes: the bodies of app/schemas.py and one definition per handler of
    app/routers.  \<open>respond\<close> is the answer the framework makes of it: the handler's status and body, the
    status of an \<open>HTTPException\<close>, or 500 for any other exception and for a body with a float that is
    not finite, which JSON cannot render.
  \<^item> Processes: the loops of the five \<^verbatim>\<open>main.py\<close> files and \<open>platform_step\<close>, one pass of any process or
    one request, cut off at any commit.

  \<^bold>\<open>What is proved, and where.\<close>
  \<^item> Sessions and Runs hold the calculus: \<open>keeps\<close>, \<open>recovers\<close>, \<open>triple\<close>, \<open>settles\<close> and \<open>runs\<close>, each with
    a rule per combinator in a named collection.
  \<^item> Services: the locale \<open>repository_laws\<close> derives from laws of the repositories that every service
    and every run keeps an invariant; JobFrame: \<open>job_side\<close>, what leaves the other tables alone.  Accounting
    (allocated counters are the sums over the ACTIVE reservations), Evolution (what may change in a
    job row), Lifecycle, Ledger and Guarantees (running jobs are backed, no capacity leaks under the
    discipline \<open>core_txn\<close>, which excludes PATCH of the status and DELETE, and leaks are for ever
    without it), Platform (fencing of superseded workers, one owner per attempt) are its instances.
  \<^item> ArtifactLaws, ArtifactSafety: UPLOADED rows name bytes of their hash along every history.
    RegistryLaws, RegistrySafety, Records, System: version numbers, lineage, keys and foreign keys,
    permanence of what was persisted, along every run of \<open>system_step\<close>.
  \<^item> Admission, Api: the exact outcome of one admission, claim, cancellation, creation.
  \<^item> EvaluationSafety, ExecutorRuns, EvaluatorSafety, TrainerSafety, TrainingSafety, WorkerRuns: success is earned,
    corrupt bytes never score, a resumed training computes what the uninterrupted one computes, and
    every state a worker commits with both executors inside is one of a run of \<open>system_step\<close>
    (refinement).  ExecutorFaults: the reports that are lost to a logging error.
  \<^item> RouteSafety: a request commits only what runs of the system commit, a GET commits nothing and which
    status it answers, a created row is what its GET returns, pages partition their list.  Processes: every run of
    the deployed processes is a run of \<open>system_step\<close> (\<open>platform_refines_system\<close>), so all theorems
    about reachable states hold of them.
  \<^item> SampleRun and the samples of each theory run the system on concrete rows; the witnesses use them.

  \<^bold>\<open>Parameters.\<close>  The object store (\<open>put\<close>, \<open>get\<close>), SHA-256 (\<open>hash_bytes\<close>, no injectivity assumed), the
  producer of the relay, the random fraction of the backoff, the CUDA probe, the lines a subprocess
  prints with what other processes commit between them, \<open>others\<close>, and \<open>codec\<close> (decimal printing of
  floats, JSON text, whether INFO is logged).  Hypotheses about them are named in the theorems:
  \<open>quiet\<close> and \<open>quiet_training\<close> say that between two lines only the system writes.

  \<^bold>\<open>Bounds and loops.\<close>  Every loop over rows is structural recursion.  The training loop is a
  \<open>partial_function (option)\<close>, \<open>None\<close> being a run that never ends; \<open>training_terminates\<close> gives its end
  for every number of steps that is not infinite.  No fuel is used.

  \<^bold>\<open>Abstractions.\<close>  One clock reading per call or pass, \<open>updated_at\<close> left out; identifiers are numbers
  (a fresh one is larger than all in its table) and times are microseconds; the reads of one request
  see one state except where \<open>others\<close> intervenes; stale attributes of ORM objects are arguments, the
  identity map is not modelled; non-integer resource values end as a database error; JSON objects are
  association lists with distinct keys; strings are 8-bit; numeric strings and fractions that
  PostgreSQL would coerce into columns are errors; overflow of dates is left out except in the
  backoff, where Python's OverflowError is a branch.

  \<^bold>\<open>Not modelled.\<close>  The text format of /metrics, connections, the message queue beyond the producer and
  the order of messages, logging other than where it raises, sleeping, the DDL of the migrations beyond the
  constraints stated as predicates, the load test, tests and notebook.  Path and query parameters
  arrive parsed; that a client's integer fits in 32 bits and that its strings hold no NUL character is
  not checked.  The identifiers of recorded gate decisions and \<open>updated_at\<close> are left out of the bodies.
\<close>

end
